theory Spec2Isabelle
  imports Complex_Main "HOL-Library.Multiset"
begin

section \<open>JavaScript values\<close>

text \<open>
  The price calculator is TypeScript; its numbers are JavaScript numbers, IEEE doubles.
  A number is modelled as a real or \<open>NaN\<close>. The constructor \<open>NaN\<close> is kept because
  the parsers of the source produce it and the source tests and compares such values.
  \<open>Infinity\<close> and the sign of zero are not modelled. The arithmetic operations below
  are exact; the rounding of a result to a double is a separate function, \<open>jdouble\<close>,
  applied where the source compares a computed distance with a tolerance that requests
  meet exactly (\<open>checkFit\<close>): there the rounding decides the outcome.
\<close>

datatype jsnum = NaN | Num real

fun jmul :: "jsnum \<Rightarrow> jsnum \<Rightarrow> jsnum" where
  "jmul (Num a) (Num b) = Num (a * b)"
| "jmul _ _ = NaN"

text \<open>
  \<open>a / b\<close>. A zero divisor would give \<open>Infinity\<close> or \<open>NaN\<close> in JavaScript; the
  callers below divide by base dimensions they have tested against 0, by 1000 and by a
  quantity that is replaced by 1000 when it is 0, so the first equation's guard is never
  false there.
\<close>

fun jdiv :: "jsnum \<Rightarrow> jsnum \<Rightarrow> jsnum" where
  "jdiv (Num a) (Num b) = (if b \<noteq> 0 then Num (a / b) else NaN)"
| "jdiv _ _ = NaN"

fun jsub :: "jsnum \<Rightarrow> jsnum \<Rightarrow> jsnum" where
  "jsub (Num a) (Num b) = Num (a - b)"
| "jsub _ _ = NaN"

text \<open>\<open>Math.abs\<close>, \<open>Math.ceil\<close>, \<open>Math.round\<close> (halves go up), \<open>Math.max\<close>, \<open>Math.min\<close>.\<close>

fun jabs :: "jsnum \<Rightarrow> jsnum" where
  "jabs (Num a) = Num \<bar>a\<bar>"
| "jabs NaN = NaN"

fun jceil :: "jsnum \<Rightarrow> jsnum" where
  "jceil (Num a) = Num (of_int \<lceil>a\<rceil>)"
| "jceil NaN = NaN"

fun jround :: "jsnum \<Rightarrow> jsnum" where
  "jround (Num a) = Num (of_int \<lfloor>a + 1 / 2\<rfloor>)"
| "jround NaN = NaN"

fun jmax :: "jsnum \<Rightarrow> jsnum \<Rightarrow> jsnum" where
  "jmax (Num a) (Num b) = Num (max a b)"
| "jmax _ _ = NaN"

fun jmin :: "jsnum \<Rightarrow> jsnum \<Rightarrow> jsnum" where
  "jmin (Num a) (Num b) = Num (min a b)"
| "jmin _ _ = NaN"

text \<open>The comparisons \<open><\<close>, \<open><=\<close> and \<open>>=\<close>: false as soon as one side is \<open>NaN\<close>.\<close>

fun jlt :: "jsnum \<Rightarrow> jsnum \<Rightarrow> bool" where
  "jlt (Num a) (Num b) = (a < b)"
| "jlt _ _ = False"

fun jle :: "jsnum \<Rightarrow> jsnum \<Rightarrow> bool" where
  "jle (Num a) (Num b) = (a \<le> b)"
| "jle _ _ = False"

fun jge :: "jsnum \<Rightarrow> jsnum \<Rightarrow> bool" where
  "jge (Num a) (Num b) = (a \<ge> b)"
| "jge _ _ = False"

text \<open>Strict equality \<open>===\<close> of two numbers: \<open>NaN\<close> equals nothing.\<close>

fun jeq :: "jsnum \<Rightarrow> jsnum \<Rightarrow> bool" where
  "jeq (Num a) (Num b) = (a = b)"
| "jeq _ _ = False"

text \<open>A number in a condition: 0 and \<open>NaN\<close> are falsy.\<close>

fun truthy :: "jsnum \<Rightarrow> bool" where
  "truthy (Num a) = (a \<noteq> 0)"
| "truthy NaN = False"

text \<open>\<open>Number.MAX_VALUE\<close>, the largest finite double.\<close>

definition MAX_VALUE :: real where
  "MAX_VALUE = (2 ^ 53 - 1) * 2 ^ 971"

subsection \<open>Rounding to a double\<close>

text \<open>
  The double nearest to a real: 53 significant bits, ties to the even significand. For
  \<open>a > 0\<close>, \<open>exponentOf a\<close> is the whole number \<open>e\<close> with
  \<open>pow2 e \<le> a < pow2 (e + 1)\<close>, found on the whole part of \<open>a\<close> or of \<open>1 / a\<close>
  (lemma \<open>exponentOf_bounds\<close>); the doubles from \<open>pow2 e\<close> to \<open>pow2 (e + 1)\<close> are
  the multiples of \<open>pow2 (e - 52)\<close>. The range of the exponent is not limited:
  overflow to \<open>Infinity\<close> beyond \<open>MAX_VALUE\<close> and the wider spacing of the
  subnormal doubles are not modelled.
\<close>

fun ilog2 :: "nat \<Rightarrow> nat" where
  "ilog2 n = (if n < 2 then 0 else Suc (ilog2 (n div 2)))"

declare ilog2.simps [simp del]

definition clog2 :: "nat \<Rightarrow> nat" where
  "clog2 m = (if m \<le> 1 then 0 else Suc (ilog2 (m - 1)))"

definition exponentOf :: "real \<Rightarrow> int" where
  "exponentOf a =
     (if 1 \<le> a then int (ilog2 (nat \<lfloor>a\<rfloor>)) else - int (clog2 (nat \<lceil>1 / a\<rceil>)))"

definition pow2 :: "int \<Rightarrow> real" where
  "pow2 e = (if 0 \<le> e then 2 ^ nat e else 1 / 2 ^ nat (- e))"

definition roundEven :: "real \<Rightarrow> int" where
  "roundEven y =
     (let f = \<lfloor>y\<rfloor>; d = y - of_int f
      in if d < 1 / 2 then f
         else if 1 / 2 < d then f + 1
         else if even f then f else f + 1)"

definition roundToDouble :: "real \<Rightarrow> real" where
  "roundToDouble x =
     (if x = 0 then 0
      else (let a = \<bar>x\<bar>; ulp = pow2 (exponentOf a - 52)
            in sgn x * (of_int (roundEven (a / ulp)) * ulp)))"

fun jdouble :: "jsnum \<Rightarrow> jsnum" where
  "jdouble (Num a) = Num (roundToDouble a)"
| "jdouble NaN = NaN"

section \<open>Strings\<close>

text \<open>
  A JavaScript string is a sequence of UTF-16 code units, here a list of their numbers.
  \<open>str\<close> writes an ASCII literal.
\<close>

type_synonym jsstring = "nat list"

definition str :: "string \<Rightarrow> jsstring" where
  "str s = map of_char s"

text \<open>The class \<open>\d\<close> of a regular expression without the unicode flag: \<open>0\<close> to \<open>9\<close>.\<close>

definition isDigit :: "nat \<Rightarrow> bool" where
  "isDigit c = (48 \<le> c \<and> c \<le> 57)"

text \<open>
  White space and line terminators: what \<open>\s\<close> matches, what \<open>trim\<close> strips and what
  \<open>parseFloat\<close> and \<open>parseInt\<close> skip.
\<close>

definition isWhiteSpace :: "nat \<Rightarrow> bool" where
  "isWhiteSpace c =
     (c \<in> {9, 10, 11, 12, 13, 32, 160, 5760, 8232, 8233, 8239, 8287, 12288, 65279}
      \<or> (8192 \<le> c \<and> c \<le> 8202))"

definition trim :: "jsstring \<Rightarrow> jsstring" where
  "trim s = rev (dropWhile isWhiteSpace (rev (dropWhile isWhiteSpace s)))"

text \<open>\<open>s.replace(pat, rep)\<close> with a string pattern: the first occurrence only.\<close>

fun replaceFirst :: "jsstring \<Rightarrow> jsstring \<Rightarrow> jsstring \<Rightarrow> jsstring" where
  "replaceFirst pat rep [] = (if pat = [] then rep else [])"
| "replaceFirst pat rep (c # cs) =
     (if take (length pat) (c # cs) = pat then rep @ drop (length pat) (c # cs)
      else c # replaceFirst pat rep cs)"

text \<open>
  \<open>toLowerCase\<close> on the letters \<open>A\<close> to \<open>Z\<close>. The source lower-cases a size label only
  to find \<open>x\<close> and \<open>cm\<close> in it; no other character lower-cases to a digit, a dot,
  \<open>x\<close>, \<open>*\<close>, \<open>c\<close>, \<open>m\<close> or white space, so the other characters are left as they are.
\<close>

definition toLowerCase :: "jsstring \<Rightarrow> jsstring" where
  "toLowerCase s = map (\<lambda>c. if 65 \<le> c \<and> c \<le> 90 then c + 32 else c) s"

text \<open>The value of a string of decimal digits, most significant first.\<close>

definition digitsVal :: "jsstring \<Rightarrow> nat" where
  "digitsVal ds = foldl (\<lambda>acc c. 10 * acc + (c - 48)) 0 ds"

text \<open>
  \<open>parseFloat\<close>: skips leading white space, then reads the longest prefix that is a
  decimal literal (sign, digits, fraction, exponent) and ignores the rest; \<open>NaN\<close> when no
  prefix is one. A literal of at most \<open>1 / 2 ^ 1075\<close>, half the smallest positive
  double, reads as 0 (\<open>underflow\<close>). Otherwise the value is the literal's exact value,
  not its nearest double. \<open>Infinity\<close> is not modelled: the literal \<open>Infinity\<close>
  reads as \<open>NaN\<close> here, and a literal beyond \<open>MAX_VALUE\<close>, which JavaScript reads as
  \<open>Infinity\<close>, as its exact value.
\<close>

definition underflow :: "real \<Rightarrow> real" where
  "underflow v = (if \<bar>v\<bar> \<le> 1 / 2 ^ 1075 then 0 else v)"

definition parseExponent :: "jsstring \<Rightarrow> int" where
  "parseExponent r =
     (case r of
        [] \<Rightarrow> 0
      | e # t \<Rightarrow>
          if e = 101 \<or> e = 69 then
            (let neg = (case t of [] \<Rightarrow> False | c # _ \<Rightarrow> c = 45);
                 t' = (case t of [] \<Rightarrow> [] | c # u \<Rightarrow> if c = 45 \<or> c = 43 then u else t);
                 ds = takeWhile isDigit t'
             in if ds = [] then 0
                else if neg then - int (digitsVal ds) else int (digitsVal ds))
          else 0)"

definition scale10 :: "real \<Rightarrow> int \<Rightarrow> real" where
  "scale10 m e = (if 0 \<le> e then m * 10 ^ nat e else m / 10 ^ nat (- e))"

definition parseFloat :: "jsstring \<Rightarrow> jsnum" where
  "parseFloat s =
     (let s1 = dropWhile isWhiteSpace s;
          neg = (case s1 of [] \<Rightarrow> False | c # _ \<Rightarrow> c = 45);
          s2 = (case s1 of [] \<Rightarrow> [] | c # u \<Rightarrow> if c = 45 \<or> c = 43 then u else s1);
          ip = takeWhile isDigit s2;
          r1 = dropWhile isDigit s2;
          fp = (case r1 of [] \<Rightarrow> [] | c # u \<Rightarrow> if c = 46 then takeWhile isDigit u else []);
          r2 = (case r1 of [] \<Rightarrow> [] | c # u \<Rightarrow> if c = 46 then dropWhile isDigit u else r1)
      in if ip = [] \<and> fp = [] then NaN
         else
           (let m = real (digitsVal ip) + real (digitsVal fp) / 10 ^ length fp;
                v = underflow (scale10 m (parseExponent r2))
            in Num (if neg then - v else v)))"

text \<open>
  \<open>parseInt\<close> without a radix: leading white space, a sign, then hexadecimal digits
  after \<open>0x\<close> or \<open>0X\<close> and decimal digits otherwise; \<open>NaN\<close> when there is no digit.
  The value is the exact whole number (JavaScript rounds it to a double, and to
  \<open>Infinity\<close> beyond \<open>MAX_VALUE\<close>).
\<close>

definition hexVal :: "nat \<Rightarrow> nat option" where
  "hexVal c =
     (if 48 \<le> c \<and> c \<le> 57 then Some (c - 48)
      else if 97 \<le> c \<and> c \<le> 102 then Some (c - 87)
      else if 65 \<le> c \<and> c \<le> 70 then Some (c - 55)
      else None)"

definition parseInt :: "jsstring \<Rightarrow> jsnum" where
  "parseInt s =
     (let s1 = dropWhile isWhiteSpace s;
          neg = (case s1 of [] \<Rightarrow> False | c # _ \<Rightarrow> c = 45);
          s2 = (case s1 of [] \<Rightarrow> [] | c # u \<Rightarrow> if c = 45 \<or> c = 43 then u else s1);
          hex = (take 2 s2 = [48, 120] \<or> take 2 s2 = [48, 88]);
          ds = (if hex then takeWhile (\<lambda>c. hexVal c \<noteq> None) (drop 2 s2)
                else takeWhile isDigit s2);
          v = (if hex then foldl (\<lambda>acc c. 16 * acc + the (hexVal c)) 0 ds
               else digitsVal ds)
      in if ds = [] then NaN
         else Num (if neg then - real v else real v))"

section \<open>The catalog\<close>

record PriceItem =
  kategori :: jsstring
  ebat :: jsstring
  kod :: jsstring
  aciklama :: jsstring
  miktar :: jsstring
  fiyat :: jsstring

text \<open>
  The category names. Three of them have letters outside ASCII, written here by their
  code units: s with cedilla is 351, u with diaeresis 252, capital dotted I 304, dotless
  i 305.
\<close>

definition Kartvizit :: jsstring where
  "Kartvizit = str ''Kartvizit''"

definition Brosur :: jsstring where
  "Brosur = str ''Bro'' @ [351, 252] @ str ''r''"

definition El_Ilani :: jsstring where
  "El_Ilani = str ''El '' @ [304] @ str ''lan'' @ [305]"

definition Etiket :: jsstring where
  "Etiket = str ''Etiket''"

definition Magnet :: jsstring where
  "Magnet = str ''Magnet''"

definition Kuse_200 :: jsstring where
  "Kuse_200 = str ''200 Gr. Ku'' @ [351] @ str ''e''"

definition MGN :: jsstring where
  "MGN = str ''MGN''"

definition MULTIPLIER_CATEGORIES :: "jsstring list" where
  "MULTIPLIER_CATEGORIES = [Kartvizit, Brosur, El_Ilani, Etiket, Magnet, Kuse_200]"

definition QUANTITY_OPTIONS :: "real list" where
  "QUANTITY_OPTIONS = [1000, 2000, 3000, 4000, 5000, 6000, 8000, 10000, 12000, 20000]"

text \<open>
  \<open>parsePrice\<close>: drop every dot, drop everything that is neither a digit nor a comma,
  turn the first comma into a dot, \<open>parseFloat\<close>.
\<close>

definition parsePrice :: "jsstring \<Rightarrow> jsnum" where
  "parsePrice priceStr =
     parseFloat (replaceFirst [44] [46]
       (filter (\<lambda>c. isDigit c \<or> c = 44) (filter (\<lambda>c. c \<noteq> 46) priceStr)))"

text \<open>
  \<open>parseSize\<close>: lower-case, drop white space, drop the first \<open>cm\<close>, then match
  \<open>^([\d.]+)[x*]([\d.]+)\<close>. The two groups go through \<open>parseFloat\<close>, which gives
  \<open>NaN\<close> for a group such as \<open>.\<close>.
\<close>

definition isDigitOrDot :: "nat \<Rightarrow> bool" where
  "isDigitOrDot c = (isDigit c \<or> c = 46)"

definition parseSize :: "jsstring \<Rightarrow> (jsnum \<times> jsnum) option" where
  "parseSize sizeStr =
     (let clean = replaceFirst (str ''cm'') [] (filter (\<lambda>c. \<not> isWhiteSpace c) (toLowerCase sizeStr));
          g1 = takeWhile isDigitOrDot clean;
          rest = dropWhile isDigitOrDot clean
      in case rest of
           [] \<Rightarrow> None
         | sep # rest' \<Rightarrow>
             (let g2 = takeWhile isDigitOrDot rest'
              in if g1 \<noteq> [] \<and> (sep = 120 \<or> sep = 42) \<and> g2 \<noteq> []
                 then Some (parseFloat g1, parseFloat g2)
                 else None))"

text \<open>\<open>getPaperTypeGroup\<close>: the text before the first hyphen, trimmed.\<close>

definition getPaperTypeGroup :: "jsstring \<Rightarrow> jsstring \<Rightarrow> jsstring" where
  "getPaperTypeGroup desc cat =
     (if cat = Magnet then Magnet else trim (takeWhile (\<lambda>c. c \<noteq> 45) desc))"

text \<open>
  \<open>parseInt(item.miktar.replace(/[^\d]/g, ''))\<close>, the quantity of a catalog entry, and
  the same with \<open>|| 1000\<close>, which replaces 0 and \<open>NaN\<close>.
\<close>

definition miktarQty :: "PriceItem \<Rightarrow> jsnum" where
  "miktarQty item = parseInt (filter isDigit (miktar item))"

definition itemQtyOf :: "PriceItem \<Rightarrow> jsnum" where
  "itemQtyOf item = (if truthy (miktarQty item) then miktarQty item else Num 1000)"

section \<open>The price of one catalog entry\<close>

datatype strategy = Formula | Multiplier | Standard

datatype details = SizeDetails jsnum jsnum | MultiplierDetails jsnum jsnum

record PriceOutcome =
  price :: jsnum
  strategy :: strategy
  needsCut :: bool
  details :: details
  baseDims :: "(jsnum \<times> jsnum) option"

text \<open>
  The base size in cm: 8.6 by 5.4 for business cards and labels, else the parsed size
  label, else 0 by 0.
\<close>

definition baseSize :: "PriceItem \<Rightarrow> jsnum \<times> jsnum" where
  "baseSize item =
     (if kategori item = Kartvizit \<or> kategori item = Etiket then (Num 8.6, Num 5.4)
      else case parseSize (ebat item) of
             Some s \<Rightarrow> s
           | None \<Rightarrow> (Num 0, Num 0))"

definition TOLERANCE :: jsnum where
  "TOLERANCE = Num 0.5"

text \<open>
  \<open>checkFit\<close>: \<open>r = u / b; round = Math.round(r); Math.abs(r - round) * b <= TOLERANCE\<close>.
  The quotient, the difference and the product are doubles; the two operands are taken
  as they are. A side that is exactly half a millimetre from a multiple of the base
  makes the exact product 0.5, and the rounded product lies on either side of it: 86.5
  on 86 gives 0.5000000000000009, 108.5 on 54 gives 0.49999999999999023.
\<close>

definition checkFit :: "jsnum \<Rightarrow> jsnum \<Rightarrow> bool" where
  "checkFit u b =
     (let r = jdouble (jdiv u b);
          round = jround r
      in jle (jdouble (jmul (jabs (jdouble (jsub r round))) b)) TOLERANCE)"

text \<open>
  The two orientation checks: whether the imposition is standard, and the imposed
  multiplier (0 when it is not).
\<close>

definition standardImposition :: "jsnum \<Rightarrow> jsnum \<Rightarrow> jsnum \<Rightarrow> jsnum \<Rightarrow> bool \<times> jsnum" where
  "standardImposition userW_mm userH_mm baseW_mm baseH_mm =
     (if checkFit userW_mm baseW_mm \<and> checkFit userH_mm baseH_mm then
        (let rW = jmax (Num 1) (jround (jdiv userW_mm baseW_mm));
             rH = jmax (Num 1) (jround (jdiv userH_mm baseH_mm))
         in (True, jmul rW rH))
      else if checkFit userW_mm baseH_mm \<and> checkFit userH_mm baseW_mm then
        (let rW = jmax (Num 1) (jround (jdiv userW_mm baseH_mm));
             rH = jmax (Num 1) (jround (jdiv userH_mm baseW_mm))
         in (True, jmul rW rH))
      else (False, Num 0))"

text \<open>
  The factor pairs: \<open>for (i = 1; i <= Math.sqrt(ratioInt); i++) if (ratioInt % i === 0)
  push {r: i, c: ratioInt / i}\<close>. On integers \<open>i <= Math.sqrt(n)\<close> is \<open>i * i \<le> n\<close>
  (lemma \<open>sqrt_bound_iff\<close> below).
\<close>

function layoutsFrom :: "int \<Rightarrow> int \<Rightarrow> (int \<times> int) list" where
  "layoutsFrom n i =
     (if i * i \<le> n then
        (if n mod i = 0 then [(i, n div i)] else []) @ layoutsFrom n (i + 1)
      else [])"
  by pat_completeness auto
termination
proof (relation "measure (\<lambda>(n, i). nat (n + 1 - i))")
  show "wf (measure (\<lambda>(n, i). nat (n + 1 - i)))"
    by simp
next
  fix n i :: int
  assume le: "i * i \<le> n"
  have "i \<le> i * i"
    by (cases "i \<le> 0") (auto intro: order_trans [OF _ zero_le_square] simp: mult_le_cancel_left1)
  with le show "((n, i + 1), (n, i)) \<in> measure (\<lambda>(n, i). nat (n + 1 - i))"
    by simp
qed

text \<open>
  \<open>ratioInt\<close> is the result of \<open>Math.ceil\<close>, a whole number or \<open>NaN\<close>; with
  \<open>NaN\<close>, or a value below 1, the loop pushes nothing.
\<close>

definition layouts :: "jsnum \<Rightarrow> (jsnum \<times> jsnum) list" where
  "layouts ratioInt =
     (case ratioInt of
        NaN \<Rightarrow> []
      | Num n \<Rightarrow> map (\<lambda>(r, c). (Num (of_int r), Num (of_int c))) (layoutsFrom \<lfloor>n\<rfloor> 1))"

text \<open>One round of the loop over the layouts: the four sheet counts and the new minimum.\<close>

definition layoutStep :: "jsnum \<Rightarrow> jsnum \<Rightarrow> jsnum \<Rightarrow> jsnum \<Rightarrow> jsnum \<Rightarrow> jsnum \<times> jsnum \<Rightarrow> jsnum" where
  "layoutStep userW_mm userH_mm baseW_mm baseH_mm bestTotalMolds rc =
     (let r = fst rc; c = snd rc;
          totalW1 = jmul userW_mm c;
          totalH1 = jmul userH_mm r;
          m1 = jmul (jceil (jdiv totalW1 baseW_mm)) (jceil (jdiv totalH1 baseH_mm));
          m2 = jmul (jceil (jdiv totalW1 baseH_mm)) (jceil (jdiv totalH1 baseW_mm));
          totalW2 = jmul userW_mm r;
          totalH2 = jmul userH_mm c;
          m3 = jmul (jceil (jdiv totalW2 baseW_mm)) (jceil (jdiv totalH2 baseH_mm));
          m4 = jmul (jceil (jdiv totalW2 baseH_mm)) (jceil (jdiv totalH2 baseW_mm))
      in jmin (jmin (jmin (jmin bestTotalMolds m1) m2) m3) m4)"

text \<open>The layout optimizer: the else branch of \<open>if (isStandardImposition)\<close>.\<close>

definition bestMolds :: "jsnum \<Rightarrow> jsnum \<Rightarrow> jsnum \<Rightarrow> jsnum \<Rightarrow> jsnum \<Rightarrow> jsnum" where
  "bestMolds userW_mm userH_mm baseW_mm baseH_mm qtyRatio =
     foldl (layoutStep userW_mm userH_mm baseW_mm baseH_mm) (Num MAX_VALUE)
       (layouts (jceil qtyRatio))"

definition calculatePriceForItem ::
  "PriceItem \<Rightarrow> jsnum \<Rightarrow> jsnum \<Rightarrow> jsnum \<Rightarrow> PriceOutcome option" where
  "calculatePriceForItem item userW_mm userH_mm targetQty =
     (if kategori item = Magnet \<and> kod item = MGN then
        (let basePrice = jmul (jmul userW_mm userH_mm) (Num 0.21);
             total = jmul basePrice (jdiv targetQty (Num 1000))
         in Some \<lparr>price = total, strategy = Formula, needsCut = True,
                  details = SizeDetails userW_mm userH_mm, baseDims = None\<rparr>)
      else if kategori item \<in> set MULTIPLIER_CATEGORIES then
        (let BASE_W = fst (baseSize item);
             BASE_H = snd (baseSize item)
         in if BASE_W = Num 0 \<or> BASE_H = Num 0 then None
            else
              (let qtyRatio = jdiv targetQty (itemQtyOf item);
                   baseW_mm = jmul BASE_W (Num 10);
                   baseH_mm = jmul BASE_H (Num 10);
                   std = standardImposition userW_mm userH_mm baseW_mm baseH_mm;
                   isStandardImposition = fst std;
                   imposedMultiplier = snd std;
                   multiplier =
                     (if isStandardImposition then jceil (jmul imposedMultiplier qtyRatio)
                      else bestMolds userW_mm userH_mm baseW_mm baseH_mm qtyRatio);
                   basePrice = parsePrice (fiyat item)
               in Some \<lparr>price = jmul basePrice multiplier, strategy = Multiplier,
                        needsCut = (\<not> isStandardImposition),
                        details = MultiplierDetails multiplier qtyRatio,
                        baseDims = Some (baseW_mm, baseH_mm)\<rparr>))
      else None)"

section \<open>The calculation for a request\<close>

text \<open>
  A size suggestion and a quantity suggestion. The source also stores prices formatted
  as currency text (\<open>formatPrice\<close>, \<open>Intl.NumberFormat\<close>); the model keeps the number
  that is formatted. \<open>wasteAmt\<close> is a text made of the differences that are at least
  0.1 mm; the model keeps these differences as a list.
\<close>

record SizeSuggestion =
  sug_w_mm :: jsnum
  sug_h_mm :: jsnum
  sug_price :: jsnum
  savingAmount :: jsnum
  savingPercent :: jsnum
  isSamePrice :: bool
  wasteAmt :: "jsnum list"

record QtySuggestion =
  qty :: jsnum
  qty_price :: jsnum

record CalculationResult =
  paperName :: jsstring
  res_strategy :: strategy
  matchItem :: PriceItem
  calculatedPrice :: jsnum
  isExact :: bool
  res_needsCut :: bool
  res_details :: details
  res_baseDims :: "(jsnum \<times> jsnum) option"
  prevQty :: "QtySuggestion option"
  nextQty :: "QtySuggestion option"
  sizeSuggestion :: "SizeSuggestion option"

text \<open>
  The two messages of \<open>setError\<close>: invalid size or quantity, and no result for the
  criteria.
\<close>

datatype errorKind = InvalidInput | NoResults

record CalcState =
  results :: "CalculationResult list"
  error :: "errorKind option"

subsection \<open>Grouping by paper type\<close>

text \<open>
  \<open>groups\<close> is a plain object used as a dictionary. Its entries are kept in the order
  the keys were created. A key that names a property of \<open>Object.prototype\<close> is found
  there by \<open>groups[groupKey]\<close>, so no array is created for it and the call of \<open>push\<close>
  throws a \<open>TypeError\<close>.
\<close>

datatype exn = TypeError

definition objectPrototypeKeys :: "jsstring list" where
  "objectPrototypeKeys =
     map str [''constructor'', ''__defineGetter__'', ''__defineSetter__'', ''hasOwnProperty'',
       ''__lookupGetter__'', ''__lookupSetter__'', ''isPrototypeOf'', ''propertyIsEnumerable'',
       ''toString'', ''valueOf'', ''__proto__'', ''toLocaleString'']"

definition Ozel_Ebat_Magnet :: jsstring where
  "Ozel_Ebat_Magnet = [214] @ str ''zel Ebat Magnet''"

fun addToGroup ::
  "(jsstring \<times> PriceItem list) list \<Rightarrow> jsstring \<Rightarrow> PriceItem \<Rightarrow> (jsstring \<times> PriceItem list) list" where
  "addToGroup [] k item = [(k, [item])]"
| "addToGroup ((k', its) # gs) k item =
     (if k' = k then (k', its @ [item]) # gs else (k', its) # addToGroup gs k item)"

fun groupItems ::
  "jsstring \<Rightarrow> PriceItem list \<Rightarrow> (jsstring \<times> PriceItem list) list \<Rightarrow>
   exn + (jsstring \<times> PriceItem list) list" where
  "groupItems category [] groups = Inr groups"
| "groupItems category (item # rest) groups =
     (if category = Magnet \<and> kod item \<noteq> MGN then groupItems category rest groups
      else
        (let groupKey = (if category = Magnet then Ozel_Ebat_Magnet
                         else getPaperTypeGroup (aciklama item) category)
         in if groupKey \<in> set objectPrototypeKeys then Inl TypeError
            else groupItems category rest (addToGroup groups groupKey item)))"

text \<open>
  \<open>Object.entries\<close>: the keys that are array indices (canonical decimal numbers below
  \<open>2^32 - 1\<close>) come first in increasing order, the other keys follow in the order of
  their creation.
\<close>

definition isArrayIndex :: "jsstring \<Rightarrow> bool" where
  "isArrayIndex k =
     (k \<noteq> [] \<and> (\<forall>c \<in> set k. isDigit c) \<and> (k = [48] \<or> hd k \<noteq> 48) \<and> digitsVal k < 2 ^ 32 - 1)"

definition objectEntries :: "(jsstring \<times> PriceItem list) list \<Rightarrow> (jsstring \<times> PriceItem list) list" where
  "objectEntries gs =
     sort_key (\<lambda>g. digitsVal (fst g)) (filter (\<lambda>g. isArrayIndex (fst g)) gs)
     @ filter (\<lambda>g. \<not> isArrayIndex (fst g)) gs"

subsection \<open>The best candidate of a group\<close>

definition bestStep ::
  "jsnum \<Rightarrow> jsnum \<Rightarrow> jsnum \<Rightarrow> (PriceOutcome \<times> PriceItem) option \<Rightarrow> PriceItem \<Rightarrow>
   (PriceOutcome \<times> PriceItem) option" where
  "bestStep w_mm h_mm targetQty bestResult candidate =
     (case calculatePriceForItem candidate w_mm h_mm targetQty of
        None \<Rightarrow> bestResult
      | Some res \<Rightarrow>
          (case bestResult of
             None \<Rightarrow> Some (res, candidate)
           | Some b \<Rightarrow> if jlt (price res) (price (fst b)) then Some (res, candidate) else bestResult))"

definition bestCandidate ::
  "PriceItem list \<Rightarrow> jsnum \<Rightarrow> jsnum \<Rightarrow> jsnum \<Rightarrow> (PriceOutcome \<times> PriceItem) option" where
  "bestCandidate items w_mm h_mm targetQty = foldl (bestStep w_mm h_mm targetQty) None items"

subsection \<open>The size suggestion\<close>

text \<open>The elements of \<open>new Set(xs)\<close> in iteration order: first occurrences.\<close>

definition distinctFirst :: "'a list \<Rightarrow> 'a list" where
  "distinctFirst xs = rev (remdups (rev xs))"

definition itemToUseFor :: "PriceItem list \<Rightarrow> jsstring \<Rightarrow> jsnum \<Rightarrow> PriceItem option" where
  "itemToUseFor items sStr targetQty =
     (let sizeItems = filter (\<lambda>i. ebat i = sStr) items
      in case find (\<lambda>i. jeq (miktarQty i) targetQty) sizeItems of
           Some i \<Rightarrow> Some i
         | None \<Rightarrow>
             (case find (\<lambda>i. jeq (miktarQty i) (Num 1000)) sizeItems of
                Some i \<Rightarrow> Some i
              | None \<Rightarrow> (case sizeItems of [] \<Rightarrow> None | i # _ \<Rightarrow> Some i)))"

definition snapBase :: "jsstring \<Rightarrow> PriceItem \<Rightarrow> jsnum \<times> jsnum" where
  "snapBase category itemToUse =
     (if category = Kartvizit \<or> category = Etiket then (Num 86, Num 54)
      else case parseSize (ebat itemToUse) of
             Some s \<Rightarrow> (jmul (fst s) (Num 10), jmul (snd s) (Num 10))
           | None \<Rightarrow> (Num 0, Num 0))"

definition SNAP_TOLERANCE :: jsnum where
  "SNAP_TOLERANCE = Num 10"

definition checkSnap :: "jsnum \<Rightarrow> jsnum \<Rightarrow> jsnum \<Rightarrow> jsnum \<Rightarrow> (jsnum \<times> jsnum) option" where
  "checkSnap baseW baseH targetW targetH =
     (let multW = jmax (Num 1) (jround (jdiv targetW baseW));
          multH = jmax (Num 1) (jround (jdiv targetH baseH));
          snapW = jmul multW baseW;
          snapH = jmul multH baseH
      in if jle (jabs (jsub targetW snapW)) SNAP_TOLERANCE
            \<and> jle (jabs (jsub targetH snapH)) SNAP_TOLERANCE
            \<and> (jge (jabs (jsub targetW snapW)) (Num 0.5) \<or> jge (jabs (jsub targetH snapH)) (Num 0.5))
         then Some (snapW, snapH)
         else None)"

text \<open>The rotated snap, written out in the source after the direct one.\<close>

definition rotatedSnap :: "jsnum \<Rightarrow> jsnum \<Rightarrow> jsnum \<Rightarrow> jsnum \<Rightarrow> (jsnum \<times> jsnum) option" where
  "rotatedSnap baseW baseH w_mm h_mm =
     (let multW_rot = jmax (Num 1) (jround (jdiv w_mm baseH));
          multH_rot = jmax (Num 1) (jround (jdiv h_mm baseW));
          snapW_rot = jmul multW_rot baseH;
          snapH_rot = jmul multH_rot baseW
      in if jle (jabs (jsub w_mm snapW_rot)) SNAP_TOLERANCE
            \<and> jle (jabs (jsub h_mm snapH_rot)) SNAP_TOLERANCE
            \<and> (jge (jabs (jsub w_mm snapW_rot)) (Num 0.5) \<or> jge (jabs (jsub h_mm snapH_rot)) (Num 0.5))
         then Some (snapW_rot, snapH_rot)
         else None)"

text \<open>
  \<open>evaluateSuggestion\<close> reads and writes the variable \<open>bestSuggestion\<close>; the model takes
  it and returns it. The percentage divides by the current price. That price is 0 with
  a cheaper suggestion only when the suggestion's price is negative; JavaScript then
  gives \<open>Infinity\<close>, this model \<open>NaN\<close>.
\<close>

definition evaluateSuggestion ::
  "PriceItem \<Rightarrow> jsnum \<Rightarrow> jsnum \<Rightarrow> jsnum \<Rightarrow> jsnum \<Rightarrow> bool \<Rightarrow>
   SizeSuggestion option \<Rightarrow> jsnum \<Rightarrow> jsnum \<Rightarrow> SizeSuggestion option" where
  "evaluateSuggestion itemToUse w_mm h_mm targetQty currentPrice calcNeedsCut bestSuggestion w h =
     (case calculatePriceForItem itemToUse w h targetQty of
        None \<Rightarrow> bestSuggestion
      | Some res \<Rightarrow>
          (let isCheaper = jlt (price res) currentPrice;
               isSamePriceButStandard =
                 (jeq (price res) currentPrice \<and> calcNeedsCut \<and> \<not> needsCut res)
           in if isCheaper \<or> isSamePriceButStandard then
                (if (case bestSuggestion of None \<Rightarrow> True
                     | Some b \<Rightarrow> jle (price res) (sug_price b)) then
                   (let diffW = jabs (jsub w_mm w);
                        diffH = jabs (jsub h_mm h);
                        waste =
                          (if jge diffW (Num 0.1) \<and> jge diffH (Num 0.1) then [diffW, diffH]
                           else if jge diffW (Num 0.1) then [diffW]
                           else if jge diffH (Num 0.1) then [diffH]
                           else []);
                        percent =
                          (if isCheaper then
                             jround (jmul (jdiv (jsub currentPrice (price res)) currentPrice) (Num 100))
                           else Num 0)
                    in Some \<lparr>sug_w_mm = w, sug_h_mm = h, sug_price = price res,
                             savingAmount = jsub currentPrice (price res),
                             savingPercent = percent,
                             isSamePrice = isSamePriceButStandard,
                             wasteAmt = waste\<rparr>)
                 else bestSuggestion)
              else bestSuggestion))"

text \<open>The body of \<open>distinctSizes.forEach\<close>.\<close>

definition sizeStep ::
  "jsstring \<Rightarrow> PriceItem list \<Rightarrow> jsnum \<Rightarrow> jsnum \<Rightarrow> jsnum \<Rightarrow> jsnum \<Rightarrow> bool \<Rightarrow>
   SizeSuggestion option \<Rightarrow> jsstring \<Rightarrow> SizeSuggestion option" where
  "sizeStep category items w_mm h_mm targetQty currentPrice calcNeedsCut bestSuggestion sStr =
     (case itemToUseFor items sStr targetQty of
        None \<Rightarrow> bestSuggestion
      | Some itemToUse \<Rightarrow>
          (let baseW = fst (snapBase category itemToUse);
               baseH = snd (snapBase category itemToUse)
           in if baseW = Num 0 \<or> baseH = Num 0 then bestSuggestion
              else
                (let best1 =
                       (case checkSnap baseW baseH w_mm h_mm of
                          Some snapDirect \<Rightarrow>
                            evaluateSuggestion itemToUse w_mm h_mm targetQty currentPrice calcNeedsCut
                              bestSuggestion (fst snapDirect) (snd snapDirect)
                        | None \<Rightarrow> bestSuggestion)
                 in case rotatedSnap baseW baseH w_mm h_mm of
                      Some snapRot \<Rightarrow>
                        evaluateSuggestion itemToUse w_mm h_mm targetQty currentPrice calcNeedsCut
                          best1 (fst snapRot) (snd snapRot)
                    | None \<Rightarrow> best1)))"

definition sizeSuggestionFor ::
  "jsstring \<Rightarrow> PriceItem list \<Rightarrow> jsnum \<Rightarrow> jsnum \<Rightarrow> jsnum \<Rightarrow> PriceOutcome \<Rightarrow> SizeSuggestion option" where
  "sizeSuggestionFor category items w_mm h_mm targetQty calcResult =
     (if category \<noteq> Magnet then
        foldl (sizeStep category items w_mm h_mm targetQty (price calcResult) (needsCut calcResult))
          None (distinctFirst (map ebat items))
      else None)"

subsection \<open>The quantity suggestions\<close>

text \<open>\<open>Array.prototype.indexOf\<close>: the first index holding the value, or -1.\<close>

fun indexFrom :: "real list \<Rightarrow> jsnum \<Rightarrow> int \<Rightarrow> int" where
  "indexFrom [] v i = - 1"
| "indexFrom (y # ys) v i = (if jeq (Num y) v then i else indexFrom ys v (i + 1))"

definition indexOf :: "real list \<Rightarrow> jsnum \<Rightarrow> int" where
  "indexOf xs v = indexFrom xs v 0"

text \<open>
  \<open>xs[k]\<close>. Outside the array JavaScript gives \<open>undefined\<close>, which is no number in
  the arithmetic and the comparisons that follow; it is \<open>NaN\<close> here.
\<close>

definition elemAt :: "real list \<Rightarrow> int \<Rightarrow> jsnum" where
  "elemAt xs k = (if 0 \<le> k \<and> k < int (length xs) then Num (xs ! nat k) else NaN)"

definition findBestStep ::
  "jsnum \<Rightarrow> jsnum \<Rightarrow> jsnum \<Rightarrow> jsnum \<times> bool \<Rightarrow> PriceItem \<Rightarrow> jsnum \<times> bool" where
  "findBestStep w_mm h_mm targetQ st cand =
     (case calculatePriceForItem cand w_mm h_mm targetQ of
        None \<Rightarrow> st
      | Some r \<Rightarrow> if jlt (price r) (fst st) then (price r, True) else st)"

definition findBestPriceForQty :: "PriceItem list \<Rightarrow> jsnum \<Rightarrow> jsnum \<Rightarrow> jsnum \<Rightarrow> jsnum option" where
  "findBestPriceForQty items w_mm h_mm targetQ =
     (let qItems = filter (\<lambda>i. jeq (miktarQty i) targetQ) items;
          qCandidates0 =
            (if qItems \<noteq> [] then qItems else filter (\<lambda>i. jeq (miktarQty i) (Num 1000)) items);
          qCandidates =
            (case items of
               [] \<Rightarrow> qCandidates0
             | i # _ \<Rightarrow> if qCandidates0 = [] then [i] else qCandidates0);
          st = foldl (findBestStep w_mm h_mm targetQ) (Num MAX_VALUE, False) qCandidates
      in if snd st then Some (fst st) else None)"

definition prevQtyFor :: "PriceItem list \<Rightarrow> jsnum \<Rightarrow> jsnum \<Rightarrow> jsnum \<Rightarrow> QtySuggestion option" where
  "prevQtyFor items w_mm h_mm targetQty =
     (let currentQtyIdx = indexOf QUANTITY_OPTIONS targetQty
      in if currentQtyIdx > 0 then
           (let pQty = elemAt QUANTITY_OPTIONS (currentQtyIdx - 1)
            in case findBestPriceForQty items w_mm h_mm pQty of
                 Some pPrice \<Rightarrow> Some \<lparr>qty = pQty, qty_price = pPrice\<rparr>
               | None \<Rightarrow> None)
         else None)"

definition nextQtyFor :: "PriceItem list \<Rightarrow> jsnum \<Rightarrow> jsnum \<Rightarrow> jsnum \<Rightarrow> QtySuggestion option" where
  "nextQtyFor items w_mm h_mm targetQty =
     (let currentQtyIdx = indexOf QUANTITY_OPTIONS targetQty
      in if currentQtyIdx < int (length QUANTITY_OPTIONS) - 1 then
           (let nQty0 = elemAt QUANTITY_OPTIONS (currentQtyIdx + 1);
                nQty =
                  (if jeq targetQty (Num 2000) \<and> jeq nQty0 (Num 3000) then
                     (if 4000 \<in> set QUANTITY_OPTIONS then Num 4000 else nQty0)
                   else nQty0)
            in case findBestPriceForQty items w_mm h_mm nQty of
                 Some nPrice \<Rightarrow> Some \<lparr>qty = nQty, qty_price = nPrice\<rparr>
               | None \<Rightarrow> None)
         else None)"

subsection \<open>One group, all groups, the order of the results\<close>

definition groupResult ::
  "jsstring \<Rightarrow> jsnum \<Rightarrow> jsnum \<Rightarrow> jsnum \<Rightarrow> jsstring \<times> PriceItem list \<Rightarrow> CalculationResult option" where
  "groupResult category w_mm h_mm targetQty g =
     (let name = fst g; items = snd g
      in case bestCandidate items w_mm h_mm targetQty of
           None \<Rightarrow> None
         | Some best \<Rightarrow>
             (let calcResult = fst best; matchedItem = snd best
              in Some \<lparr>paperName = name,
                       res_strategy = strategy calcResult,
                       matchItem = matchedItem,
                       calculatedPrice = price calcResult,
                       isExact = (\<not> needsCut calcResult),
                       res_needsCut = needsCut calcResult,
                       res_details = details calcResult,
                       res_baseDims = baseDims calcResult,
                       prevQty = prevQtyFor items w_mm h_mm targetQty,
                       nextQty = nextQtyFor items w_mm h_mm targetQty,
                       sizeSuggestion =
                         sizeSuggestionFor category items w_mm h_mm targetQty calcResult\<rparr>))"

text \<open>\<open>s.includes(pat)\<close>.\<close>

fun includes_str :: "jsstring \<Rightarrow> jsstring \<Rightarrow> bool" where
  "includes_str [] pat = (pat = [])"
| "includes_str (c # cs) pat = (take (length pat) (c # cs) = pat \<or> includes_str cs pat)"

definition isPrio :: "CalculationResult \<Rightarrow> bool" where
  "isPrio a = (kategori (matchItem a) = Brosur \<and> includes_str (paperName a) (str ''115''))"

text \<open>The comparator given to \<open>sort\<close>.\<close>

definition compareResults :: "CalculationResult \<Rightarrow> CalculationResult \<Rightarrow> jsnum" where
  "compareResults a b =
     (if isPrio a \<and> \<not> isPrio b then Num (- 1)
      else if \<not> isPrio a \<and> isPrio b then Num 1
      else jsub (calculatedPrice a) (calculatedPrice b))"

text \<open>
  ECMAScript fixes the outcome of \<open>Array.prototype.sort\<close> only when the comparator is
  a consistent comparison function for the elements of the array: its result is never
  \<open>NaN\<close>; \<open>a\<close> is before, equal to or after \<open>b\<close> as the result is negative,
  zero or positive; equality is reflexive, symmetric and transitive, and before and
  after are transitive. The sort itself reads a result of \<open>NaN\<close> as 0.
\<close>

definition beforeCF :: "CalculationResult \<Rightarrow> CalculationResult \<Rightarrow> bool" where
  "beforeCF a b = jlt (compareResults a b) (Num 0)"

definition afterCF :: "CalculationResult \<Rightarrow> CalculationResult \<Rightarrow> bool" where
  "afterCF a b = jlt (Num 0) (compareResults a b)"

definition equalCF :: "CalculationResult \<Rightarrow> CalculationResult \<Rightarrow> bool" where
  "equalCF a b = (\<not> beforeCF a b \<and> \<not> afterCF a b)"

definition consistentOn :: "CalculationResult list \<Rightarrow> bool" where
  "consistentOn rs =
     (\<forall>a \<in> set rs. \<forall>b \<in> set rs. \<forall>c \<in> set rs.
        compareResults a b \<noteq> NaN \<and>
        equalCF a a \<and>
        (equalCF a b \<longrightarrow> equalCF b a) \<and>
        (equalCF a b \<and> equalCF b c \<longrightarrow> equalCF a c) \<and>
        (beforeCF a b \<and> beforeCF b c \<longrightarrow> beforeCF a c) \<and>
        (afterCF a b \<and> afterCF b c \<longrightarrow> afterCF a c))"

text \<open>
  For a consistent comparator the outcome is the one stable sorted arrangement; the
  model computes it by insertion.
\<close>

fun insertResult :: "CalculationResult \<Rightarrow> CalculationResult list \<Rightarrow> CalculationResult list" where
  "insertResult a [] = [a]"
| "insertResult a (b # bs) =
     (if afterCF a b then b # insertResult a bs else a # b # bs)"

definition stableSort :: "CalculationResult list \<Rightarrow> CalculationResult list" where
  "stableSort rs = foldr insertResult rs []"

text \<open>
  For a comparator that is not consistent, as with a price that is \<open>NaN\<close>, the order
  is implementation-defined: the elements stay the same,
  their arrangement is the engine's. The engine is a parameter of the model, a function
  that gives for the array the positions in the order it leaves them; a value that is
  no arrangement of the positions stands for leaving the array as it is.
\<close>

definition permuted :: "nat list \<Rightarrow> 'a list \<Rightarrow> 'a list" where
  "permuted p xs = (if mset p = mset [0..<length xs] then map (\<lambda>i. xs ! i) p else xs)"

definition sortResults ::
  "(CalculationResult list \<Rightarrow> nat list) \<Rightarrow> CalculationResult list \<Rightarrow> CalculationResult list" where
  "sortResults engine rs =
     (if consistentOn rs then stableSort rs else permuted (engine rs) rs)"

subsection \<open>The handler\<close>

text \<open>The loop over \<open>Object.entries(groups)\<close>: the results in the order they are pushed.\<close>

definition calculatedResultsFor ::
  "jsstring \<Rightarrow> jsnum \<Rightarrow> jsnum \<Rightarrow> jsnum \<Rightarrow> (jsstring \<times> PriceItem list) list \<Rightarrow>
   CalculationResult list" where
  "calculatedResultsFor category w_mm h_mm targetQty groups =
     List.map_filter (groupResult category w_mm h_mm targetQty) (objectEntries groups)"

text \<open>
  \<open>handleCalculate\<close> reads the four inputs and the catalog and sets \<open>results\<close> and
  \<open>error\<close>; the model returns the two, or the exception that leaves the handler.
  \<open>engine\<close> is the sort of the JavaScript engine that runs the handler.
\<close>

definition handleCalculate ::
  "(CalculationResult list \<Rightarrow> nat list) \<Rightarrow>
   PriceItem list \<Rightarrow> jsstring \<Rightarrow> jsstring \<Rightarrow> jsstring \<Rightarrow> jsstring \<Rightarrow> exn + CalcState" where
  "handleCalculate engine data width height category quantity =
     (let w_mm = parseFloat (replaceFirst [44] [46] width);
          h_mm = parseFloat (replaceFirst [44] [46] height);
          targetQty = parseInt quantity
      in if \<not> truthy w_mm \<or> \<not> truthy h_mm \<or> \<not> truthy targetQty then
           Inr \<lparr>results = [], error = Some InvalidInput\<rparr>
         else
           (let categoryItems = filter (\<lambda>i. kategori i = category) data
            in case groupItems category categoryItems [] of
                 Inl e \<Rightarrow> Inl e
               | Inr groups \<Rightarrow>
                   (let calculatedResults =
                          calculatedResultsFor category w_mm h_mm targetQty groups
                    in if calculatedResults = [] then
                         Inr \<lparr>results = [], error = Some NoResults\<rparr>
                       else Inr \<lparr>results = sortResults engine calculatedResults, error = None\<rparr>)))"

declare layoutsFrom.simps [simp del]

section \<open>Example catalog entries\<close>

text \<open>Entries used to run the functions on concrete input.\<close>

definition exampleCard :: PriceItem where
  "exampleCard = \<lparr>kategori = Kartvizit, ebat = str ''8.6x5.4'', kod = str ''K1'',
     aciklama = str ''350 gr Mat - Cift Yon'', miktar = str ''1.000 Adet'', fiyat = str ''550 TL''\<rparr>"

definition exampleMagnet :: PriceItem where
  "exampleMagnet = \<lparr>kategori = Magnet, ebat = str ''Ozel'', kod = MGN,
     aciklama = str ''Magnet'', miktar = str ''1000'', fiyat = str ''0''\<rparr>"

definition exampleCard2000 :: PriceItem where
  "exampleCard2000 = \<lparr>kategori = Kartvizit, ebat = str ''8.6x5.4'', kod = str ''K2'',
     aciklama = str ''350 gr Mat - Cift Yon'', miktar = str ''2.000 Adet'', fiyat = str ''900 TL''\<rparr>"

definition exampleBro90 :: PriceItem where
  "exampleBro90 = \<lparr>kategori = Brosur, ebat = str ''10x20'', kod = str ''B90'',
     aciklama = str ''90 gr Kuse - Tek Yon'', miktar = str ''1000'', fiyat = str ''700''\<rparr>"

definition exampleBro115 :: PriceItem where
  "exampleBro115 = \<lparr>kategori = Brosur, ebat = str ''10x20'', kod = str ''B115'',
     aciklama = str ''115 gr Kuse - Tek Yon'', miktar = str ''1000'', fiyat = str ''900''\<rparr>"

definition exampleBadSize :: PriceItem where
  "exampleBadSize = \<lparr>kategori = Brosur, ebat = str ''.x5'', kod = str ''B1'',
     aciklama = str ''115 gr Kuse - Tek Yon'', miktar = str ''1000'', fiyat = str ''100''\<rparr>"

definition exampleBadSize100 :: PriceItem where
  "exampleBadSize100 = \<lparr>kategori = Brosur, ebat = str ''.x5'', kod = str ''B100'',
     aciklama = str ''100 gr Kuse - Tek Yon'', miktar = str ''1000'', fiyat = str ''100''\<rparr>"

definition exampleBro80 :: PriceItem where
  "exampleBro80 = \<lparr>kategori = Brosur, ebat = str ''10x20'', kod = str ''B80'',
     aciklama = str ''80 gr Kuse - Tek Yon'', miktar = str ''1000'', fiyat = str ''500''\<rparr>"

text \<open>An engine that leaves an array with an inconsistent comparator as it is.\<close>

definition keepOrder :: "CalculationResult list \<Rightarrow> nat list" where
  "keepOrder rs = [0..<length rs]"

text \<open>What the handler returns on these entries, as the lemmas \<open>runA\<close> to \<open>runG\<close> find.\<close>

definition suggestionA :: SizeSuggestion where
  "suggestionA = \<lparr>sug_w_mm = Num 86, sug_h_mm = Num 54, sug_price = Num 1100,
     savingAmount = Num 550, savingPercent = Num 33, isSamePrice = False, wasteAmt = [Num 4]\<rparr>"

definition resultA :: CalculationResult where
  "resultA = \<lparr>paperName = str ''350 gr Mat'', res_strategy = Multiplier, matchItem = exampleCard,
     calculatedPrice = Num 1650, isExact = False, res_needsCut = True,
     res_details = MultiplierDetails (Num 3) (Num 2), res_baseDims = Some (Num 86, Num 54),
     prevQty = Some \<lparr>qty = Num 1000, qty_price = Num 1100\<rparr>,
     nextQty = Some \<lparr>qty = Num 4000, qty_price = Num 2750\<rparr>,
     sizeSuggestion = Some suggestionA\<rparr>"

definition resultB :: CalculationResult where
  "resultB = \<lparr>paperName = str ''350 gr Mat'', res_strategy = Multiplier, matchItem = exampleCard,
     calculatedPrice = Num 1650, isExact = False, res_needsCut = True,
     res_details = MultiplierDetails (Num 3) (Num (3 / 2)), res_baseDims = Some (Num 86, Num 54),
     prevQty = None,
     nextQty = Some \<lparr>qty = Num 1000, qty_price = Num 1100\<rparr>,
     sizeSuggestion = Some suggestionA\<rparr>"

definition result90 :: CalculationResult where
  "result90 = \<lparr>paperName = str ''90 gr Kuse'', res_strategy = Multiplier, matchItem = exampleBro90,
     calculatedPrice = Num 700, isExact = True, res_needsCut = False,
     res_details = MultiplierDetails (Num 1) (Num 1), res_baseDims = Some (Num 100, Num 200),
     prevQty = None,
     nextQty = Some \<lparr>qty = Num 2000, qty_price = Num 1400\<rparr>,
     sizeSuggestion = None\<rparr>"

definition result115 :: CalculationResult where
  "result115 = \<lparr>paperName = str ''115 gr Kuse'', res_strategy = Multiplier, matchItem = exampleBro115,
     calculatedPrice = Num 900, isExact = True, res_needsCut = False,
     res_details = MultiplierDetails (Num 1) (Num 1), res_baseDims = Some (Num 100, Num 200),
     prevQty = None,
     nextQty = Some \<lparr>qty = Num 2000, qty_price = Num 1800\<rparr>,
     sizeSuggestion = None\<rparr>"

definition resultBad :: CalculationResult where
  "resultBad = \<lparr>paperName = str ''115 gr Kuse'', res_strategy = Multiplier, matchItem = exampleBadSize,
     calculatedPrice = NaN, isExact = False, res_needsCut = True,
     res_details = MultiplierDetails NaN (Num 1), res_baseDims = Some (NaN, Num 50),
     prevQty = None, nextQty = None, sizeSuggestion = None\<rparr>"

definition resultBad100 :: CalculationResult where
  "resultBad100 = \<lparr>paperName = str ''100 gr Kuse'', res_strategy = Multiplier,
     matchItem = exampleBadSize100,
     calculatedPrice = NaN, isExact = False, res_needsCut = True,
     res_details = MultiplierDetails NaN (Num 1), res_baseDims = Some (NaN, Num 50),
     prevQty = None, nextQty = None, sizeSuggestion = None\<rparr>"

definition result80 :: CalculationResult where
  "result80 = \<lparr>paperName = str ''80 gr Kuse'', res_strategy = Multiplier, matchItem = exampleBro80,
     calculatedPrice = Num 500, isExact = True, res_needsCut = False,
     res_details = MultiplierDetails (Num 1) (Num 1), res_baseDims = Some (Num 100, Num 200),
     prevQty = None,
     nextQty = Some \<lparr>qty = Num 2000, qty_price = Num 1000\<rparr>,
     sizeSuggestion = None\<rparr>"

definition resultMagnet :: CalculationResult where
  "resultMagnet = \<lparr>paperName = Ozel_Ebat_Magnet, res_strategy = Formula, matchItem = exampleMagnet,
     calculatedPrice = Num 6300, isExact = False, res_needsCut = True,
     res_details = SizeDetails (Num 100) (Num 150), res_baseDims = None,
     prevQty = Some \<lparr>qty = Num 1000, qty_price = Num 3150\<rparr>,
     nextQty = Some \<lparr>qty = Num 4000, qty_price = Num 12600\<rparr>,
     sizeSuggestion = None\<rparr>"

definition resultNeg :: CalculationResult where
  "resultNeg = \<lparr>paperName = Ozel_Ebat_Magnet, res_strategy = Formula, matchItem = exampleMagnet,
     calculatedPrice = Num (- 3150), isExact = False, res_needsCut = True,
     res_details = SizeDetails (Num (- 100)) (Num 150), res_baseDims = None,
     prevQty = None, nextQty = Some \<lparr>qty = Num 2000, qty_price = Num (- 6300)\<rparr>,
     sizeSuggestion = None\<rparr>"

section \<open>The order of the ranking, the invariant of the size search\<close>

text \<open>
  The order the ranking is meant to produce, in the words of its description: a
  prioritized result is never after one that is not, and among results of the same
  priority the price does not decrease.
\<close>

definition precedes :: "CalculationResult \<Rightarrow> CalculationResult \<Rightarrow> bool" where
  "precedes a b =
     ((isPrio b \<longrightarrow> isPrio a) \<and> (isPrio a = isPrio b \<longrightarrow> jle (calculatedPrice a) (calculatedPrice b)))"

text \<open>
  What holds of every suggestion the size search keeps, given the entries \<open>S\<close> of the
  group, the current price and whether the current result needs a cut.
\<close>

definition acceptable ::
  "PriceItem set \<Rightarrow> jsnum \<Rightarrow> jsnum \<Rightarrow> bool \<Rightarrow> SizeSuggestion \<Rightarrow> bool" where
  "acceptable S targetQty currentPrice calcNeedsCut s =
     ((jlt (sug_price s) currentPrice \<or>
       (jeq (sug_price s) currentPrice \<and> isSamePrice s \<and> calcNeedsCut \<and>
        (\<exists>item \<in> S. \<exists>res. calculatePriceForItem item (sug_w_mm s) (sug_h_mm s) targetQty = Some res \<and>
            price res = sug_price s \<and> \<not> needsCut res)))
      \<and> (\<not> jlt (sug_price s) currentPrice \<longrightarrow> savingPercent s = Num 0))"

section \<open>Facts about the rounding\<close>

text \<open>
  \<open>exponentOf\<close> finds the binade of a positive number, and \<open>roundToDouble\<close> moves a
  number by at most half a unit in the last of its 53 bits.
\<close>

lemma ilog2_bounds:
  "1 \<le> n \<Longrightarrow> 2 ^ ilog2 n \<le> n \<and> n < 2 * 2 ^ ilog2 n"
proof (induction n rule: ilog2.induct)
  case (1 n)
  show ?case
  proof (cases "n < 2")
    case True
    then have "ilog2 n = 0" by (simp add: ilog2.simps [of n])
    with True "1.prems" show ?thesis by simp
  next
    case False
    then have h: "1 \<le> n div 2" by simp
    from "1.IH" [OF False h]
    have ih: "2 ^ ilog2 (n div 2) \<le> n div 2" "n div 2 < 2 * 2 ^ ilog2 (n div 2)"
      by simp_all
    have e: "ilog2 n = Suc (ilog2 (n div 2))"
      using False by (simp add: ilog2.simps [of n])
    from ih show ?thesis
      unfolding e by simp linarith
  qed
qed

lemma pow2_powi: "pow2 e = 2 powi e"
  by (simp add: pow2_def power_int_def power_inverse inverse_eq_divide power_one_over)

lemma pow2_pos: "0 < pow2 e"
  by (simp add: pow2_powi)

lemma pow2_add: "pow2 (d + e) = pow2 d * pow2 e"
  by (simp add: pow2_powi power_int_add)

lemma pow2_nat: "pow2 (int k) = 2 ^ k" "pow2 (- int k) = 1 / 2 ^ k"
  by (simp_all add: pow2_def)

lemma exponentOf_bounds:
  assumes "0 < a"
  shows "pow2 (exponentOf a) \<le> a \<and> a < pow2 (exponentOf a + 1)"
proof (cases "1 \<le> a")
  case True
  define n where "n = nat \<lfloor>a\<rfloor>"
  have fl1: "1 \<le> \<lfloor>a\<rfloor>" using True by simp
  then have "nat 1 \<le> nat \<lfloor>a\<rfloor>" by (rule nat_mono)
  then have n1: "1 \<le> n" by (simp add: n_def)
  have rn: "real n = of_int \<lfloor>a\<rfloor>" using fl1 by (simp add: n_def)
  have na: "real n \<le> a" "a < real n + 1"
    unfolding rn by linarith+
  from ilog2_bounds [OF n1] have b: "2 ^ ilog2 n \<le> n" "n + 1 \<le> 2 * 2 ^ ilog2 n"
    by simp_all
  from b(1) have "real (2 ^ ilog2 n) \<le> real n" by (rule of_nat_mono)
  then have lo: "(2::real) ^ ilog2 n \<le> real n" by simp
  from b(2) have "real (n + 1) \<le> real (2 * 2 ^ ilog2 n)" by (rule of_nat_mono)
  then have hi: "real n + 1 \<le> 2 * 2 ^ ilog2 n" by simp
  have e: "exponentOf a = int (ilog2 n)"
    using True by (simp add: exponentOf_def n_def)
  have p: "pow2 (int (ilog2 n)) = 2 ^ ilog2 n" "pow2 (int (ilog2 n) + 1) = 2 * 2 ^ ilog2 n"
    by (simp_all add: pow2_def nat_add_distrib)
  show ?thesis
    unfolding e p using na lo hi by linarith
next
  case False
  define m where "m = nat \<lceil>1 / a\<rceil>"
  have y: "1 < 1 / a" using False assms by simp
  then have c2: "2 \<le> \<lceil>1 / a\<rceil>" by linarith
  then have "nat 2 \<le> nat \<lceil>1 / a\<rceil>" by (rule nat_mono)
  then have m2: "2 \<le> m" by (simp add: m_def)
  have rm: "real m = of_int \<lceil>1 / a\<rceil>" using c2 by (simp add: m_def)
  have ma: "1 / a \<le> real m" "real m - 1 < 1 / a"
    unfolding rm by linarith+
  define c where "c = ilog2 (m - 1)"
  have "1 \<le> m - 1" using m2 by simp
  from ilog2_bounds [OF this] have b0: "2 ^ c \<le> m - 1" "m - 1 < 2 * 2 ^ c"
    unfolding c_def by simp_all
  from b0(2) m2 have "m \<le> 2 * 2 ^ c" by linarith
  with b0(1) have b: "2 ^ c \<le> m - 1" "m \<le> 2 * 2 ^ c" by simp_all
  from b(1) have "real (2 ^ c) \<le> real (m - 1)" by (rule of_nat_mono)
  then have lo: "(2::real) ^ c \<le> real m - 1" using m2 by (simp add: of_nat_diff)
  from b(2) have "real m \<le> real (2 * 2 ^ c)" by (rule of_nat_mono)
  then have hi: "real m \<le> 2 * 2 ^ c" by simp
  have m1: "\<not> m \<le> 1" using m2 by simp
  have e: "exponentOf a = - int (Suc c)"
    using False m1 by (simp add: exponentOf_def clog2_def m_def [symmetric] c_def)
  have "1 / a \<le> 2 * 2 ^ c" using ma(1) hi by linarith
  then have "1 \<le> a * (2 * 2 ^ c)" using assms by (simp add: field_simps)
  then have l: "1 / (2 * 2 ^ c) \<le> a" by (simp add: field_simps)
  have "(2::real) ^ c < 1 / a" using ma(2) lo by linarith
  then have "a * 2 ^ c < 1" using assms by (simp add: field_simps)
  then have u: "a < 1 / 2 ^ c" by (simp add: field_simps)
  have p1: "pow2 (- int (Suc c)) = 1 / (2 * 2 ^ c)"
    using pow2_nat(2) [of "Suc c"] by simp
  have p2: "pow2 (- int (Suc c) + 1) = 1 / 2 ^ c"
    unfolding pow2_add p1 by (simp add: pow2_def)
  show ?thesis
    unfolding e p1 p2 using l u by simp
qed

lemma roundEven_near: "\<bar>real_of_int (roundEven y) - y\<bar> \<le> 1 / 2"
  unfolding roundEven_def Let_def by (auto; linarith)

lemma roundToDouble_error:
  "\<bar>roundToDouble x - x\<bar> \<le> pow2 (exponentOf \<bar>x\<bar> - 53)"
  "\<bar>roundToDouble x - x\<bar> \<le> \<bar>x\<bar> / 2 ^ 53"
proof -
  have both: "\<bar>roundToDouble x - x\<bar> \<le> pow2 (exponentOf \<bar>x\<bar> - 53) \<and>
     \<bar>roundToDouble x - x\<bar> \<le> \<bar>x\<bar> / 2 ^ 53"
  proof (cases "x = 0")
    case True
    then show ?thesis using pow2_pos [of "exponentOf 0 - 53"] by (simp add: roundToDouble_def)
  next
    case False
    define a where "a = \<bar>x\<bar>"
    define e where "e = exponentOf a"
    define u where "u = pow2 (e - 52)"
    define m where "m = roundEven (a / u)"
    have a0: "0 < a" using False by (simp add: a_def)
    have u0: "0 < u" by (simp add: u_def pow2_pos)
    have r: "roundToDouble x = sgn x * (of_int m * u)"
      using False by (simp add: roundToDouble_def Let_def a_def e_def u_def m_def)
    have x: "x = sgn x * a" by (simp add: a_def sgn_mult_abs)
    have "roundToDouble x - x = sgn x * (of_int m * u - a)"
      by (subst (2) x) (simp add: r algebra_simps)
    then have "\<bar>roundToDouble x - x\<bar> = \<bar>of_int m * u - a\<bar>"
      using False by (simp add: abs_mult abs_sgn_eq)
    also have "of_int m * u - a = (of_int m - a / u) * u"
      using u0 by (simp add: field_simps)
    also have "\<bar>(of_int m - a / u) * u\<bar> = \<bar>of_int m - a / u\<bar> * u"
      using u0 by (simp add: abs_mult)
    also have "\<dots> \<le> 1 / 2 * u"
      using roundEven_near [of "a / u"] u0 unfolding m_def by (intro mult_right_mono) simp_all
    finally have d: "\<bar>roundToDouble x - x\<bar> \<le> u / 2" by simp
    have h: "u / 2 = pow2 (e - 53)"
      using pow2_add [of "e - 53" 1] by (simp add: u_def pow2_def)
    have "pow2 e = pow2 (e - 53) * 2 ^ 53"
      using pow2_add [of "e - 53" 53] by (simp add: pow2_def)
    moreover have "pow2 e \<le> a" using exponentOf_bounds [OF a0] by (simp add: e_def)
    ultimately have "pow2 (e - 53) \<le> a / 2 ^ 53" by (simp add: field_simps)
    with d h show ?thesis by (simp add: a_def e_def)
  qed
  from both show "\<bar>roundToDouble x - x\<bar> \<le> pow2 (exponentOf \<bar>x\<bar> - 53)" by simp
  from both show "\<bar>roundToDouble x - x\<bar> \<le> \<bar>x\<bar> / 2 ^ 53" by simp
qed

lemma roundEven_floor: "\<lfloor>y\<rfloor> \<le> roundEven y \<and> roundEven y \<le> \<lfloor>y\<rfloor> + 1"
  by (simp add: roundEven_def Let_def)

text \<open>A double has a significand of 53 bits.\<close>

lemma roundToDouble_significand:
  assumes "x \<noteq> 0"
  shows "\<exists>m::int. roundToDouble x = sgn x * (of_int m * pow2 (exponentOf \<bar>x\<bar> - 52)) \<and>
           2 ^ 52 \<le> m \<and> m \<le> 2 ^ 53"
proof -
  define a where "a = \<bar>x\<bar>"
  define e where "e = exponentOf a"
  define u where "u = pow2 (e - 52)"
  define y where "y = a / u"
  have a0: "0 < a" using assms by (simp add: a_def)
  have u0: "0 < u" by (simp add: u_def pow2_pos)
  have c: "pow2 52 = 2 ^ 52" "pow2 53 = 2 ^ 53"
    by (simp_all add: pow2_def)
  have "pow2 (e - 52 + 52) = u * 2 ^ 52"
    unfolding pow2_add c u_def ..
  then have lo: "pow2 e = u * 2 ^ 52" by simp
  have "pow2 (e - 52 + 53) = u * 2 ^ 53"
    unfolding pow2_add c u_def ..
  moreover have "e - 52 + 53 = e + 1" by simp
  ultimately have hi: "pow2 (e + 1) = u * 2 ^ 53" by simp
  from exponentOf_bounds [OF a0] have "u * 2 ^ 52 \<le> a" "a < u * 2 ^ 53"
    unfolding e_def [symmetric] lo hi by simp_all
  then have y: "2 ^ 52 \<le> y" "y < 2 ^ 53"
    using u0 by (simp_all add: y_def field_simps)
  have "real_of_int (2 ^ 52) \<le> y" using y(1) by simp
  then have f1: "2 ^ 52 \<le> \<lfloor>y\<rfloor>" by (simp only: le_floor_iff)
  have "y < real_of_int (2 ^ 53)" using y(2) by simp
  then have f2: "\<lfloor>y\<rfloor> < 2 ^ 53" by (simp only: floor_less_iff)
  from roundEven_floor [of y] f1 f2 have m: "2 ^ 52 \<le> roundEven y" "roundEven y \<le> 2 ^ 53"
    by linarith+
  have "roundToDouble x = sgn x * (of_int (roundEven y) * u)"
    using assms by (simp add: roundToDouble_def Let_def a_def e_def u_def y_def)
  with m show ?thesis
    unfolding u_def e_def a_def by blast
qed

text \<open>
  The three roundings in the fit test of a side \<open>u\<close> on a base \<open>b\<close>: the computed
  product \<open>p\<close> is the distance of \<open>u\<close> from \<open>n\<close> times \<open>b\<close> up to
  \<open>(2 b + \<bar>u\<bar>) / 2 ^ 53\<close>, and up to \<open>2 \<bar>u\<bar> / 2 ^ 53\<close> no multiple of
  \<open>b\<close> is nearer to \<open>u\<close> than the one the test picks.
\<close>

lemma fit_band:
  fixes u b :: real
  assumes b: "0 < b"
  defines "eps \<equiv> 1 / 2 ^ 53"
  defines "r \<equiv> roundToDouble (u / b)"
  defines "n \<equiv> \<lfloor>r + 1 / 2\<rfloor>"
  defines "d \<equiv> roundToDouble (r - of_int n)"
  defines "p \<equiv> roundToDouble (\<bar>d\<bar> * b)"
  shows "\<bar>p - \<bar>u - of_int n * b\<bar>\<bar> \<le> (2 * b + \<bar>u\<bar>) * eps"
    and "\<bar>u - of_int n * b\<bar> \<le> \<bar>u - of_int k * b\<bar> + 2 * \<bar>u\<bar> * eps"
proof -
  define q where "q = u / b"
  have qb: "\<bar>q\<bar> * b = \<bar>u\<bar>"
    using b by (simp add: q_def abs_mult)
  have dist: "\<bar>u - of_int m * b\<bar> = \<bar>q - of_int m\<bar> * b" for m :: int
  proof -
    have "u - of_int m * b = (q - of_int m) * b"
      using b by (simp add: q_def field_simps)
    then show ?thesis using b by (simp add: abs_mult)
  qed
  have eps0: "0 \<le> eps" "eps \<le> 1" by (simp_all add: eps_def)
  have e1: "\<bar>r - q\<bar> \<le> \<bar>q\<bar> * eps"
    using roundToDouble_error(2) [of q] by (simp add: r_def q_def eps_def)
  have near: "\<bar>r - of_int n\<bar> \<le> 1 / 2"
    unfolding n_def by linarith
  have nearest: "\<bar>r - of_int n\<bar> \<le> \<bar>r - of_int m\<bar>" for m :: int
    using round_diff_minimal [of r m] by (simp add: round_def n_def)
  have "\<bar>d - (r - of_int n)\<bar> \<le> \<bar>r - of_int n\<bar> * eps"
    using roundToDouble_error(2) [of "r - of_int n"] by (simp add: d_def eps_def)
  also have "\<dots> \<le> 1 / 2 * eps"
    using near eps0 by (intro mult_right_mono) simp_all
  finally have e2: "\<bar>d - (r - of_int n)\<bar> \<le> eps / 2" by simp
  have d1: "\<bar>d\<bar> \<le> 1"
    using e2 near eps0 by linarith
  have "\<bar>p - \<bar>d\<bar> * b\<bar> \<le> (\<bar>d\<bar> * b) * eps"
    using roundToDouble_error(2) [of "\<bar>d\<bar> * b"] b by (simp add: p_def eps_def abs_mult)
  also have "\<dots> \<le> (1 * b) * eps"
    using d1 b eps0 by (intro mult_right_mono) simp_all
  finally have e3: "\<bar>p - \<bar>d\<bar> * b\<bar> \<le> b * eps" by simp
  have "\<bar>\<bar>d\<bar> - \<bar>q - of_int n\<bar>\<bar> \<le> \<bar>d - (q - of_int n)\<bar>"
    by (rule abs_triangle_ineq3)
  also have "\<dots> \<le> eps / 2 + \<bar>q\<bar> * eps"
    using e2 e1 by linarith
  finally have dd: "\<bar>\<bar>d\<bar> - \<bar>q - of_int n\<bar>\<bar> \<le> eps / 2 + \<bar>q\<bar> * eps" .
  have "\<bar>\<bar>d\<bar> * b - \<bar>q - of_int n\<bar> * b\<bar> = \<bar>\<bar>d\<bar> - \<bar>q - of_int n\<bar>\<bar> * b"
    using b by (simp add: left_diff_distrib [symmetric] abs_mult)
  also have "\<dots> \<le> (eps / 2 + \<bar>q\<bar> * eps) * b"
    using dd b by (intro mult_right_mono) simp_all
  also have "\<dots> = b * eps / 2 + \<bar>u\<bar> * eps"
    using qb by (simp add: algebra_simps)
  finally have e4: "\<bar>\<bar>d\<bar> * b - \<bar>q - of_int n\<bar> * b\<bar> \<le> b * eps / 2 + \<bar>u\<bar> * eps" .
  have be: "0 \<le> b * eps" using b eps0 by simp
  from e3 e4 be show "\<bar>p - \<bar>u - of_int n * b\<bar>\<bar> \<le> (2 * b + \<bar>u\<bar>) * eps"
    unfolding dist by (simp add: algebra_simps)
  have "\<bar>q - of_int n\<bar> \<le> \<bar>q - of_int k\<bar> + 2 * (\<bar>q\<bar> * eps)"
    using e1 nearest [of k] by linarith
  then have "\<bar>q - of_int n\<bar> * b \<le> (\<bar>q - of_int k\<bar> + 2 * (\<bar>q\<bar> * eps)) * b"
    using b by (intro mult_right_mono) simp_all
  also have "\<dots> = \<bar>q - of_int k\<bar> * b + 2 * \<bar>u\<bar> * eps"
    using qb by (simp add: algebra_simps)
  finally show "\<bar>u - of_int n * b\<bar> \<le> \<bar>u - of_int k * b\<bar> + 2 * \<bar>u\<bar> * eps"
    unfolding dist .
qed

section \<open>Facts about the parsers\<close>

text \<open>
  The loop bound of the factor search: on whole numbers from 1 on, \<open>i <= Math.sqrt(n)\<close>
  and \<open>i * i \<le> n\<close> say the same.
\<close>

lemma sqrt_bound_iff:
  assumes "1 \<le> i"
  shows "(real_of_int i \<le> sqrt (real_of_int n)) = (i * i \<le> n)"
proof -
  have i0: "0 \<le> real_of_int i" using assms by simp
  have "(real_of_int i \<le> sqrt (real_of_int n)) = (sqrt ((real_of_int i)\<^sup>2) \<le> sqrt (real_of_int n))"
    using i0 by simp
  also have "\<dots> = ((real_of_int i)\<^sup>2 \<le> real_of_int n)"
    by (rule real_sqrt_le_iff)
  also have "\<dots> = (real_of_int (i * i) \<le> real_of_int n)"
    by (simp add: power2_eq_square)
  also have "\<dots> = (i * i \<le> n)"
    by (rule of_int_le_iff)
  finally show ?thesis .
qed

lemma scale10_nonneg: "0 \<le> m \<Longrightarrow> 0 \<le> scale10 m e"
  by (simp add: scale10_def)

lemma underflow_nonneg: "0 \<le> v \<Longrightarrow> 0 \<le> underflow v"
  by (simp add: underflow_def)

lemma parseFloat_nonneg:
  assumes "45 \<notin> set s" and "parseFloat s = Num x"
  shows "0 \<le> x"
proof -
  define s1 where "s1 = dropWhile isWhiteSpace s"
  have "set s1 \<subseteq> set s"
    unfolding s1_def by (auto dest: set_dropWhileD)
  then have "45 \<notin> set s1" using assms(1) by blast
  then have neg: "(case s1 of [] \<Rightarrow> False | c # _ \<Rightarrow> c = 45) = False"
    by (cases s1) auto
  from assms(2) show ?thesis
    unfolding parseFloat_def s1_def [symmetric] Let_def neg
    by (auto split: if_splits intro!: underflow_nonneg scale10_nonneg add_nonneg_nonneg)
qed

lemma set_replaceFirst: "set (replaceFirst pat rep s) \<subseteq> set s \<union> set rep"
proof (induction s)
  case Nil
  then show ?case by (auto split: if_splits)
next
  case (Cons c cs)
  have "set (drop (length pat) (c # cs)) \<subseteq> set (c # cs)"
    by (rule set_drop_subset)
  with Cons show ?case by auto
qed

lemma parsePrice_nonneg:
  assumes "parsePrice s = Num x"
  shows "0 \<le> x"
proof -
  let ?t = "replaceFirst [44] [46] (filter (\<lambda>c. isDigit c \<or> c = 44) (filter (\<lambda>c. c \<noteq> 46) s))"
  have "set ?t \<subseteq> set (filter (\<lambda>c. isDigit c \<or> c = 44) (filter (\<lambda>c. c \<noteq> 46) s)) \<union> set [46]"
    by (rule set_replaceFirst)
  then have "45 \<notin> set ?t"
    by (auto simp: isDigit_def)
  with assms show ?thesis
    unfolding parsePrice_def by (rule parseFloat_nonneg [rotated])
qed

lemma parseSize_nonneg:
  assumes "parseSize s = Some (Num a, Num b)"
  shows "0 \<le> a \<and> 0 \<le> b"
proof -
  have nd: "45 \<notin> set (takeWhile isDigitOrDot t)" for t
    by (auto dest!: set_takeWhileD simp: isDigitOrDot_def isDigit_def)
  from assms show ?thesis
    unfolding parseSize_def Let_def
    by (auto split: list.splits if_splits intro: parseFloat_nonneg [OF nd])
qed

lemma baseSize_nonneg:
  assumes "baseSize item = (Num a, Num b)"
  shows "0 \<le> a \<and> 0 \<le> b"
  using assms unfolding baseSize_def
  by (auto split: if_splits option.splits dest: parseSize_nonneg)

lemma parseInt_digits:
  assumes "\<forall>c \<in> set s. isDigit c"
  shows "parseInt s = (if s = [] then NaN else Num (real (digitsVal s)))"
proof -
  have ws: "dropWhile isWhiteSpace s = s"
    using assms by (cases s) (auto simp: isDigit_def isWhiteSpace_def)
  have sg: "(case s of [] \<Rightarrow> [] | c # u \<Rightarrow> if c = 45 \<or> c = 43 then u else s) = s"
    using assms by (cases s) (auto simp: isDigit_def)
  have ng: "(case s of [] \<Rightarrow> False | c # _ \<Rightarrow> c = 45) = False"
    using assms by (cases s) (auto simp: isDigit_def)
  have hx: "\<not> (take 2 s = [48, 120] \<or> take 2 s = [48, 88])"
  proof
    assume "take 2 s = [48, 120] \<or> take 2 s = [48, 88]"
    then have "120 \<in> set (take 2 s) \<or> 88 \<in> set (take 2 s)" by auto
    then have "120 \<in> set s \<or> 88 \<in> set s" by (auto dest: in_set_takeD)
    with assms show False by (auto simp: isDigit_def)
  qed
  have tw: "takeWhile isDigit s = s"
    using assms by (simp add: takeWhile_eq_all_conv)
  show ?thesis
    unfolding parseInt_def Let_def ws sg ng using hx by (simp add: tw)
qed

lemma itemQtyOf_pos: "\<exists>n. itemQtyOf item = Num n \<and> 1 \<le> n"
proof -
  have "\<forall>c \<in> set (filter isDigit (miktar item)). isDigit c" by simp
  then have p: "miktarQty item = (if filter isDigit (miktar item) = [] then NaN
      else Num (real (digitsVal (filter isDigit (miktar item)))))"
    unfolding miktarQty_def by (rule parseInt_digits)
  show ?thesis
  proof (cases "truthy (miktarQty item)")
    case True
    then obtain k :: nat where "miktarQty item = Num (real k)" "k \<noteq> 0"
      using p by (auto split: if_splits)
    then show ?thesis using True by (auto simp: itemQtyOf_def)
  next
    case False
    then show ?thesis by (simp add: itemQtyOf_def)
  qed
qed

section \<open>Facts about the evaluator\<close>

lemma checkFit_NaN [simp]: "checkFit u NaN = False" "checkFit NaN b = False"
  by (cases u; simp add: checkFit_def) (cases b; simp add: checkFit_def)

lemma checkFit_Num:
  assumes "b \<noteq> 0"
  shows "checkFit (Num u) (Num b) =
    (roundToDouble (\<bar>roundToDouble (roundToDouble (u / b)
        - of_int \<lfloor>roundToDouble (u / b) + 1 / 2\<rfloor>)\<bar> * b) \<le> 1 / 2)"
  using assms by (simp add: checkFit_def TOLERANCE_def)

text \<open>
  Away from half a millimetre the fit test is the test of the distance to the nearest
  multiple: it passes when a multiple is within 0.5 mm less a margin, and when it passes
  a multiple is within 0.5 mm plus a margin. For a side of 86.5 mm on a base of 86 mm
  the margins are below \<open>5 / 10 ^ 14\<close> mm. Between the margins the rounding decides.
\<close>

lemma checkFit_band:
  assumes "0 < b"
  shows "(\<exists>k::int. \<bar>u - of_int k * b\<bar> \<le> 1 / 2 - (2 * b + 3 * \<bar>u\<bar>) / 2 ^ 53) \<Longrightarrow>
           checkFit (Num u) (Num b)"
    and "checkFit (Num u) (Num b) \<Longrightarrow>
           \<exists>k::int. \<bar>u - of_int k * b\<bar> \<le> 1 / 2 + (2 * b + \<bar>u\<bar>) / 2 ^ 53"
proof -
  define e :: real where "e = 1 / 2 ^ 53"
  define r where "r = roundToDouble (u / b)"
  define n where "n = \<lfloor>r + 1 / 2\<rfloor>"
  define p where "p = roundToDouble (\<bar>roundToDouble (r - of_int n)\<bar> * b)"
  have div: "x / 2 ^ 53 = x * e" for x :: real
    by (simp add: e_def)
  have cf: "checkFit (Num u) (Num b) = (p \<le> 1 / 2)"
    using assms by (simp add: checkFit_Num p_def n_def r_def)
  have pd: "\<bar>p - \<bar>u - of_int n * b\<bar>\<bar> \<le> (2 * b + \<bar>u\<bar>) * e"
    unfolding p_def n_def r_def e_def by (rule fit_band(1) [OF assms])
  have nk: "\<bar>u - of_int n * b\<bar> \<le> \<bar>u - of_int k * b\<bar> + 2 * \<bar>u\<bar> * e" for k :: int
    unfolding n_def r_def e_def by (rule fit_band(2) [OF assms])
  {
    assume "\<exists>k::int. \<bar>u - of_int k * b\<bar> \<le> 1 / 2 - (2 * b + 3 * \<bar>u\<bar>) / 2 ^ 53"
    then obtain k :: int where k: "\<bar>u - of_int k * b\<bar> \<le> 1 / 2 - (2 * b + 3 * \<bar>u\<bar>) * e"
      unfolding div by blast
    have "p \<le> \<bar>u - of_int n * b\<bar> + (2 * b + \<bar>u\<bar>) * e"
      using pd by linarith
    also have "\<dots> \<le> (\<bar>u - of_int k * b\<bar> + 2 * \<bar>u\<bar> * e) + (2 * b + \<bar>u\<bar>) * e"
      using nk [of k] by linarith
    also have "\<dots> = \<bar>u - of_int k * b\<bar> + (2 * b + 3 * \<bar>u\<bar>) * e"
      by (simp add: algebra_simps)
    also have "\<dots> \<le> 1 / 2"
      using k by linarith
    finally show "checkFit (Num u) (Num b)" by (simp add: cf)
  }
  {
    assume "checkFit (Num u) (Num b)"
    then have "p \<le> 1 / 2" by (simp add: cf)
    with pd have "\<bar>u - of_int n * b\<bar> \<le> 1 / 2 + (2 * b + \<bar>u\<bar>) * e" by linarith
    then show "\<exists>k::int. \<bar>u - of_int k * b\<bar> \<le> 1 / 2 + (2 * b + \<bar>u\<bar>) / 2 ^ 53"
      unfolding div by blast
  }
qed

text \<open>The unfoldings that evaluate the rounding to a double on a concrete number.\<close>

lemmas dbl = exponentOf_def pow2_def clog2_def ilog2.simps roundEven_def Let_def

lemma roundToDouble_examples:
  "roundToDouble (1 / 10) = 3602879701896397 / 2 ^ 55"
  "roundToDouble (- (7 / 3)) = - (5254199565265579 / 2 ^ 51)"
  "roundToDouble (2 ^ 53 + 1) = 2 ^ 53"
  "roundToDouble (2 ^ 53 + 3) = 2 ^ 53 + 4"
  "roundToDouble (173 / 172) = 4529783346134278 / 2 ^ 52"
  unfolding roundToDouble_def Let_def by (simp_all add: dbl)

text \<open>The fit test on the sides and bases of the examples.\<close>

lemma fits_card:
  "checkFit (Num 90) (Num 86) = False" "checkFit (Num 54) (Num 54) = True"
  "checkFit (Num 90) (Num 54) = False" "checkFit (Num 54) (Num 86) = False"
  "checkFit (Num 86) (Num 86) = True"
  by (simp_all only: checkFit_Num roundToDouble_def Let_def) (simp_all add: dbl)

lemma fits_half:
  "checkFit (Num (173 / 2)) (Num 86) = False" "checkFit (Num (173 / 2)) (Num 54) = False"
  "checkFit (Num (217 / 2)) (Num 54) = True" "checkFit (Num (109 / 2)) (Num 54) = False"
  by (simp_all only: checkFit_Num roundToDouble_def Let_def) (simp_all add: dbl)

lemma fits_thin:
  "checkFit (Num (1 / 4)) (Num 86) = True" "checkFit (Num 2322) (Num 54) = True"
  "checkFit (Num 2322) (Num 86) = True" "checkFit (Num (1 / 4)) (Num 54) = True"
  by (simp_all only: checkFit_Num roundToDouble_def Let_def) (simp_all add: dbl)

lemma fits_bro:
  "checkFit (Num 100) (Num 100) = True" "checkFit (Num 200) (Num 200) = True"
  "checkFit (Num 200) (Num 100) = True" "checkFit (Num 400) (Num 200) = True"
  "checkFit (Num 400) (Num 100) = True"
  by (simp_all only: checkFit_Num roundToDouble_def Let_def) (simp_all add: dbl)

lemmas fits = fits_card fits_half fits_thin fits_bro

lemma standardImposition_Num:
  assumes "bw \<noteq> 0" "bh \<noteq> 0"
  shows "standardImposition (Num w) (Num h) (Num bw) (Num bh) =
    (if checkFit (Num w) (Num bw) \<and> checkFit (Num h) (Num bh)
     then (True, Num (max 1 (of_int (round (w / bw))) * max 1 (of_int (round (h / bh)))))
     else if checkFit (Num w) (Num bh) \<and> checkFit (Num h) (Num bw)
     then (True, Num (max 1 (of_int (round (w / bh))) * max 1 (of_int (round (h / bw)))))
     else (False, Num 0))"
  using assms by (simp add: standardImposition_def Let_def round_def)

lemma multiplier_branch:
  assumes "kategori item \<in> set MULTIPLIER_CATEGORIES"
      and "\<not> (kategori item = Magnet \<and> kod item = MGN)"
      and "baseSize item = (BW, BH)" and "BW \<noteq> Num 0" and "BH \<noteq> Num 0"
  shows "calculatePriceForItem item w h q =
    (let qtyRatio = jdiv q (itemQtyOf item);
         bw = jmul BW (Num 10); bh = jmul BH (Num 10);
         std = standardImposition w h bw bh;
         m = (if fst std then jceil (jmul (snd std) qtyRatio) else bestMolds w h bw bh qtyRatio)
     in Some \<lparr>price = jmul (parsePrice (fiyat item)) m, strategy = Multiplier,
              needsCut = (\<not> fst std), details = MultiplierDetails m qtyRatio,
              baseDims = Some (bw, bh)\<rparr>)"
  using assms unfolding calculatePriceForItem_def Let_def by auto

text \<open>
  What the evaluator returns for an entry of a multiplier category with a determined
  base size: a standard fit exactly when the fit test passes on both sides as given or
  rotated; then the imposed multiplier is the product of the rounded ratios, each at
  least 1, of the first orientation that passes, the multiplier is the ceiling of
  imposed multiplier times quantity ratio, and the price is the parsed price times the
  multiplier.
\<close>

lemma standard_fit_outcome:
  assumes "kategori item \<in> set MULTIPLIER_CATEGORIES"
      and "\<not> (kategori item = Magnet \<and> kod item = MGN)"
      and "baseSize item = (Num BW, Num BH)" and "BW \<noteq> 0" and "BH \<noteq> 0"
      and "itemQtyOf item = Num iq"
  shows "\<exists>res. calculatePriceForItem item (Num w) (Num h) (Num q) = Some res \<and>
     (let bw = BW * 10; bh = BH * 10;
          fit1 = (checkFit (Num w) (Num bw) \<and> checkFit (Num h) (Num bh));
          fit2 = (checkFit (Num w) (Num bh) \<and> checkFit (Num h) (Num bw));
          imposed = (if fit1 then max 1 (of_int (round (w / bw))) * max 1 (of_int (round (h / bh)))
                     else max 1 (of_int (round (w / bh))) * max 1 (of_int (round (h / bw))));
          m = Num (of_int \<lceil>imposed * (q / iq)\<rceil>)
      in (\<not> needsCut res) = (fit1 \<or> fit2) \<and>
         (fit1 \<or> fit2 \<longrightarrow>
            details res = MultiplierDetails m (Num (q / iq)) \<and>
            price res = jmul (parsePrice (fiyat item)) m))"
proof -
  from assms(3) have "0 \<le> BW \<and> 0 \<le> BH" by (rule baseSize_nonneg)
  with assms(4,5) have pos: "0 < BW * 10" "0 < BH * 10" by simp_all
  obtain n where n: "itemQtyOf item = Num n" "1 \<le> n"
    using itemQtyOf_pos by blast
  with assms(6) have iq: "iq \<noteq> 0" by simp
  have ne: "Num BW \<noteq> Num 0" "Num BH \<noteq> Num 0" using assms(4,5) by simp_all
  have std: "standardImposition (Num w) (Num h) (Num (BW * 10)) (Num (BH * 10)) =
    (if checkFit (Num w) (Num (BW * 10)) \<and> checkFit (Num h) (Num (BH * 10))
     then (True, Num (max 1 (of_int (round (w / (BW * 10)))) * max 1 (of_int (round (h / (BH * 10))))))
     else if checkFit (Num w) (Num (BH * 10)) \<and> checkFit (Num h) (Num (BW * 10))
     then (True, Num (max 1 (of_int (round (w / (BH * 10)))) * max 1 (of_int (round (h / (BW * 10))))))
     else (False, Num 0))"
    using pos by (intro standardImposition_Num) simp_all
  have br: "calculatePriceForItem item (Num w) (Num h) (Num q) =
    (let std = standardImposition (Num w) (Num h) (Num (BW * 10)) (Num (BH * 10));
         m = (if fst std then jceil (jmul (snd std) (Num (q / iq)))
              else bestMolds (Num w) (Num h) (Num (BW * 10)) (Num (BH * 10)) (Num (q / iq)))
     in Some \<lparr>price = jmul (parsePrice (fiyat item)) m, strategy = Multiplier,
              needsCut = (\<not> fst std), details = MultiplierDetails m (Num (q / iq)),
              baseDims = Some (Num (BW * 10), Num (BH * 10))\<rparr>)"
    unfolding multiplier_branch [OF assms(1,2,3) ne] assms(6) using iq by (simp add: Let_def)
  show ?thesis
    unfolding br std Let_def
    by (simp del: of_int_mult of_int_max)
qed

lemma jmul_commute: "jmul a b = jmul b a"
  by (cases a; cases b) (simp_all add: mult.commute)

lemma layoutsFrom_members:
  "(r, c) \<in> set (layoutsFrom n i) \<Longrightarrow> 1 \<le> i \<Longrightarrow> 1 \<le> r \<and> 1 \<le> c \<and> r * c = n"
proof (induction n i rule: layoutsFrom.induct)
  case (1 n i)
  show ?case
  proof (cases "i * i \<le> n")
    case False
    with "1.prems" show ?thesis by (simp add: layoutsFrom.simps [of n i])
  next
    case True
    from "1.prems"(1) True
    consider "(r, c) = (i, n div i)" "n mod i = 0" | "(r, c) \<in> set (layoutsFrom n (i + 1))"
      by (subst (asm) layoutsFrom.simps) (auto split: if_splits)
    then show ?thesis
    proof cases
      case 1
      have "i \<le> i * i" using "1.prems"(2) by (simp add: mult_le_cancel_left1)
      with True have "i \<le> n" by simp
      then have "0 < n div i"
        using "1.prems"(2) by (subst pos_imp_zdiv_pos_iff) simp_all
      then have "1 \<le> n div i" by simp
      moreover have "i * (n div i) = n"
        using 1(2) by auto
      ultimately show ?thesis using 1(1) "1.prems"(2) by simp
    next
      case 2
      with "1.IH" True "1.prems"(2) show ?thesis by simp
    qed
  qed
qed

lemma layoutsFrom_first: "1 \<le> n \<Longrightarrow> layoutsFrom n 1 = (1, n) # layoutsFrom n 2"
  by (subst layoutsFrom.simps) simp

lemma layoutStep_Num:
  assumes "bw \<noteq> 0" "bh \<noteq> 0"
  shows "layoutStep (Num w) (Num h) (Num bw) (Num bh) (Num b) (Num r, Num c) =
    Num (min (min (min (min b
      (of_int \<lceil>w * c / bw\<rceil> * of_int \<lceil>h * r / bh\<rceil>))
      (of_int \<lceil>w * c / bh\<rceil> * of_int \<lceil>h * r / bw\<rceil>))
      (of_int \<lceil>w * r / bw\<rceil> * of_int \<lceil>h * c / bh\<rceil>))
      (of_int \<lceil>w * r / bh\<rceil> * of_int \<lceil>h * c / bw\<rceil>))"
  using assms by (simp add: layoutStep_def Let_def)

lemma foldl_layoutStep_le:
  assumes "bw \<noteq> 0" "bh \<noteq> 0"
  shows "\<exists>m. foldl (layoutStep (Num w) (Num h) (Num bw) (Num bh)) (Num b)
            (map (\<lambda>(r, c). (Num (of_int r), Num (of_int c))) xs) = Num m \<and> m \<le> b"
proof (induction xs arbitrary: b)
  case Nil
  show ?case by simp
next
  case (Cons x xs)
  obtain r c where x: "x = (r, c)" by (cases x)
  define b' where "b' = min (min (min (min b
      (of_int \<lceil>w * of_int c / bw\<rceil> * of_int \<lceil>h * of_int r / bh\<rceil>))
      (of_int \<lceil>w * of_int c / bh\<rceil> * of_int \<lceil>h * of_int r / bw\<rceil>))
      (of_int \<lceil>w * of_int r / bw\<rceil> * of_int \<lceil>h * of_int c / bh\<rceil>))
      (of_int \<lceil>w * of_int r / bh\<rceil> * of_int \<lceil>h * of_int c / bw\<rceil>)"
  have step: "layoutStep (Num w) (Num h) (Num bw) (Num bh) (Num b) (Num (of_int r), Num (of_int c)) = Num b'"
    unfolding b'_def by (rule layoutStep_Num [OF assms])
  from Cons.IH [of b'] obtain m where
    m: "foldl (layoutStep (Num w) (Num h) (Num bw) (Num bh)) (Num b')
            (map (\<lambda>(r, c). (Num (of_int r), Num (of_int c))) xs) = Num m" "m \<le> b'"
    by blast
  have "b' \<le> b" unfolding b'_def by simp
  with m show ?case by (simp add: x step)
qed

lemma ceiling_pos_ge1: "0 < (x::real) \<Longrightarrow> 1 \<le> real_of_int \<lceil>x\<rceil>"
proof -
  assume "0 < x"
  then have "0 < \<lceil>x\<rceil>" by simp
  then have "1 \<le> \<lceil>x\<rceil>" by simp
  then show ?thesis by simp
qed

lemma sheets_ge1:
  assumes "0 < (x::real)" "0 < y"
  shows "1 \<le> real_of_int \<lceil>x\<rceil> * real_of_int \<lceil>y\<rceil>"
proof -
  have "1 * 1 \<le> real_of_int \<lceil>x\<rceil> * real_of_int \<lceil>y\<rceil>"
    by (rule mult_mono) (use assms in \<open>simp_all add: ceiling_pos_ge1\<close>)
  then show ?thesis by simp
qed

lemma foldl_layoutStep_ge1:
  assumes "0 < w" "0 < h" "0 < bw" "0 < bh"
      and "\<forall>(r, c) \<in> set xs. 1 \<le> r \<and> 1 \<le> c" and "1 \<le> b"
  shows "\<exists>m. foldl (layoutStep (Num w) (Num h) (Num bw) (Num bh)) (Num b)
            (map (\<lambda>(r, c). (Num (of_int r), Num (of_int c))) xs) = Num m \<and> 1 \<le> m"
  using assms(5,6)
proof (induction xs arbitrary: b)
  case Nil
  then show ?case by simp
next
  case (Cons x xs)
  obtain r c where x: "x = (r, c)" by (cases x)
  with Cons.prems have rc: "1 \<le> r" "1 \<le> c" by auto
  then have rc0: "0 < real_of_int r" "0 < real_of_int c" by simp_all
  define b' where "b' = min (min (min (min b
      (of_int \<lceil>w * of_int c / bw\<rceil> * of_int \<lceil>h * of_int r / bh\<rceil>))
      (of_int \<lceil>w * of_int c / bh\<rceil> * of_int \<lceil>h * of_int r / bw\<rceil>))
      (of_int \<lceil>w * of_int r / bw\<rceil> * of_int \<lceil>h * of_int c / bh\<rceil>))
      (of_int \<lceil>w * of_int r / bh\<rceil> * of_int \<lceil>h * of_int c / bw\<rceil>)"
  have step: "layoutStep (Num w) (Num h) (Num bw) (Num bh) (Num b) (Num (of_int r), Num (of_int c)) = Num b'"
    unfolding b'_def using assms(3,4) by (intro layoutStep_Num) simp_all
  have "1 \<le> b'"
    unfolding b'_def using Cons.prems(2) assms(1-4) rc0
    by (intro min.boundedI sheets_ge1 divide_pos_pos mult_pos_pos)
  moreover have "\<forall>(r, c) \<in> set xs. 1 \<le> r \<and> 1 \<le> c" using Cons.prems(1) by simp
  ultimately obtain m where
    "foldl (layoutStep (Num w) (Num h) (Num bw) (Num bh)) (Num b')
            (map (\<lambda>(r, c). (Num (of_int r), Num (of_int c))) xs) = Num m" "1 \<le> m"
    using Cons.IH [of b'] by blast
  then show ?case by (simp add: x step)
qed

lemma MAX_VALUE_ge1: "1 \<le> MAX_VALUE"
proof -
  have "(1::real) \<le> 2 ^ 53 - 1" by simp
  moreover have "(1::real) \<le> 2 ^ 971" by (rule one_le_power) simp
  ultimately have "(1::real) * 1 \<le> (2 ^ 53 - 1) * 2 ^ 971"
    by (intro mult_mono) simp_all
  then show ?thesis by (simp add: MAX_VALUE_def)
qed

lemma layouts_ceil: "layouts (jceil (Num k)) = map (\<lambda>(r, c). (Num (of_int r), Num (of_int c))) (layoutsFrom \<lceil>k\<rceil> 1)"
  by (simp add: layouts_def)

lemma bestMolds_ge1:
  assumes "0 < w" "0 < h" "0 < bw" "0 < bh" "0 < k"
  shows "\<exists>m. bestMolds (Num w) (Num h) (Num bw) (Num bh) (Num k) = Num m \<and> 1 \<le> m"
  unfolding bestMolds_def layouts_ceil
  using assms(1-4)
proof (rule foldl_layoutStep_ge1)
  show "\<forall>(r, c) \<in> set (layoutsFrom \<lceil>k\<rceil> 1). 1 \<le> r \<and> 1 \<le> c"
    using layoutsFrom_members [of _ _ "\<lceil>k\<rceil>" 1] by auto
  show "1 \<le> MAX_VALUE" by (rule MAX_VALUE_ge1)
qed

lemma ceiling_scale_le:
  assumes "1 \<le> n"
  shows "real_of_int \<lceil>x * of_int n / b\<rceil> \<le> real_of_int \<lceil>x / b\<rceil> * of_int n"
proof -
  have "x / b \<le> of_int \<lceil>x / b\<rceil>" by (rule le_of_int_ceiling)
  then have "x / b * of_int n \<le> of_int \<lceil>x / b\<rceil> * of_int n"
    using assms by (intro mult_right_mono) simp_all
  then have "x * of_int n / b \<le> of_int (\<lceil>x / b\<rceil> * n)" by simp
  then have "\<lceil>x * of_int n / b\<rceil> \<le> \<lceil>x / b\<rceil> * n" by (simp only: ceiling_le_iff)
  then have "real_of_int \<lceil>x * of_int n / b\<rceil> \<le> real_of_int (\<lceil>x / b\<rceil> * n)"
    by (simp only: of_int_le_iff)
  then show ?thesis by simp
qed

text \<open>The unfoldings that evaluate the parsers on a concrete entry.\<close>

named_theorems ev

lemmas [ev] = parsePrice_def str_def isDigit_def parseFloat_def isWhiteSpace_def digitsVal_def
  parseExponent_def scale10_def underflow_def itemQtyOf_def miktarQty_def parseInt_def hexVal_def
  parseSize_def toLowerCase_def isDigitOrDot_def baseSize_def
  Kartvizit_def Brosur_def El_Ilani_def Etiket_def Magnet_def Kuse_200_def MGN_def
  MULTIPLIER_CATEGORIES_def

text \<open>A literal below the doubles reads as 0, one in their range as its value.\<close>

lemma parseFloat_underflow:
  "parseFloat (str ''1e-400'') = Num 0"
  "parseFloat (str ''1e-300'') = Num (1 / 10 ^ 300)"
  by (simp_all add: ev)

lemma exampleCard_facts:
  "kategori exampleCard \<in> set MULTIPLIER_CATEGORIES"
  "\<not> (kategori exampleCard = Magnet \<and> kod exampleCard = MGN)"
  "baseSize exampleCard = (Num 8.6, Num 5.4)"
  "itemQtyOf exampleCard = Num 1000"
  "parsePrice (fiyat exampleCard) = Num 550"
  by (simp_all add: exampleCard_def ev)

section \<open>Facts about the ranking\<close>

lemma mset_insertResult: "mset (insertResult a bs) = add_mset a (mset bs)"
  by (induction bs) auto

lemma mset_stableSort: "mset (stableSort rs) = mset rs"
  unfolding stableSort_def by (induction rs) (auto simp: mset_insertResult)

lemma set_stableSort: "set (stableSort rs) = set rs"
  using mset_stableSort [of rs] by (metis set_mset_mset)

lemma mset_permuted: "mset (permuted p xs) = mset xs"
proof (cases "mset p = mset [0..<length xs]")
  case False
  then show ?thesis by (simp add: permuted_def)
next
  case True
  have "mset (map (\<lambda>i. xs ! i) p) = image_mset (\<lambda>i. xs ! i) (mset p)"
    by simp
  also have "\<dots> = image_mset (\<lambda>i. xs ! i) (mset [0..<length xs])"
    by (simp only: True)
  also have "\<dots> = mset (map (\<lambda>i. xs ! i) [0..<length xs])"
    by simp
  also have "map (\<lambda>i. xs ! i) [0..<length xs] = xs"
    by (rule map_nth)
  finally show ?thesis using True by (simp add: permuted_def)
qed

text \<open>Whatever the engine does, the sorted list holds the same results.\<close>

lemma mset_sortResults: "mset (sortResults engine rs) = mset rs"
  by (simp add: sortResults_def mset_stableSort mset_permuted)

lemma set_sortResults: "set (sortResults engine rs) = set rs"
  using mset_sortResults [of engine rs] by (metis set_mset_mset)

lemma permuted_single: "permuted p [x] = [x]"
proof (cases "mset p = mset [0..<length [x]]")
  case False
  then show ?thesis by (simp add: permuted_def)
next
  case True
  then have "mset p = {#0#}" by simp
  then have "p = [0]" by (metis mset_single_iff_right)
  then show ?thesis by (simp add: permuted_def)
qed

lemma sortResults_single: "sortResults engine [r] = [r]"
  by (simp add: sortResults_def stableSort_def permuted_single)

text \<open>
  The comparator of the handler is consistent on a list exactly when no price in it is
  \<open>NaN\<close>.
\<close>

lemma consistentOn_iff: "consistentOn rs = (\<forall>r \<in> set rs. calculatedPrice r \<noteq> NaN)"
proof
  assume c: "consistentOn rs"
  show "\<forall>r \<in> set rs. calculatedPrice r \<noteq> NaN"
  proof
    fix r assume "r \<in> set rs"
    with c have "compareResults r r \<noteq> NaN"
      unfolding consistentOn_def by blast
    then show "calculatedPrice r \<noteq> NaN"
      by (cases "calculatedPrice r") (auto simp: compareResults_def)
  qed
next
  assume n: "\<forall>r \<in> set rs. calculatedPrice r \<noteq> NaN"
  have law: "compareResults a b \<noteq> NaN \<and> equalCF a a \<and>
        (equalCF a b \<longrightarrow> equalCF b a) \<and>
        (equalCF a b \<and> equalCF b c \<longrightarrow> equalCF a c) \<and>
        (beforeCF a b \<and> beforeCF b c \<longrightarrow> beforeCF a c) \<and>
        (afterCF a b \<and> afterCF b c \<longrightarrow> afterCF a c)"
    if "calculatedPrice a = Num x" "calculatedPrice b = Num y" "calculatedPrice c = Num z"
    for a b c x y z
    using that by (auto simp: compareResults_def equalCF_def beforeCF_def afterCF_def)
  show "consistentOn rs"
    unfolding consistentOn_def
  proof (intro ballI)
    fix a b c assume "a \<in> set rs" "b \<in> set rs" "c \<in> set rs"
    with n obtain x y z where
      "calculatedPrice a = Num x" "calculatedPrice b = Num y" "calculatedPrice c = Num z"
      by (cases "calculatedPrice a"; cases "calculatedPrice b"; cases "calculatedPrice c") auto
    then show "compareResults a b \<noteq> NaN \<and> equalCF a a \<and>
        (equalCF a b \<longrightarrow> equalCF b a) \<and>
        (equalCF a b \<and> equalCF b c \<longrightarrow> equalCF a c) \<and>
        (beforeCF a b \<and> beforeCF b c \<longrightarrow> beforeCF a c) \<and>
        (afterCF a b \<and> afterCF b c \<longrightarrow> afterCF a c)"
      by (rule law)
  qed
qed

lemma sortResults_numeric:
  assumes "\<forall>r \<in> set rs. calculatedPrice r \<noteq> NaN"
  shows "sortResults engine rs = stableSort rs"
  using assms by (simp add: sortResults_def consistentOn_iff)

text \<open>When the comparator puts \<open>a\<close> after \<open>b\<close>, the two differ in priority or in price.\<close>

lemma compare_pos_key:
  assumes "afterCF a b"
  shows "isPrio a \<noteq> isPrio b \<or> calculatedPrice a \<noteq> calculatedPrice b"
proof (rule ccontr)
  assume "\<not> ?thesis"
  then have "isPrio a = isPrio b" "calculatedPrice a = calculatedPrice b" by simp_all
  with assms show False
    by (cases "calculatedPrice b") (simp_all add: compareResults_def afterCF_def)
qed

lemma filter_insertResult:
  "filter (\<lambda>r. isPrio r = p \<and> calculatedPrice r = v) (insertResult a bs) =
   filter (\<lambda>r. isPrio r = p \<and> calculatedPrice r = v) (a # bs)"
proof (induction bs)
  case Nil
  show ?case by simp
next
  case (Cons b bs)
  show ?case
  proof (cases "afterCF a b")
    case False
    then show ?thesis by simp
  next
    case True
    from compare_pos_key [OF True]
    have "\<not> ((isPrio a = p \<and> calculatedPrice a = v) \<and> (isPrio b = p \<and> calculatedPrice b = v))"
      by auto
    with True Cons.IH show ?thesis by auto
  qed
qed

lemma filter_stableSort:
  "filter (\<lambda>r. isPrio r = p \<and> calculatedPrice r = v) (stableSort rs) =
   filter (\<lambda>r. isPrio r = p \<and> calculatedPrice r = v) rs"
  unfolding stableSort_def
proof (induction rs)
  case Nil
  show ?case by simp
next
  case (Cons a rs)
  have "filter (\<lambda>r. isPrio r = p \<and> calculatedPrice r = v) (foldr insertResult (a # rs) []) =
        filter (\<lambda>r. isPrio r = p \<and> calculatedPrice r = v) (a # foldr insertResult rs [])"
    by (simp add: filter_insertResult)
  with Cons.IH show ?case by simp
qed

lemma precedes_iff:
  assumes "calculatedPrice a \<noteq> NaN" "calculatedPrice b \<noteq> NaN"
  shows "precedes a b = (\<not> afterCF a b)"
proof -
  obtain x y where "calculatedPrice a = Num x" "calculatedPrice b = Num y"
    using assms by (cases "calculatedPrice a"; cases "calculatedPrice b") auto
  then show ?thesis
    by (auto simp: precedes_def compareResults_def afterCF_def)
qed

lemma precedes_total:
  assumes "calculatedPrice a \<noteq> NaN" "calculatedPrice b \<noteq> NaN"
  shows "precedes a b \<or> precedes b a"
proof -
  obtain x y where "calculatedPrice a = Num x" "calculatedPrice b = Num y"
    using assms by (cases "calculatedPrice a"; cases "calculatedPrice b") auto
  then show ?thesis
    by (auto simp: precedes_def)
qed

lemma precedes_trans:
  assumes "precedes a b" "precedes b c"
  shows "precedes a c"
proof -
  have "jle x z" if "jle x y" "jle y z" for x y z
    using that by (cases x; cases y; cases z) auto
  with assms show ?thesis
    unfolding precedes_def by blast
qed

lemma sorted_insertResult:
  assumes "calculatedPrice a \<noteq> NaN" "\<forall>b \<in> set bs. calculatedPrice b \<noteq> NaN"
      and "sorted_wrt precedes bs"
  shows "sorted_wrt precedes (insertResult a bs)"
  using assms(2,3)
proof (induction bs)
  case Nil
  show ?case by simp
next
  case (Cons b bs)
  have nb: "calculatedPrice b \<noteq> NaN" using Cons.prems(1) by simp
  show ?case
  proof (cases "afterCF a b")
    case False
    then have ab: "precedes a b" using precedes_iff [OF assms(1) nb] by simp
    have "\<forall>c \<in> set bs. precedes a c"
      using Cons.prems(2) ab by (auto intro: precedes_trans)
    with False ab Cons.prems(2) show ?thesis by simp
  next
    case True
    then have "\<not> precedes a b" using precedes_iff [OF assms(1) nb] by simp
    then have ba: "precedes b a" using precedes_total [OF assms(1) nb] by blast
    have "sorted_wrt precedes (insertResult a bs)"
      using Cons by simp
    moreover have "\<forall>c \<in> set (insertResult a bs). precedes b c"
    proof
      fix c assume "c \<in> set (insertResult a bs)"
      then have "c \<in># mset (insertResult a bs)" by simp
      then have "c = a \<or> c \<in> set bs" by (simp add: mset_insertResult)
      with ba Cons.prems(2) show "precedes b c" by auto
    qed
    ultimately show ?thesis using True by simp
  qed
qed

lemma sorted_stableSort:
  assumes "\<forall>r \<in> set rs. calculatedPrice r \<noteq> NaN"
  shows "sorted_wrt precedes (stableSort rs)"
  using assms unfolding stableSort_def
proof (induction rs)
  case Nil
  show ?case by simp
next
  case (Cons a rs)
  have "set (foldr insertResult rs []) = set rs"
    using set_stableSort [of rs] by (simp add: stableSort_def)
  with Cons show ?case
    by (simp add: sorted_insertResult)
qed

text \<open>Prioritized results come first, whatever the prices are.\<close>

lemma prio_first_insertResult:
  assumes "sorted_wrt (\<lambda>a b. isPrio b \<longrightarrow> isPrio a) bs"
  shows "sorted_wrt (\<lambda>a b. isPrio b \<longrightarrow> isPrio a) (insertResult a bs)"
  using assms
proof (induction bs)
  case Nil
  show ?case by simp
next
  case (Cons b bs)
  show ?case
  proof (cases "afterCF a b")
    case False
    then have ab: "isPrio b \<longrightarrow> isPrio a"
      by (auto simp: compareResults_def afterCF_def split: if_splits)
    have "\<forall>c \<in> set bs. isPrio c \<longrightarrow> isPrio a"
      using Cons.prems ab by auto
    with False ab Cons.prems show ?thesis by simp
  next
    case True
    then have ba: "isPrio a \<longrightarrow> isPrio b"
      by (auto simp: compareResults_def afterCF_def split: if_splits)
    have "sorted_wrt (\<lambda>a b. isPrio b \<longrightarrow> isPrio a) (insertResult a bs)"
      using Cons by simp
    moreover have "\<forall>c \<in> set (insertResult a bs). isPrio c \<longrightarrow> isPrio b"
    proof
      fix c assume "c \<in> set (insertResult a bs)"
      then have "c \<in># mset (insertResult a bs)" by simp
      then have "c = a \<or> c \<in> set bs" by (simp add: mset_insertResult)
      with ba Cons.prems show "isPrio c \<longrightarrow> isPrio b" by auto
    qed
    ultimately show ?thesis using True by simp
  qed
qed

lemma prio_first_stableSort:
  "sorted_wrt (\<lambda>a b. isPrio b \<longrightarrow> isPrio a) (stableSort rs)"
  unfolding stableSort_def
  by (induction rs) (simp_all add: prio_first_insertResult)

section \<open>Facts about the handler\<close>

lemma set_objectEntries: "set (objectEntries gs) = set gs"
  by (auto simp: objectEntries_def)

lemma addToGroup_items:
  assumes "\<forall>g \<in> set gs. set (snd g) \<subseteq> S" and "item \<in> S"
  shows "\<forall>g \<in> set (addToGroup gs k item). set (snd g) \<subseteq> S"
  using assms by (induction gs k item rule: addToGroup.induct) auto

lemma groupItems_items:
  assumes "groupItems category its gs = Inr gs'"
      and "\<forall>g \<in> set gs. set (snd g) \<subseteq> S" and "set its \<subseteq> S"
  shows "\<forall>g \<in> set gs'. set (snd g) \<subseteq> S"
  using assms
proof (induction its arbitrary: gs)
  case Nil
  then show ?case by simp
next
  case (Cons item rest)
  show ?case
  proof (cases "category = Magnet \<and> kod item \<noteq> MGN")
    case True
    with Cons.prems have "groupItems category rest gs = Inr gs'" by simp
    from Cons.IH [OF this Cons.prems(2)] Cons.prems(3) show ?thesis by simp
  next
    case False
    define k where "k = (if category = Magnet then Ozel_Ebat_Magnet
                         else getPaperTypeGroup (aciklama item) category)"
    from Cons.prems(1) False have "groupItems category rest (addToGroup gs k item) = Inr gs'"
      by (auto simp: k_def Let_def split: if_splits)
    moreover have "\<forall>g \<in> set (addToGroup gs k item). set (snd g) \<subseteq> S"
      using Cons.prems(2,3) by (intro addToGroup_items) simp_all
    ultimately show ?thesis
      using Cons.IH Cons.prems(3) by simp
  qed
qed

text \<open>Every result of the handler is the result of a group of entries of the category.\<close>

lemma handleCalculate_result:
  assumes "handleCalculate engine data width height category quantity = Inr st"
      and "r \<in> set (results st)"
  shows "truthy (parseFloat (replaceFirst [44] [46] width)) \<and>
         truthy (parseFloat (replaceFirst [44] [46] height)) \<and>
         truthy (parseInt quantity) \<and>
         (\<exists>g. set (snd g) \<subseteq> {i \<in> set data. kategori i = category} \<and>
              groupResult category (parseFloat (replaceFirst [44] [46] width))
                (parseFloat (replaceFirst [44] [46] height)) (parseInt quantity) g = Some r)"
proof -
  define w where "w = parseFloat (replaceFirst [44] [46] width)"
  define h where "h = parseFloat (replaceFirst [44] [46] height)"
  define q where "q = parseInt quantity"
  have valid: "truthy w \<and> truthy h \<and> truthy q"
    using assms unfolding handleCalculate_def w_def h_def q_def Let_def
    by (auto split: if_splits)
  then obtain groups where
    g: "groupItems category (filter (\<lambda>i. kategori i = category) data) [] = Inr groups"
    and st: "st = (if calculatedResultsFor category w h q groups = []
                   then \<lparr>results = [], error = Some NoResults\<rparr>
                   else \<lparr>results = sortResults engine (calculatedResultsFor category w h q groups), error = None\<rparr>)"
    using assms(1) unfolding handleCalculate_def w_def [symmetric] h_def [symmetric] q_def [symmetric] Let_def
    by (auto split: if_splits sum.splits)
  from st assms(2) have "r \<in> set (calculatedResultsFor category w h q groups)"
    by (auto simp: set_sortResults split: if_splits)
  then obtain g where gin: "g \<in> set groups" and gr: "groupResult category w h q g = Some r"
    by (auto simp: calculatedResultsFor_def map_filter_def set_objectEntries)
  have "\<forall>g \<in> set groups. set (snd g) \<subseteq> {i \<in> set data. kategori i = category}"
    using g by (rule groupItems_items) auto
  with gin gr valid show ?thesis
    unfolding w_def h_def q_def by blast
qed

lemma bestStep_sound:
  assumes "bestStep w h q best cand = Some b"
      and "\<forall>b. best = Some b \<longrightarrow> snd b \<in> S \<and> calculatePriceForItem (snd b) w h q = Some (fst b)"
      and "cand \<in> S"
  shows "snd b \<in> S \<and> calculatePriceForItem (snd b) w h q = Some (fst b)"
  using assms unfolding bestStep_def
  by (cases best; cases "calculatePriceForItem cand w h q") (auto split: if_splits)

lemma foldl_bestStep_sound:
  assumes "foldl (bestStep w h q) best items = Some b"
      and "\<forall>b. best = Some b \<longrightarrow> snd b \<in> S \<and> calculatePriceForItem (snd b) w h q = Some (fst b)"
      and "set items \<subseteq> S"
  shows "snd b \<in> S \<and> calculatePriceForItem (snd b) w h q = Some (fst b)"
  using assms
proof (induction items arbitrary: best)
  case Nil
  then show ?case by simp
next
  case (Cons cand items)
  have "\<forall>b. bestStep w h q best cand = Some b \<longrightarrow>
          snd b \<in> S \<and> calculatePriceForItem (snd b) w h q = Some (fst b)"
    using bestStep_sound [OF _ Cons.prems(2)] Cons.prems(3) by simp
  with Cons.IH [of "bestStep w h q best cand"] Cons.prems(1,3) show ?case by simp
qed

lemma bestCandidate_sound:
  assumes "bestCandidate items w h q = Some b"
  shows "snd b \<in> set items \<and> calculatePriceForItem (snd b) w h q = Some (fst b)"
  using assms unfolding bestCandidate_def
  by (rule foldl_bestStep_sound) simp_all

text \<open>What \<open>groupResult\<close> puts into a result.\<close>

lemma groupResult_fields:
  assumes "groupResult category w h q g = Some r"
  shows "\<exists>res. matchItem r \<in> set (snd g) \<and>
           calculatePriceForItem (matchItem r) w h q = Some res \<and>
           calculatedPrice r = price res \<and> res_needsCut r = needsCut res \<and>
           res_strategy r = strategy res \<and> res_details r = details res \<and>
           res_baseDims r = baseDims res \<and> isExact r = (\<not> needsCut res) \<and>
           paperName r = fst g \<and>
           prevQty r = prevQtyFor (snd g) w h q \<and>
           nextQty r = nextQtyFor (snd g) w h q \<and>
           sizeSuggestion r = sizeSuggestionFor category (snd g) w h q res"
proof -
  from assms obtain b where b: "bestCandidate (snd g) w h q = Some b"
    unfolding groupResult_def Let_def by (auto split: option.splits)
  from bestCandidate_sound [OF b] assms b show ?thesis
    unfolding groupResult_def Let_def by auto
qed

text \<open>For the category Magnet every group holds entries with the code MGN only.\<close>

lemma addToGroup_pred:
  assumes "\<forall>g \<in> set gs. \<forall>i \<in> set (snd g). P i" and "P item"
  shows "\<forall>g \<in> set (addToGroup gs k item). \<forall>i \<in> set (snd g). P i"
  using assms by (induction gs k item rule: addToGroup.induct) auto

lemma groupItems_magnet:
  assumes "groupItems Magnet its gs = Inr gs'"
      and "\<forall>g \<in> set gs. \<forall>i \<in> set (snd g). kod i = MGN"
  shows "\<forall>g \<in> set gs'. \<forall>i \<in> set (snd g). kod i = MGN"
  using assms
proof (induction its arbitrary: gs)
  case Nil
  then show ?case by simp
next
  case (Cons item rest)
  show ?case
  proof (cases "kod item = MGN")
    case False
    with Cons.prems have "groupItems Magnet rest gs = Inr gs'" by simp
    from Cons.IH [OF this Cons.prems(2)] show ?thesis .
  next
    case True
    with Cons.prems(1) have "groupItems Magnet rest (addToGroup gs Ozel_Ebat_Magnet item) = Inr gs'"
      by (auto simp: Let_def split: if_splits)
    moreover have "\<forall>g \<in> set (addToGroup gs Ozel_Ebat_Magnet item). \<forall>i \<in> set (snd g). kod i = MGN"
      using Cons.prems(2) True by (intro addToGroup_pred) simp_all
    ultimately show ?thesis using Cons.IH by simp
  qed
qed

lemma handleCalculate_magnet_item:
  assumes "handleCalculate engine data width height Magnet quantity = Inr st"
      and "r \<in> set (results st)"
  shows "kategori (matchItem r) = Magnet \<and> kod (matchItem r) = MGN \<and>
         (\<exists>res. calculatePriceForItem (matchItem r) (parseFloat (replaceFirst [44] [46] width))
                   (parseFloat (replaceFirst [44] [46] height)) (parseInt quantity) = Some res \<and>
                 calculatedPrice r = price res \<and> res_needsCut r = needsCut res \<and>
                 res_strategy r = strategy res)"
proof -
  define w where "w = parseFloat (replaceFirst [44] [46] width)"
  define h where "h = parseFloat (replaceFirst [44] [46] height)"
  define q where "q = parseInt quantity"
  from assms(1,2) obtain groups where
    g: "groupItems Magnet (filter (\<lambda>i. kategori i = Magnet) data) [] = Inr groups"
    and st: "r \<in> set (calculatedResultsFor Magnet w h q groups)"
    unfolding handleCalculate_def w_def [symmetric] h_def [symmetric] q_def [symmetric] Let_def
    by (auto simp: set_sortResults split: if_splits sum.splits)
  from st obtain gr where gin: "gr \<in> set groups" and gr: "groupResult Magnet w h q gr = Some r"
    by (auto simp: calculatedResultsFor_def map_filter_def set_objectEntries)
  have k: "\<forall>g \<in> set groups. \<forall>i \<in> set (snd g). kod i = MGN"
    using g by (rule groupItems_magnet) simp
  have c: "\<forall>g \<in> set groups. set (snd g) \<subseteq> {i \<in> set data. kategori i = Magnet}"
    using g by (rule groupItems_items) auto
  from groupResult_fields [OF gr] obtain res where
    res: "matchItem r \<in> set (snd gr)" "calculatePriceForItem (matchItem r) w h q = Some res"
         "calculatedPrice r = price res" "res_needsCut r = needsCut res" "res_strategy r = strategy res"
    by blast
  from res(1) gin k c have "kategori (matchItem r) = Magnet" "kod (matchItem r) = MGN" by auto
  with res show ?thesis unfolding w_def h_def q_def by blast
qed

section \<open>Facts about the suggestions\<close>

lemma evaluateSuggestion_acceptable:
  assumes "evaluateSuggestion item w_mm h_mm q cp cnc best w h = Some s"
      and "\<forall>s. best = Some s \<longrightarrow> acceptable S q cp cnc s"
      and "item \<in> S"
  shows "acceptable S q cp cnc s"
proof (cases "calculatePriceForItem item w h q")
  case None
  with assms show ?thesis by (simp add: evaluateSuggestion_def)
next
  case (Some res)
  show ?thesis
  proof (cases "s \<in> set_option best")
    case True
    with assms(2) show ?thesis by (cases best) auto
  next
    case False
    then have ne: "best \<noteq> Some s" by (cases best) auto
    from assms(1) ne Some
    have acc: "jlt (price res) cp \<or> (jeq (price res) cp \<and> cnc \<and> \<not> needsCut res)"
      and s: "sug_w_mm s = w" "sug_h_mm s = h" "sug_price s = price res"
        "isSamePrice s = (jeq (price res) cp \<and> cnc \<and> \<not> needsCut res)"
        "savingPercent s = (if jlt (price res) cp
           then jround (jmul (jdiv (jsub cp (price res)) cp) (Num 100)) else Num 0)"
      unfolding evaluateSuggestion_def Let_def
      by (auto split: if_splits)
    show ?thesis
      unfolding acceptable_def s using acc Some assms(3) by auto
  qed
qed

lemma itemToUseFor_mem:
  assumes "itemToUseFor items sStr q = Some i"
  shows "i \<in> set items"
proof -
  have f: "find P (filter Q xs) = Some x \<Longrightarrow> x \<in> set xs" for P Q xs and x :: PriceItem
    by (auto simp: find_Some_iff dest: nth_mem)
  from assms show ?thesis
    unfolding itemToUseFor_def Let_def
    by (auto split: option.splits list.splits dest: f)
       (metis filter_eq_ConsD in_set_conv_decomp)
qed

lemma sizeStep_acceptable:
  assumes "sizeStep category items w_mm h_mm q cp cnc best sStr = Some s"
      and "\<forall>s. best = Some s \<longrightarrow> acceptable (set items) q cp cnc s"
  shows "acceptable (set items) q cp cnc s"
proof (cases "itemToUseFor items sStr q")
  case None
  with assms show ?thesis by (simp add: sizeStep_def)
next
  case (Some item)
  then have mem: "item \<in> set items" by (rule itemToUseFor_mem)
  define bw where "bw = fst (snapBase category item)"
  define bh where "bh = snd (snapBase category item)"
  define best1 where "best1 =
    (case checkSnap bw bh w_mm h_mm of
       Some snapDirect \<Rightarrow> evaluateSuggestion item w_mm h_mm q cp cnc best (fst snapDirect) (snd snapDirect)
     | None \<Rightarrow> best)"
  have b1: "\<forall>s. best1 = Some s \<longrightarrow> acceptable (set items) q cp cnc s"
    unfolding best1_def using assms(2) mem
    by (auto split: option.splits intro: evaluateSuggestion_acceptable)
  show ?thesis
  proof (cases "bw = Num 0 \<or> bh = Num 0")
    case True
    with assms Some show ?thesis
      by (simp add: sizeStep_def bw_def bh_def)
  next
    case False
    have step: "sizeStep category items w_mm h_mm q cp cnc best sStr =
      (case rotatedSnap bw bh w_mm h_mm of
          Some snapRot \<Rightarrow> evaluateSuggestion item w_mm h_mm q cp cnc best1 (fst snapRot) (snd snapRot)
        | None \<Rightarrow> best1)"
      using Some False unfolding best1_def bw_def bh_def sizeStep_def Let_def by simp
    from assms(1) [unfolded step] b1 mem show ?thesis
      by (auto split: option.splits intro: evaluateSuggestion_acceptable)
  qed
qed

lemma foldl_sizeStep_acceptable:
  assumes "foldl (sizeStep category items w_mm h_mm q cp cnc) best sizes = Some s"
      and "\<forall>s. best = Some s \<longrightarrow> acceptable (set items) q cp cnc s"
  shows "acceptable (set items) q cp cnc s"
  using assms
proof (induction sizes arbitrary: best)
  case Nil
  then show ?case by simp
next
  case (Cons sStr sizes)
  have "\<forall>s. sizeStep category items w_mm h_mm q cp cnc best sStr = Some s \<longrightarrow>
            acceptable (set items) q cp cnc s"
    using sizeStep_acceptable [OF _ Cons.prems(2)] by blast
  with Cons.IH [of "sizeStep category items w_mm h_mm q cp cnc best sStr"] Cons.prems(1)
  show ?case by simp
qed

lemma sizeSuggestionFor_acceptable:
  assumes "sizeSuggestionFor category items w_mm h_mm q res = Some s"
  shows "acceptable (set items) q (price res) (needsCut res) s"
proof -
  from assms have "foldl (sizeStep category items w_mm h_mm q (price res) (needsCut res))
     None (distinctFirst (map ebat items)) = Some s"
    unfolding sizeSuggestionFor_def by (auto split: if_splits)
  then show ?thesis
    by (rule foldl_sizeStep_acceptable) simp
qed

lemma indexFrom_absent:
  assumes "x \<notin> set xs"
  shows "indexFrom xs (Num x) i = - 1"
  using assms by (induction xs arbitrary: i) auto

lemma indexOf_2000: "indexOf QUANTITY_OPTIONS (Num 2000) = 1"
  by (simp add: indexOf_def QUANTITY_OPTIONS_def)

lemma nextQtyFor_2000:
  assumes "nextQtyFor items w h (Num 2000) = Some n"
  shows "qty n = Num 4000"
  using assms unfolding nextQtyFor_def indexOf_2000 Let_def
  by (auto simp: QUANTITY_OPTIONS_def elemAt_def split: option.splits)

lemma prevQtyFor_off_tier:
  assumes "x \<notin> set QUANTITY_OPTIONS"
  shows "prevQtyFor items w h (Num x) = None"
  unfolding prevQtyFor_def indexOf_def indexFrom_absent [OF assms] Let_def by simp

lemma nextQtyFor_off_tier:
  assumes "x \<notin> set QUANTITY_OPTIONS" and "nextQtyFor items w h (Num x) = Some n"
  shows "qty n = Num 1000"
proof -
  have x: "x \<noteq> 2000" using assms(1) by (auto simp: QUANTITY_OPTIONS_def)
  have e: "elemAt QUANTITY_OPTIONS 0 = Num 1000"
    by (simp add: elemAt_def QUANTITY_OPTIONS_def)
  from assms(2) show ?thesis
    unfolding nextQtyFor_def indexOf_def indexFrom_absent [OF assms(1)] Let_def
    using x by (auto simp: e split: option.splits if_splits)
qed

section \<open>Prices and multipliers of the evaluator\<close>

lemma max1_prod_ge1: "(1::real) \<le> max 1 a * max 1 b"
proof -
  have "(1::real) * 1 \<le> max 1 a * max 1 b"
    by (rule mult_mono) simp_all
  then show ?thesis by simp
qed

lemma evaluator_nonneg:
  assumes pos: "0 < w" "0 < h" "0 < q"
      and pr: "parsePrice (fiyat item) \<noteq> NaN"
      and bs: "fst (baseSize item) \<noteq> NaN" "snd (baseSize item) \<noteq> NaN"
      and calc: "calculatePriceForItem item (Num w) (Num h) (Num q) = Some res"
  shows "\<exists>p. price res = Num p \<and> 0 \<le> p \<and>
            (strategy res = Multiplier \<longrightarrow>
               (\<exists>m qr. details res = MultiplierDetails (Num m) qr \<and> 1 \<le> m))"
proof (cases "kategori item = Magnet \<and> kod item = MGN")
  case True
  define p where "p = w * h * 0.21 * (q / 1000)"
  from True calc have "res = \<lparr>price = Num p, strategy = Formula, needsCut = True,
                  details = SizeDetails (Num w) (Num h), baseDims = None\<rparr>"
    by (simp add: calculatePriceForItem_def p_def)
  moreover have "0 \<le> p" using pos by (simp add: p_def)
  ultimately show ?thesis by simp
next
  case False
  with calc have cat: "kategori item \<in> set MULTIPLIER_CATEGORIES"
    by (auto simp: calculatePriceForItem_def split: if_splits)
  obtain BW BH where b: "baseSize item = (Num BW, Num BH)"
    using bs by (cases "baseSize item"; cases "fst (baseSize item)"; cases "snd (baseSize item)") auto
  from calc False cat b have nz: "BW \<noteq> 0" "BH \<noteq> 0"
    by (auto simp: calculatePriceForItem_def Let_def split: if_splits)
  from baseSize_nonneg [OF b] nz have bpos: "0 < BW * 10" "0 < BH * 10" by simp_all
  obtain iq where iq: "itemQtyOf item = Num iq" "1 \<le> iq" using itemQtyOf_pos by blast
  then have qr: "0 < q / iq" using pos(3) by simp
  obtain bp where bp: "parsePrice (fiyat item) = Num bp" using pr by (cases "parsePrice (fiyat item)") auto
  then have bp0: "0 \<le> bp" by (rule parsePrice_nonneg)
  have ne: "Num BW \<noteq> Num 0" "Num BH \<noteq> Num 0" using nz by simp_all
  define std where "std = standardImposition (Num w) (Num h) (Num (BW * 10)) (Num (BH * 10))"
  define m where "m = (if fst std then jceil (jmul (snd std) (Num (q / iq)))
       else bestMolds (Num w) (Num h) (Num (BW * 10)) (Num (BH * 10)) (Num (q / iq)))"
  have res: "res = \<lparr>price = jmul (Num bp) m, strategy = Multiplier,
              needsCut = (\<not> fst std), details = MultiplierDetails m (Num (q / iq)),
              baseDims = Some (Num (BW * 10), Num (BH * 10))\<rparr>"
    using calc iq(2) unfolding multiplier_branch [OF cat False b ne] iq(1) bp std_def m_def Let_def
    by auto
  have "\<exists>mv. m = Num mv \<and> 1 \<le> mv"
  proof (cases "fst std")
    case False
    then have "m = bestMolds (Num w) (Num h) (Num (BW * 10)) (Num (BH * 10)) (Num (q / iq))"
      by (simp add: m_def)
    with bestMolds_ge1 [OF pos(1,2) bpos qr] show ?thesis by simp
  next
    case True
    have nzb: "BW * 10 \<noteq> 0" "BH * 10 \<noteq> 0" using bpos by simp_all
    from True have "\<exists>iv. snd std = Num iv \<and> 1 \<le> iv"
      unfolding std_def standardImposition_Num [OF nzb]
      by (auto split: if_splits simp: max1_prod_ge1)
    then obtain iv where iv: "snd std = Num iv" "1 \<le> iv" by blast
    have "0 < iv * (q / iq)" using iv(2) qr by (intro mult_pos_pos) simp_all
    then have "1 \<le> real_of_int \<lceil>iv * (q / iq)\<rceil>" by (rule ceiling_pos_ge1)
    with True iv(1) show ?thesis by (simp add: m_def)
  qed
  then obtain mv where mv: "m = Num mv" "1 \<le> mv" by blast
  have "0 \<le> bp * mv" using bp0 mv(2) by simp
  with mv show ?thesis unfolding res by simp
qed

lemma invalid_input_iff:
  "(handleCalculate engine data width height category quantity = Inr \<lparr>results = [], error = Some InvalidInput\<rparr>)
   = (\<not> truthy (parseFloat (replaceFirst [44] [46] width)) \<or>
      \<not> truthy (parseFloat (replaceFirst [44] [46] height)) \<or>
      \<not> truthy (parseInt quantity))"
  unfolding handleCalculate_def Let_def
  by (auto split: sum.splits)

text \<open>A width that underflows to 0 is invalid input.\<close>

lemma underflow_invalid:
  "handleCalculate engine data (str ''1e-400'') height category quantity =
     Inr \<lparr>results = [], error = Some InvalidInput\<rparr>"
proof -
  have "parseFloat (replaceFirst [44] [46] (str ''1e-400'')) = Num 0"
    by (simp add: ev)
  then show ?thesis
    by (simp add: invalid_input_iff)
qed

section \<open>The handler on a catalog of numbers\<close>

text \<open>
  For a request with positive width, height and quantity, when the prices and the base
  sizes of the entries of the category are numbers: every result has a price that is a
  number and at least 0, and every result of the multiplier strategy has a multiplier of
  at least 1.
\<close>

lemma results_nonneg_numeric:
  assumes "handleCalculate engine data width height category quantity = Inr st"
      and "parseFloat (replaceFirst [44] [46] width) = Num w" and "0 < w"
      and "parseFloat (replaceFirst [44] [46] height) = Num h" and "0 < h"
      and "parseInt quantity = Num q" and "0 < q"
      and "\<forall>item \<in> set data. kategori item = category \<longrightarrow> parsePrice (fiyat item) \<noteq> NaN"
      and "\<forall>item \<in> set data. kategori item = category \<longrightarrow>
             fst (baseSize item) \<noteq> NaN \<and> snd (baseSize item) \<noteq> NaN"
      and "r \<in> set (results st)"
  shows "\<exists>p. calculatedPrice r = Num p \<and> 0 \<le> p \<and>
           (res_strategy r = Multiplier \<longrightarrow>
              (\<exists>m qr. res_details r = MultiplierDetails (Num m) qr \<and> 1 \<le> m))"
proof -
  from handleCalculate_result [OF assms(1,10)] obtain g where
    g: "set (snd g) \<subseteq> {i \<in> set data. kategori i = category}"
       "groupResult category (Num w) (Num h) (Num q) g = Some r"
    unfolding assms(2,4,6) by blast
  from groupResult_fields [OF g(2)] obtain res where
    res: "matchItem r \<in> set (snd g)"
         "calculatePriceForItem (matchItem r) (Num w) (Num h) (Num q) = Some res"
         "calculatedPrice r = price res" "res_strategy r = strategy res"
         "res_details r = details res"
    by blast
  from res(1) g(1) have mem: "matchItem r \<in> set data" "kategori (matchItem r) = category" by auto
  from mem assms(8) have pr: "parsePrice (fiyat (matchItem r)) \<noteq> NaN" by blast
  from mem assms(9) have bs: "fst (baseSize (matchItem r)) \<noteq> NaN" "snd (baseSize (matchItem r)) \<noteq> NaN"
    by blast+
  from evaluator_nonneg [OF assms(3,5,7) pr bs res(2)] show ?thesis
    unfolding res(3,4,5) .
qed


text \<open>
  The results are the pushed results in some order. When their prices are numbers, the
  order is the stable sort of the comparator: prioritized results first, prices not
  decreasing among results of equal priority, results of equal priority and price in the
  order they were pushed.
\<close>

lemma ranked_results_numeric:
  assumes "handleCalculate engine data width height category quantity = Inr st"
      and "error st = None"
  shows "\<exists>groups. groupItems category (filter (\<lambda>i. kategori i = category) data) [] = Inr groups \<and>
     (let pushed = calculatedResultsFor category (parseFloat (replaceFirst [44] [46] width))
                     (parseFloat (replaceFirst [44] [46] height)) (parseInt quantity) groups
      in mset (results st) = mset pushed \<and>
         ((\<forall>r \<in> set (results st). calculatedPrice r \<noteq> NaN) \<longrightarrow>
            results st = stableSort pushed \<and>
            sorted_wrt precedes (results st) \<and>
            (\<forall>p v. filter (\<lambda>r. isPrio r = p \<and> calculatedPrice r = v) (results st) =
                   filter (\<lambda>r. isPrio r = p \<and> calculatedPrice r = v) pushed)))"
proof -
  define w where "w = parseFloat (replaceFirst [44] [46] width)"
  define h where "h = parseFloat (replaceFirst [44] [46] height)"
  define q where "q = parseInt quantity"
  from assms(1,2) obtain groups where
    g: "groupItems category (filter (\<lambda>i. kategori i = category) data) [] = Inr groups"
    and st: "results st = sortResults engine (calculatedResultsFor category w h q groups)"
    unfolding handleCalculate_def w_def [symmetric] h_def [symmetric] q_def [symmetric] Let_def
    by (auto split: if_splits sum.splits)
  define pushed where "pushed = calculatedResultsFor category w h q groups"
  have rs: "results st = sortResults engine pushed" using st by (simp add: pushed_def)
  have perm: "mset (results st) = mset pushed"
    unfolding rs by (rule mset_sortResults)
  have num: "results st = stableSort pushed \<and>
            sorted_wrt precedes (results st) \<and>
            (\<forall>p v. filter (\<lambda>r. isPrio r = p \<and> calculatedPrice r = v) (results st) =
                   filter (\<lambda>r. isPrio r = p \<and> calculatedPrice r = v) pushed)"
    if nn: "\<forall>r \<in> set (results st). calculatedPrice r \<noteq> NaN"
  proof -
    from nn have np: "\<forall>r \<in> set pushed. calculatedPrice r \<noteq> NaN"
      by (simp add: rs set_sortResults)
    then have e: "results st = stableSort pushed"
      unfolding rs by (rule sortResults_numeric)
    from np have "sorted_wrt precedes (stableSort pushed)"
      by (rule sorted_stableSort)
    with e show ?thesis
      by (simp add: filter_stableSort)
  qed
  from g perm num show ?thesis
    unfolding w_def [symmetric] h_def [symmetric] q_def [symmetric] Let_def pushed_def
    by (intro exI [of _ groups]) simp
qed

section \<open>The handler on the example entries\<close>

named_theorems ev2

lemmas [ev2] = standardImposition_def fits bestMolds_def layouts_def
  layoutStep_def MAX_VALUE_def layoutsFrom.simps Let_def

lemmas cardCalc = multiplier_branch [OF exampleCard_facts(1,2,3)]

lemma card_90_54_2000:
  "calculatePriceForItem exampleCard (Num 90) (Num 54) (Num 2000) =
     Some \<lparr>price = Num 1650, strategy = Multiplier, needsCut = True,
           details = MultiplierDetails (Num 3) (Num 2), baseDims = Some (Num 86, Num 54)\<rparr>"
  by (simp add: cardCalc exampleCard_facts(4,5) ev2)

lemma card_90_54_1000:
  "calculatePriceForItem exampleCard (Num 90) (Num 54) (Num 1000) =
     Some \<lparr>price = Num 1100, strategy = Multiplier, needsCut = True,
           details = MultiplierDetails (Num 2) (Num 1), baseDims = Some (Num 86, Num 54)\<rparr>"
  by (simp add: cardCalc exampleCard_facts(4,5) ev2)

lemma card_90_54_4000:
  "calculatePriceForItem exampleCard (Num 90) (Num 54) (Num 4000) =
     Some \<lparr>price = Num 2750, strategy = Multiplier, needsCut = True,
           details = MultiplierDetails (Num 5) (Num 4), baseDims = Some (Num 86, Num 54)\<rparr>"
  by (simp add: cardCalc exampleCard_facts(4,5) ev2)

lemma card_86_54_2000:
  "calculatePriceForItem exampleCard (Num 86) (Num 54) (Num 2000) =
     Some \<lparr>price = Num 1100, strategy = Multiplier, needsCut = False,
           details = MultiplierDetails (Num 2) (Num 2), baseDims = Some (Num 86, Num 54)\<rparr>"
  by (simp add: cardCalc exampleCard_facts(4,5) ev2)

lemma card_miktar: "miktarQty exampleCard = Num 1000"
  by (simp add: exampleCard_def ev)

lemma card_fields: "kategori exampleCard = Kartvizit" "ebat exampleCard = str ''8.6x5.4''"
  "kod exampleCard = str ''K1''" "aciklama exampleCard = str ''350 gr Mat - Cift Yon''"
  by (simp_all add: exampleCard_def)

lemma card_group:
  "groupItems Kartvizit (filter (\<lambda>i. kategori i = Kartvizit) [exampleCard]) [] =
     Inr [(str ''350 gr Mat'', [exampleCard])]"
  by (simp add: card_fields getPaperTypeGroup_def trim_def objectPrototypeKeys_def
      Kartvizit_def Magnet_def str_def isWhiteSpace_def)

lemma card_entries:
  "objectEntries [(str ''350 gr Mat'', [exampleCard])] = [(str ''350 gr Mat'', [exampleCard])]"
  by (simp add: objectEntries_def isArrayIndex_def str_def isDigit_def)

lemma card_best_2000:
  "bestCandidate [exampleCard] (Num 90) (Num 54) (Num 2000) =
     Some (\<lparr>price = Num 1650, strategy = Multiplier, needsCut = True,
           details = MultiplierDetails (Num 3) (Num 2), baseDims = Some (Num 86, Num 54)\<rparr>, exampleCard)"
  by (simp add: bestCandidate_def bestStep_def card_90_54_2000)

lemma card_snap:
  "checkSnap (Num 86) (Num 54) (Num 90) (Num 54) = Some (Num 86, Num 54)"
  "rotatedSnap (Num 86) (Num 54) (Num 90) (Num 54) = None"
  by (simp_all add: checkSnap_def rotatedSnap_def SNAP_TOLERANCE_def Let_def)

lemma card_suggestion_2000:
  "sizeSuggestionFor Kartvizit [exampleCard] (Num 90) (Num 54) (Num 2000)
     \<lparr>price = Num 1650, strategy = Multiplier, needsCut = True,
      details = MultiplierDetails (Num 3) (Num 2), baseDims = Some (Num 86, Num 54)\<rparr> =
   Some suggestionA"
proof -
  have i: "itemToUseFor [exampleCard] (str ''8.6x5.4'') (Num 2000) = Some exampleCard"
    by (simp add: itemToUseFor_def card_fields card_miktar)
  have b: "snapBase Kartvizit exampleCard = (Num 86, Num 54)"
    by (simp add: snapBase_def)
  have e: "evaluateSuggestion exampleCard (Num 90) (Num 54) (Num 2000) (Num 1650) True None (Num 86) (Num 54)
     = Some suggestionA"
    by (simp add: evaluateSuggestion_def card_86_54_2000 suggestionA_def Let_def)
  have k: "Kartvizit \<noteq> Magnet" by (simp add: Kartvizit_def Magnet_def str_def)
  show ?thesis
    by (simp add: sizeSuggestionFor_def k distinctFirst_def card_fields sizeStep_def i b card_snap e)
qed

lemma tiers:
  "elemAt QUANTITY_OPTIONS 0 = Num 1000" "elemAt QUANTITY_OPTIONS 2 = Num 3000"
  "int (length QUANTITY_OPTIONS) = 10" "4000 \<in> set QUANTITY_OPTIONS"
  by (simp_all add: elemAt_def QUANTITY_OPTIONS_def)

lemma card_find_1000:
  "findBestPriceForQty [exampleCard] (Num 90) (Num 54) (Num 1000) = Some (Num 1100)"
  by (simp add: findBestPriceForQty_def card_miktar findBestStep_def card_90_54_1000 MAX_VALUE_def Let_def)

lemma card_find_4000:
  "findBestPriceForQty [exampleCard] (Num 90) (Num 54) (Num 4000) = Some (Num 2750)"
  by (simp add: findBestPriceForQty_def card_miktar findBestStep_def card_90_54_4000 MAX_VALUE_def Let_def)

lemma card_prev_2000:
  "prevQtyFor [exampleCard] (Num 90) (Num 54) (Num 2000) = Some \<lparr>qty = Num 1000, qty_price = Num 1100\<rparr>"
  by (simp add: prevQtyFor_def indexOf_2000 tiers card_find_1000 Let_def)

lemma card_next_2000:
  "nextQtyFor [exampleCard] (Num 90) (Num 54) (Num 2000) = Some \<lparr>qty = Num 4000, qty_price = Num 2750\<rparr>"
  by (simp add: nextQtyFor_def indexOf_2000 tiers card_find_4000 Let_def)

lemma card_input:
  "parseFloat (replaceFirst [44] [46] (str ''90'')) = Num 90"
  "parseFloat (replaceFirst [44] [46] (str ''54'')) = Num 54"
  "parseInt (str ''2000'') = Num 2000"
  "parseInt (str ''1500'') = Num 1500"
  by (simp_all add: ev)

lemma runA:
  "handleCalculate engine [exampleCard] (str ''90'') (str ''54'') Kartvizit (str ''2000'') =
     Inr \<lparr>results = [resultA], error = None\<rparr>"
proof -
  have g: "groupResult Kartvizit (Num 90) (Num 54) (Num 2000) (str ''350 gr Mat'', [exampleCard]) = Some resultA"
    by (simp add: groupResult_def card_best_2000 card_suggestion_2000 card_prev_2000 card_next_2000
        resultA_def)
  have c: "calculatedResultsFor Kartvizit (Num 90) (Num 54) (Num 2000) [(str ''350 gr Mat'', [exampleCard])] = [resultA]"
    by (simp add: calculatedResultsFor_def card_entries map_filter_def g)
  show ?thesis
    unfolding handleCalculate_def card_input Let_def card_group
    by (simp add: c sortResults_single)
qed

lemma card_90_54_1500:
  "calculatePriceForItem exampleCard (Num 90) (Num 54) (Num 1500) =
     Some \<lparr>price = Num 1650, strategy = Multiplier, needsCut = True,
           details = MultiplierDetails (Num 3) (Num (3 / 2)), baseDims = Some (Num 86, Num 54)\<rparr>"
proof -
  have c: "\<lceil>3 / 2 :: real\<rceil> = 2" by (rule ceiling_unique) simp_all
  show ?thesis
    by (simp add: cardCalc exampleCard_facts(4,5) ev2 c)
qed

lemma card_86_54_1500:
  "calculatePriceForItem exampleCard (Num 86) (Num 54) (Num 1500) =
     Some \<lparr>price = Num 1100, strategy = Multiplier, needsCut = False,
           details = MultiplierDetails (Num 2) (Num (3 / 2)), baseDims = Some (Num 86, Num 54)\<rparr>"
proof -
  have c: "\<lceil>3 / 2 :: real\<rceil> = 2" by (rule ceiling_unique) simp_all
  show ?thesis
    by (simp add: cardCalc exampleCard_facts(4,5) ev2 c)
qed

lemma off_tier_1500: "1500 \<notin> set QUANTITY_OPTIONS"
  by (simp add: QUANTITY_OPTIONS_def)

lemma runB:
  "handleCalculate engine [exampleCard] (str ''90'') (str ''54'') Kartvizit (str ''1500'') =
     Inr \<lparr>results = [resultB], error = None\<rparr>"
proof -
  have best: "bestCandidate [exampleCard] (Num 90) (Num 54) (Num 1500) =
     Some (\<lparr>price = Num 1650, strategy = Multiplier, needsCut = True,
           details = MultiplierDetails (Num 3) (Num (3 / 2)), baseDims = Some (Num 86, Num 54)\<rparr>, exampleCard)"
    by (simp add: bestCandidate_def bestStep_def card_90_54_1500)
  have i: "itemToUseFor [exampleCard] (str ''8.6x5.4'') (Num 1500) = Some exampleCard"
    by (simp add: itemToUseFor_def card_fields card_miktar)
  have b: "snapBase Kartvizit exampleCard = (Num 86, Num 54)"
    by (simp add: snapBase_def)
  have e: "evaluateSuggestion exampleCard (Num 90) (Num 54) (Num 1500) (Num 1650) True None (Num 86) (Num 54)
     = Some suggestionA"
    by (simp add: evaluateSuggestion_def card_86_54_1500 suggestionA_def Let_def)
  have k: "Kartvizit \<noteq> Magnet" by (simp add: Kartvizit_def Magnet_def str_def)
  have sg: "sizeSuggestionFor Kartvizit [exampleCard] (Num 90) (Num 54) (Num 1500)
     \<lparr>price = Num 1650, strategy = Multiplier, needsCut = True,
      details = MultiplierDetails (Num 3) (Num (3 / 2)), baseDims = Some (Num 86, Num 54)\<rparr> =
     Some suggestionA"
    by (simp add: sizeSuggestionFor_def k distinctFirst_def card_fields sizeStep_def i b card_snap e)
  have ix: "indexOf QUANTITY_OPTIONS (Num 1500) = - 1"
    unfolding indexOf_def by (rule indexFrom_absent [OF off_tier_1500])
  have pv: "prevQtyFor [exampleCard] (Num 90) (Num 54) (Num 1500) = None"
    by (simp add: prevQtyFor_def ix)
  have nx: "nextQtyFor [exampleCard] (Num 90) (Num 54) (Num 1500) =
     Some \<lparr>qty = Num 1000, qty_price = Num 1100\<rparr>"
    by (simp add: nextQtyFor_def ix tiers card_find_1000 Let_def)
  have g: "groupResult Kartvizit (Num 90) (Num 54) (Num 1500) (str ''350 gr Mat'', [exampleCard]) = Some resultB"
    by (simp add: groupResult_def best sg pv nx resultB_def)
  have c: "calculatedResultsFor Kartvizit (Num 90) (Num 54) (Num 1500) [(str ''350 gr Mat'', [exampleCard])] = [resultB]"
    by (simp add: calculatedResultsFor_def card_entries map_filter_def g)
  show ?thesis
    unfolding handleCalculate_def card_input Let_def card_group
    by (simp add: c sortResults_single)
qed

lemma bro_facts:
  "kategori exampleBro90 \<in> set MULTIPLIER_CATEGORIES"
  "\<not> (kategori exampleBro90 = Magnet \<and> kod exampleBro90 = MGN)"
  "baseSize exampleBro90 = (Num 10, Num 20)"
  "itemQtyOf exampleBro90 = Num 1000"
  "parsePrice (fiyat exampleBro90) = Num 700"
  "miktarQty exampleBro90 = Num 1000"
  "kategori exampleBro115 \<in> set MULTIPLIER_CATEGORIES"
  "\<not> (kategori exampleBro115 = Magnet \<and> kod exampleBro115 = MGN)"
  "baseSize exampleBro115 = (Num 10, Num 20)"
  "itemQtyOf exampleBro115 = Num 1000"
  "parsePrice (fiyat exampleBro115) = Num 900"
  "miktarQty exampleBro115 = Num 1000"
  by (simp_all add: exampleBro90_def exampleBro115_def ev)

lemma bro_fields:
  "kategori exampleBro90 = Brosur" "ebat exampleBro90 = str ''10x20''"
  "aciklama exampleBro90 = str ''90 gr Kuse - Tek Yon''"
  "kategori exampleBro115 = Brosur" "ebat exampleBro115 = str ''10x20''"
  "aciklama exampleBro115 = str ''115 gr Kuse - Tek Yon''"
  by (simp_all add: exampleBro90_def exampleBro115_def)

lemma bro_calc:
  "calculatePriceForItem exampleBro90 (Num 100) (Num 200) (Num 1000) =
     Some \<lparr>price = Num 700, strategy = Multiplier, needsCut = False,
           details = MultiplierDetails (Num 1) (Num 1), baseDims = Some (Num 100, Num 200)\<rparr>"
  "calculatePriceForItem exampleBro90 (Num 100) (Num 200) (Num 2000) =
     Some \<lparr>price = Num 1400, strategy = Multiplier, needsCut = False,
           details = MultiplierDetails (Num 2) (Num 2), baseDims = Some (Num 100, Num 200)\<rparr>"
  "calculatePriceForItem exampleBro115 (Num 100) (Num 200) (Num 1000) =
     Some \<lparr>price = Num 900, strategy = Multiplier, needsCut = False,
           details = MultiplierDetails (Num 1) (Num 1), baseDims = Some (Num 100, Num 200)\<rparr>"
  "calculatePriceForItem exampleBro115 (Num 100) (Num 200) (Num 2000) =
     Some \<lparr>price = Num 1800, strategy = Multiplier, needsCut = False,
           details = MultiplierDetails (Num 2) (Num 2), baseDims = Some (Num 100, Num 200)\<rparr>"
  by (simp_all add: multiplier_branch [OF bro_facts(1,2,3)] multiplier_branch [OF bro_facts(7,8,9)]
      bro_facts(4,5,10,11) ev2)

lemma bro_input:
  "parseFloat (replaceFirst [44] [46] (str ''100'')) = Num 100"
  "parseFloat (replaceFirst [44] [46] (str ''200'')) = Num 200"
  "parseInt (str ''1000'') = Num 1000"
  by (simp_all add: ev)

lemma bro_group:
  "groupItems Brosur (filter (\<lambda>i. kategori i = Brosur) [exampleBro90, exampleBro115]) [] =
     Inr [(str ''90 gr Kuse'', [exampleBro90]), (str ''115 gr Kuse'', [exampleBro115])]"
  by (simp add: bro_fields getPaperTypeGroup_def trim_def objectPrototypeKeys_def
      Brosur_def Magnet_def str_def isWhiteSpace_def)

lemma bro_entries:
  "objectEntries [(str ''90 gr Kuse'', [exampleBro90]), (str ''115 gr Kuse'', [exampleBro115])] =
     [(str ''90 gr Kuse'', [exampleBro90]), (str ''115 gr Kuse'', [exampleBro115])]"
  by (simp add: objectEntries_def isArrayIndex_def str_def isDigit_def)

lemma bro_snap:
  "checkSnap (Num 100) (Num 200) (Num 100) (Num 200) = None"
  "rotatedSnap (Num 100) (Num 200) (Num 100) (Num 200) = None"
  by (simp_all add: checkSnap_def rotatedSnap_def SNAP_TOLERANCE_def Let_def)

lemma indexOf_1000: "indexOf QUANTITY_OPTIONS (Num 1000) = 0"
  by (simp add: indexOf_def QUANTITY_OPTIONS_def)

lemma tiers1: "elemAt QUANTITY_OPTIONS 1 = Num 2000"
  by (simp add: elemAt_def QUANTITY_OPTIONS_def)

lemma bro_group_results:
  "groupResult Brosur (Num 100) (Num 200) (Num 1000) (str ''90 gr Kuse'', [exampleBro90]) = Some result90"
  "groupResult Brosur (Num 100) (Num 200) (Num 1000) (str ''115 gr Kuse'', [exampleBro115]) = Some result115"
proof -
  have k: "Brosur \<noteq> Magnet" "Brosur \<noteq> Kartvizit" "Brosur \<noteq> Etiket"
    by (simp_all add: Brosur_def Magnet_def Kartvizit_def Etiket_def str_def)
  have i: "itemToUseFor [exampleBro90] (str ''10x20'') (Num 1000) = Some exampleBro90"
          "itemToUseFor [exampleBro115] (str ''10x20'') (Num 1000) = Some exampleBro115"
    by (simp_all add: itemToUseFor_def bro_fields bro_facts)
  have ps: "parseSize (str ''10x20'') = Some (Num 10, Num 20)"
    by (simp add: ev)
  have b: "snapBase Brosur exampleBro90 = (Num 100, Num 200)"
          "snapBase Brosur exampleBro115 = (Num 100, Num 200)"
    by (simp_all add: snapBase_def k bro_fields ps)
  have sg: "sizeSuggestionFor Brosur [exampleBro90] (Num 100) (Num 200) (Num 1000) res = None"
           "sizeSuggestionFor Brosur [exampleBro115] (Num 100) (Num 200) (Num 1000) res = None" for res
    by (simp_all add: sizeSuggestionFor_def k distinctFirst_def bro_fields sizeStep_def i b bro_snap)
  have f: "findBestPriceForQty [exampleBro90] (Num 100) (Num 200) (Num 2000) = Some (Num 1400)"
          "findBestPriceForQty [exampleBro115] (Num 100) (Num 200) (Num 2000) = Some (Num 1800)"
    by (simp_all add: findBestPriceForQty_def bro_facts findBestStep_def bro_calc MAX_VALUE_def Let_def)
  have pv: "prevQtyFor items (Num 100) (Num 200) (Num 1000) = None" for items
    by (simp add: prevQtyFor_def indexOf_1000)
  have nx: "nextQtyFor [exampleBro90] (Num 100) (Num 200) (Num 1000) = Some \<lparr>qty = Num 2000, qty_price = Num 1400\<rparr>"
           "nextQtyFor [exampleBro115] (Num 100) (Num 200) (Num 1000) = Some \<lparr>qty = Num 2000, qty_price = Num 1800\<rparr>"
    by (simp_all add: nextQtyFor_def indexOf_1000 tiers tiers1 f Let_def)
  show "groupResult Brosur (Num 100) (Num 200) (Num 1000) (str ''90 gr Kuse'', [exampleBro90]) = Some result90"
    by (simp add: groupResult_def bestCandidate_def bestStep_def bro_calc sg pv nx result90_def)
  show "groupResult Brosur (Num 100) (Num 200) (Num 1000) (str ''115 gr Kuse'', [exampleBro115]) = Some result115"
    by (simp add: groupResult_def bestCandidate_def bestStep_def bro_calc sg pv nx result115_def)
qed

lemma bro_prio: "isPrio result115" "\<not> isPrio result90"
  by (simp_all add: isPrio_def result115_def result90_def bro_fields str_def)

lemma runC:
  "handleCalculate engine [exampleBro90, exampleBro115] (str ''100'') (str ''200'') Brosur (str ''1000'') =
     Inr \<lparr>results = [result115, result90], error = None\<rparr>"
proof -
  have c: "calculatedResultsFor Brosur (Num 100) (Num 200) (Num 1000)
      [(str ''90 gr Kuse'', [exampleBro90]), (str ''115 gr Kuse'', [exampleBro115])] = [result90, result115]"
    by (simp add: calculatedResultsFor_def bro_entries map_filter_def bro_group_results)
  have n: "\<forall>r \<in> set [result90, result115]. calculatedPrice r \<noteq> NaN"
    by (simp add: result90_def result115_def)
  have s: "sortResults engine [result90, result115] = [result115, result90]"
    unfolding sortResults_numeric [OF n]
    by (simp add: stableSort_def afterCF_def compareResults_def bro_prio)
  show ?thesis
    unfolding handleCalculate_def bro_input Let_def bro_group
    by (simp add: c s)
qed

lemma bad_facts:
  "kategori exampleBadSize \<in> set MULTIPLIER_CATEGORIES"
  "\<not> (kategori exampleBadSize = Magnet \<and> kod exampleBadSize = MGN)"
  "baseSize exampleBadSize = (NaN, Num 5)"
  "itemQtyOf exampleBadSize = Num 1000"
  "parsePrice (fiyat exampleBadSize) = Num 100"
  "miktarQty exampleBadSize = Num 1000"
  by (simp_all add: exampleBadSize_def ev)

lemma bad_fields:
  "kategori exampleBadSize = Brosur" "ebat exampleBadSize = str ''.x5''"
  "aciklama exampleBadSize = str ''115 gr Kuse - Tek Yon''"
  by (simp_all add: exampleBadSize_def)

lemma bad_calc:
  "calculatePriceForItem exampleBadSize (Num 100) (Num 100) (Num 1000) =
     Some \<lparr>price = NaN, strategy = Multiplier, needsCut = True,
           details = MultiplierDetails NaN (Num 1), baseDims = Some (NaN, Num 50)\<rparr>"
  "calculatePriceForItem exampleBadSize (Num 100) (Num 100) (Num 2000) =
     Some \<lparr>price = NaN, strategy = Multiplier, needsCut = True,
           details = MultiplierDetails NaN (Num 2), baseDims = Some (NaN, Num 50)\<rparr>"
  by (simp_all add: multiplier_branch [OF bad_facts(1,2,3)] bad_facts(4,5) ev2)

lemma runD:
  "handleCalculate engine [exampleBadSize] (str ''100'') (str ''100'') Brosur (str ''1000'') =
     Inr \<lparr>results = [resultBad], error = None\<rparr>"
proof -
  have k: "Brosur \<noteq> Magnet" "Brosur \<noteq> Kartvizit" "Brosur \<noteq> Etiket"
    by (simp_all add: Brosur_def Magnet_def Kartvizit_def Etiket_def str_def)
  have grp: "groupItems Brosur (filter (\<lambda>i. kategori i = Brosur) [exampleBadSize]) [] =
     Inr [(str ''115 gr Kuse'', [exampleBadSize])]"
    by (simp add: bad_fields getPaperTypeGroup_def trim_def objectPrototypeKeys_def
      Brosur_def Magnet_def str_def isWhiteSpace_def)
  have ent: "objectEntries [(str ''115 gr Kuse'', [exampleBadSize])] = [(str ''115 gr Kuse'', [exampleBadSize])]"
    by (simp add: objectEntries_def isArrayIndex_def str_def isDigit_def)
  have i: "itemToUseFor [exampleBadSize] (str ''.x5'') (Num 1000) = Some exampleBadSize"
    by (simp add: itemToUseFor_def bad_fields bad_facts)
  have ps: "parseSize (str ''.x5'') = Some (NaN, Num 5)"
    by (simp add: ev)
  have b: "snapBase Brosur exampleBadSize = (NaN, Num 50)"
    by (simp add: snapBase_def k bad_fields ps)
  have sn: "checkSnap NaN (Num 50) (Num 100) (Num 100) = None"
           "rotatedSnap NaN (Num 50) (Num 100) (Num 100) = None"
    by (simp_all add: checkSnap_def rotatedSnap_def SNAP_TOLERANCE_def Let_def)
  have sg: "sizeSuggestionFor Brosur [exampleBadSize] (Num 100) (Num 100) (Num 1000) res = None" for res
    by (simp add: sizeSuggestionFor_def k distinctFirst_def bad_fields sizeStep_def i b sn)
  have f: "findBestPriceForQty [exampleBadSize] (Num 100) (Num 100) (Num 2000) = None"
    by (simp add: findBestPriceForQty_def bad_facts findBestStep_def bad_calc MAX_VALUE_def Let_def)
  have pv: "prevQtyFor [exampleBadSize] (Num 100) (Num 100) (Num 1000) = None"
    by (simp add: prevQtyFor_def indexOf_1000)
  have nx: "nextQtyFor [exampleBadSize] (Num 100) (Num 100) (Num 1000) = None"
    by (simp add: nextQtyFor_def indexOf_1000 tiers tiers1 f Let_def)
  have g: "groupResult Brosur (Num 100) (Num 100) (Num 1000) (str ''115 gr Kuse'', [exampleBadSize]) = Some resultBad"
    by (simp add: groupResult_def bestCandidate_def bestStep_def bad_calc sg pv nx resultBad_def)
  have c: "calculatedResultsFor Brosur (Num 100) (Num 100) (Num 1000) [(str ''115 gr Kuse'', [exampleBadSize])] = [resultBad]"
    by (simp add: calculatedResultsFor_def ent map_filter_def g)
  show ?thesis
    unfolding handleCalculate_def bro_input Let_def grp
    by (simp add: c sortResults_single)
qed

lemma neg_input:
  "parseFloat (replaceFirst [44] [46] (str ''-100'')) = Num (- 100)"
  "parseFloat (replaceFirst [44] [46] (str ''150'')) = Num 150"
  by (simp_all add: ev)

lemma magnet_fields:
  "kategori exampleMagnet = Magnet" "kod exampleMagnet = MGN" "miktarQty exampleMagnet = Num 1000"
  by (simp_all add: exampleMagnet_def ev)

lemma magnet_calc:
  "calculatePriceForItem exampleMagnet (Num (- 100)) (Num 150) (Num 1000) =
     Some \<lparr>price = Num (- 3150), strategy = Formula, needsCut = True,
           details = SizeDetails (Num (- 100)) (Num 150), baseDims = None\<rparr>"
  "calculatePriceForItem exampleMagnet (Num (- 100)) (Num 150) (Num 2000) =
     Some \<lparr>price = Num (- 6300), strategy = Formula, needsCut = True,
           details = SizeDetails (Num (- 100)) (Num 150), baseDims = None\<rparr>"
  by (simp_all add: calculatePriceForItem_def magnet_fields)

lemma runE:
  "handleCalculate engine [exampleMagnet] (str ''-100'') (str ''150'') Magnet (str ''1000'') =
     Inr \<lparr>results = [resultNeg], error = None\<rparr>"
proof -
  have grp: "groupItems Magnet (filter (\<lambda>i. kategori i = Magnet) [exampleMagnet]) [] =
     Inr [(Ozel_Ebat_Magnet, [exampleMagnet])]"
    by (simp add: magnet_fields objectPrototypeKeys_def Ozel_Ebat_Magnet_def str_def)
  have ent: "objectEntries [(Ozel_Ebat_Magnet, [exampleMagnet])] = [(Ozel_Ebat_Magnet, [exampleMagnet])]"
    by (simp add: objectEntries_def isArrayIndex_def Ozel_Ebat_Magnet_def str_def isDigit_def)
  have f: "findBestPriceForQty [exampleMagnet] (Num (- 100)) (Num 150) (Num 2000) = Some (Num (- 6300))"
    by (simp add: findBestPriceForQty_def magnet_fields findBestStep_def magnet_calc MAX_VALUE_def Let_def)
  have pv: "prevQtyFor [exampleMagnet] (Num (- 100)) (Num 150) (Num 1000) = None"
    by (simp add: prevQtyFor_def indexOf_1000)
  have nx: "nextQtyFor [exampleMagnet] (Num (- 100)) (Num 150) (Num 1000) =
      Some \<lparr>qty = Num 2000, qty_price = Num (- 6300)\<rparr>"
    by (simp add: nextQtyFor_def indexOf_1000 tiers tiers1 f Let_def)
  have g: "groupResult Magnet (Num (- 100)) (Num 150) (Num 1000) (Ozel_Ebat_Magnet, [exampleMagnet]) = Some resultNeg"
    by (simp add: groupResult_def bestCandidate_def bestStep_def magnet_calc sizeSuggestionFor_def pv nx resultNeg_def)
  have c: "calculatedResultsFor Magnet (Num (- 100)) (Num 150) (Num 1000) [(Ozel_Ebat_Magnet, [exampleMagnet])] = [resultNeg]"
    by (simp add: calculatedResultsFor_def ent map_filter_def g)
  show ?thesis
    unfolding handleCalculate_def neg_input bro_input Let_def grp
    by (simp add: c sortResults_single)
qed

lemma magnet_calc_pos:
  "calculatePriceForItem exampleMagnet (Num 100) (Num 150) (Num q) =
     Some \<lparr>price = Num (100 * 150 * 0.21 * (q / 1000)), strategy = Formula, needsCut = True,
           details = SizeDetails (Num 100) (Num 150), baseDims = None\<rparr>"
  by (simp add: calculatePriceForItem_def magnet_fields)

lemma runF:
  "handleCalculate engine [exampleMagnet] (str ''100'') (str ''150'') Magnet (str ''2000'') =
     Inr \<lparr>results = [resultMagnet], error = None\<rparr>"
proof -
  have grp: "groupItems Magnet (filter (\<lambda>i. kategori i = Magnet) [exampleMagnet]) [] =
     Inr [(Ozel_Ebat_Magnet, [exampleMagnet])]"
    by (simp add: magnet_fields objectPrototypeKeys_def Ozel_Ebat_Magnet_def str_def)
  have ent: "objectEntries [(Ozel_Ebat_Magnet, [exampleMagnet])] = [(Ozel_Ebat_Magnet, [exampleMagnet])]"
    by (simp add: objectEntries_def isArrayIndex_def Ozel_Ebat_Magnet_def str_def isDigit_def)
  have f: "findBestPriceForQty [exampleMagnet] (Num 100) (Num 150) (Num 1000) = Some (Num 3150)"
          "findBestPriceForQty [exampleMagnet] (Num 100) (Num 150) (Num 4000) = Some (Num 12600)"
    by (simp_all add: findBestPriceForQty_def magnet_fields findBestStep_def magnet_calc_pos MAX_VALUE_def Let_def)
  have pv: "prevQtyFor [exampleMagnet] (Num 100) (Num 150) (Num 2000) =
      Some \<lparr>qty = Num 1000, qty_price = Num 3150\<rparr>"
    by (simp add: prevQtyFor_def indexOf_2000 tiers f Let_def)
  have nx: "nextQtyFor [exampleMagnet] (Num 100) (Num 150) (Num 2000) =
      Some \<lparr>qty = Num 4000, qty_price = Num 12600\<rparr>"
    by (simp add: nextQtyFor_def indexOf_2000 tiers f Let_def)
  have g: "groupResult Magnet (Num 100) (Num 150) (Num 2000) (Ozel_Ebat_Magnet, [exampleMagnet]) = Some resultMagnet"
    by (simp add: groupResult_def bestCandidate_def bestStep_def magnet_calc_pos sizeSuggestionFor_def pv nx resultMagnet_def)
  have c: "calculatedResultsFor Magnet (Num 100) (Num 150) (Num 2000) [(Ozel_Ebat_Magnet, [exampleMagnet])] = [resultMagnet]"
    by (simp add: calculatedResultsFor_def ent map_filter_def g)
  have i: "parseFloat (replaceFirst [44] [46] (str ''100'')) = Num 100"
    "parseFloat (replaceFirst [44] [46] (str ''150'')) = Num 150" "parseInt (str ''2000'') = Num 2000"
    by (simp_all add: ev)
  show ?thesis
    unfolding handleCalculate_def i Let_def grp
    by (simp add: c sortResults_single)
qed

lemma bad100_facts:
  "kategori exampleBadSize100 \<in> set MULTIPLIER_CATEGORIES"
  "\<not> (kategori exampleBadSize100 = Magnet \<and> kod exampleBadSize100 = MGN)"
  "baseSize exampleBadSize100 = (NaN, Num 5)"
  "itemQtyOf exampleBadSize100 = Num 1000"
  "parsePrice (fiyat exampleBadSize100) = Num 100"
  "miktarQty exampleBadSize100 = Num 1000"
  "kategori exampleBro80 \<in> set MULTIPLIER_CATEGORIES"
  "\<not> (kategori exampleBro80 = Magnet \<and> kod exampleBro80 = MGN)"
  "baseSize exampleBro80 = (Num 10, Num 20)"
  "itemQtyOf exampleBro80 = Num 1000"
  "parsePrice (fiyat exampleBro80) = Num 500"
  "miktarQty exampleBro80 = Num 1000"
  by (simp_all add: exampleBadSize100_def exampleBro80_def ev)

lemma bad100_fields:
  "kategori exampleBadSize100 = Brosur" "ebat exampleBadSize100 = str ''.x5''"
  "aciklama exampleBadSize100 = str ''100 gr Kuse - Tek Yon''"
  "kategori exampleBro80 = Brosur" "ebat exampleBro80 = str ''10x20''"
  "aciklama exampleBro80 = str ''80 gr Kuse - Tek Yon''"
  by (simp_all add: exampleBadSize100_def exampleBro80_def)

lemma bad100_calc:
  "calculatePriceForItem exampleBadSize100 (Num 100) (Num 200) (Num 1000) =
     Some \<lparr>price = NaN, strategy = Multiplier, needsCut = True,
           details = MultiplierDetails NaN (Num 1), baseDims = Some (NaN, Num 50)\<rparr>"
  "calculatePriceForItem exampleBadSize100 (Num 100) (Num 200) (Num 2000) =
     Some \<lparr>price = NaN, strategy = Multiplier, needsCut = True,
           details = MultiplierDetails NaN (Num 2), baseDims = Some (NaN, Num 50)\<rparr>"
  "calculatePriceForItem exampleBro80 (Num 100) (Num 200) (Num 1000) =
     Some \<lparr>price = Num 500, strategy = Multiplier, needsCut = False,
           details = MultiplierDetails (Num 1) (Num 1), baseDims = Some (Num 100, Num 200)\<rparr>"
  "calculatePriceForItem exampleBro80 (Num 100) (Num 200) (Num 2000) =
     Some \<lparr>price = Num 1000, strategy = Multiplier, needsCut = False,
           details = MultiplierDetails (Num 2) (Num 2), baseDims = Some (Num 100, Num 200)\<rparr>"
  by (simp_all add: multiplier_branch [OF bad100_facts(1,2,3)] multiplier_branch [OF bad100_facts(7,8,9)]
      bad100_facts(4,5,10,11) ev2)

lemma bad100_group_results:
  "groupResult Brosur (Num 100) (Num 200) (Num 1000) (str ''100 gr Kuse'', [exampleBadSize100]) =
     Some resultBad100"
  "groupResult Brosur (Num 100) (Num 200) (Num 1000) (str ''80 gr Kuse'', [exampleBro80]) =
     Some result80"
proof -
  have k: "Brosur \<noteq> Magnet" "Brosur \<noteq> Kartvizit" "Brosur \<noteq> Etiket"
    by (simp_all add: Brosur_def Magnet_def Kartvizit_def Etiket_def str_def)
  have i: "itemToUseFor [exampleBadSize100] (str ''.x5'') (Num 1000) = Some exampleBadSize100"
          "itemToUseFor [exampleBro80] (str ''10x20'') (Num 1000) = Some exampleBro80"
    by (simp_all add: itemToUseFor_def bad100_fields bad100_facts)
  have ps: "parseSize (str ''.x5'') = Some (NaN, Num 5)" "parseSize (str ''10x20'') = Some (Num 10, Num 20)"
    by (simp_all add: ev)
  have b: "snapBase Brosur exampleBadSize100 = (NaN, Num 50)"
          "snapBase Brosur exampleBro80 = (Num 100, Num 200)"
    by (simp_all add: snapBase_def k bad100_fields ps)
  have sn: "checkSnap NaN (Num 50) (Num 100) (Num 200) = None"
           "rotatedSnap NaN (Num 50) (Num 100) (Num 200) = None"
    by (simp_all add: checkSnap_def rotatedSnap_def SNAP_TOLERANCE_def Let_def)
  have sg: "sizeSuggestionFor Brosur [exampleBadSize100] (Num 100) (Num 200) (Num 1000) res = None"
           "sizeSuggestionFor Brosur [exampleBro80] (Num 100) (Num 200) (Num 1000) res = None" for res
    by (simp_all add: sizeSuggestionFor_def k distinctFirst_def bad100_fields sizeStep_def i b sn bro_snap)
  have f: "findBestPriceForQty [exampleBadSize100] (Num 100) (Num 200) (Num 2000) = None"
          "findBestPriceForQty [exampleBro80] (Num 100) (Num 200) (Num 2000) = Some (Num 1000)"
    by (simp_all add: findBestPriceForQty_def bad100_facts findBestStep_def bad100_calc MAX_VALUE_def Let_def)
  have pv: "prevQtyFor items (Num 100) (Num 200) (Num 1000) = None" for items
    by (simp add: prevQtyFor_def indexOf_1000)
  have nx: "nextQtyFor [exampleBadSize100] (Num 100) (Num 200) (Num 1000) = None"
           "nextQtyFor [exampleBro80] (Num 100) (Num 200) (Num 1000) = Some \<lparr>qty = Num 2000, qty_price = Num 1000\<rparr>"
    by (simp_all add: nextQtyFor_def indexOf_1000 tiers tiers1 f Let_def)
  show "groupResult Brosur (Num 100) (Num 200) (Num 1000) (str ''100 gr Kuse'', [exampleBadSize100]) =
     Some resultBad100"
    by (simp add: groupResult_def bestCandidate_def bestStep_def bad100_calc sg pv nx resultBad100_def)
  show "groupResult Brosur (Num 100) (Num 200) (Num 1000) (str ''80 gr Kuse'', [exampleBro80]) =
     Some result80"
    by (simp add: groupResult_def bestCandidate_def bestStep_def bad100_calc sg pv nx result80_def)
qed

text \<open>
  A catalog with the size label \<open>.x5\<close> between two brochures: the three results as
  they are pushed, and the handler's result for any engine.
\<close>

lemma runG:
  "handleCalculate engine [exampleBro90, exampleBadSize100, exampleBro80] (str ''100'') (str ''200'')
     Brosur (str ''1000'') =
     Inr \<lparr>results = sortResults engine [result90, resultBad100, result80], error = None\<rparr>"
proof -
  have grp: "groupItems Brosur
      (filter (\<lambda>i. kategori i = Brosur) [exampleBro90, exampleBadSize100, exampleBro80]) [] =
     Inr [(str ''90 gr Kuse'', [exampleBro90]), (str ''100 gr Kuse'', [exampleBadSize100]),
          (str ''80 gr Kuse'', [exampleBro80])]"
    by (simp add: bro_fields bad100_fields getPaperTypeGroup_def trim_def objectPrototypeKeys_def
      Brosur_def Magnet_def str_def isWhiteSpace_def)
  have ent: "objectEntries [(str ''90 gr Kuse'', [exampleBro90]), (str ''100 gr Kuse'', [exampleBadSize100]),
          (str ''80 gr Kuse'', [exampleBro80])] =
     [(str ''90 gr Kuse'', [exampleBro90]), (str ''100 gr Kuse'', [exampleBadSize100]),
          (str ''80 gr Kuse'', [exampleBro80])]"
    by (simp add: objectEntries_def isArrayIndex_def str_def isDigit_def)
  have c: "calculatedResultsFor Brosur (Num 100) (Num 200) (Num 1000)
      [(str ''90 gr Kuse'', [exampleBro90]), (str ''100 gr Kuse'', [exampleBadSize100]),
       (str ''80 gr Kuse'', [exampleBro80])] = [result90, resultBad100, result80]"
    by (simp add: calculatedResultsFor_def ent map_filter_def bro_group_results bad100_group_results)
  show ?thesis
    unfolding handleCalculate_def bro_input Let_def grp
    by (simp add: c)
qed

lemma runG_prices:
  "calculatedPrice result90 = Num 700" "calculatedPrice resultBad100 = NaN"
  "calculatedPrice result80 = Num 500"
  "\<not> isPrio result90" "\<not> isPrio resultBad100" "\<not> isPrio result80"
  by (simp_all add: result90_def resultBad100_def result80_def isPrio_def bro_fields bad100_fields
      str_def)

lemma runG_inconsistent: "\<not> consistentOn [result90, resultBad100, result80]"
  by (simp add: consistentOn_iff runG_prices)

lemma runG_keepOrder:
  "sortResults keepOrder [result90, resultBad100, result80] = [result90, resultBad100, result80]"
proof -
  have "[0..<3] = [0, 1, 2]" by (simp add: upt_rec)
  then show ?thesis
    by (simp add: sortResults_def runG_inconsistent permuted_def keepOrder_def)
qed

text \<open>A sorted list compares any two of its elements one way or the other.\<close>

lemma sorted_wrt_either:
  assumes "sorted_wrt P xs" "a \<in> set xs" "b \<in> set xs" "a \<noteq> b"
  shows "P a b \<or> P b a"
  using assms by (induction xs) auto

lemma card2000_facts:
  "kategori exampleCard2000 \<in> set MULTIPLIER_CATEGORIES"
  "\<not> (kategori exampleCard2000 = Magnet \<and> kod exampleCard2000 = MGN)"
  "baseSize exampleCard2000 = (Num 8.6, Num 5.4)"
  "itemQtyOf exampleCard2000 = Num 2000"
  "parsePrice (fiyat exampleCard2000) = Num 900"
  by (simp_all add: exampleCard2000_def ev)

section \<open>The claims\<close>

text \<open>
  C1. At exactly half a millimetre from a multiple the evaluator does not do what the
  claim says. The base of a business card is 86 by 54 mm. The request 86.5 by 54 mm has
  its width 0.5 mm from 1 x 86 and its height on 1 x 54, so it is within 0.5 mm of a
  multiple on both sides as given. The fit test on the width computes
  0.5000000000000009 and fails, the rotated request does not fit either, and the
  evaluator declares a custom cut: multiplier 2 from the layout optimizer and the price
  1100, where 86 by 54 mm is a standard fit with multiplier 1 and the price 550. Half
  a millimetre is accepted elsewhere: 108.5 fits the base 54, and 54.5 does not.
\<close>

theorem half_millimetre_custom_cut:
  "calculatePriceForItem exampleCard (Num 86.5) (Num 54) (Num 1000) =
     Some \<lparr>price = Num 1100, strategy = Multiplier, needsCut = True,
           details = MultiplierDetails (Num 2) (Num 1), baseDims = Some (Num 86, Num 54)\<rparr>
   \<and> \<bar>86.5 - 1 * 86\<bar> \<le> (1 / 2 :: real) \<and> \<bar>54 - 1 * 54\<bar> \<le> (1 / 2 :: real)
   \<and> checkFit (Num 86.5) (Num 86) = False
   \<and> checkFit (Num 108.5) (Num 54) = True
   \<and> checkFit (Num 54.5) (Num 54) = False
   \<and> calculatePriceForItem exampleCard (Num 86) (Num 54) (Num 1000) =
     Some \<lparr>price = Num 550, strategy = Multiplier, needsCut = False,
           details = MultiplierDetails (Num 1) (Num 1), baseDims = Some (Num 86, Num 54)\<rparr>"
proof -
  have a: "calculatePriceForItem exampleCard (Num 86.5) (Num 54) (Num 1000) =
     Some \<lparr>price = Num 1100, strategy = Multiplier, needsCut = True,
           details = MultiplierDetails (Num 2) (Num 1), baseDims = Some (Num 86, Num 54)\<rparr>"
    by (simp add: cardCalc exampleCard_facts(4,5) ev2)
  have b: "calculatePriceForItem exampleCard (Num 86) (Num 54) (Num 1000) =
     Some \<lparr>price = Num 550, strategy = Multiplier, needsCut = False,
           details = MultiplierDetails (Num 1) (Num 1), baseDims = Some (Num 86, Num 54)\<rparr>"
    by (simp add: cardCalc exampleCard_facts(4,5) ev2)
  from a b show ?thesis
    by (simp add: fits_half)
qed

text \<open>
  C2. An entry of category Magnet with the code MGN: the price is
  width times height times 0.21 times (quantity / 1000), the result needs a cut, and
  100 by 150 mm at 2000 pieces costs 6300. The same holds of every result the handler
  returns for the category Magnet.
\<close>

theorem magnet_formula_price:
  "(kategori item = Magnet \<and> kod item = MGN \<longrightarrow>
      (\<exists>res. calculatePriceForItem item (Num w) (Num h) (Num q) = Some res \<and>
            price res = Num (w * h * 0.21 * (q / 1000)) \<and> needsCut res \<and> strategy res = Formula)
    \<and> (\<exists>res. calculatePriceForItem item (Num 100) (Num 150) (Num 2000) = Some res \<and>
            price res = Num 6300 \<and> needsCut res))
   \<and> (handleCalculate engine data width height Magnet quantity = Inr st \<and> r \<in> set (results st) \<and>
       parseFloat (replaceFirst [44] [46] width) = Num w \<and>
       parseFloat (replaceFirst [44] [46] height) = Num h \<and> parseInt quantity = Num q \<longrightarrow>
         calculatedPrice r = Num (w * h * 0.21 * (q / 1000)) \<and> res_needsCut r \<and>
         res_strategy r = Formula)"
proof (intro conjI impI)
  assume a: "kategori item = Magnet \<and> kod item = MGN"
  then show "\<exists>res. calculatePriceForItem item (Num w) (Num h) (Num q) = Some res \<and>
            price res = Num (w * h * 0.21 * (q / 1000)) \<and> needsCut res \<and> strategy res = Formula"
    by (simp add: calculatePriceForItem_def)
  from a show "\<exists>res. calculatePriceForItem item (Num 100) (Num 150) (Num 2000) = Some res \<and>
            price res = Num 6300 \<and> needsCut res"
    by (simp add: calculatePriceForItem_def)
next
  assume a: "handleCalculate engine data width height Magnet quantity = Inr st \<and> r \<in> set (results st) \<and>
       parseFloat (replaceFirst [44] [46] width) = Num w \<and>
       parseFloat (replaceFirst [44] [46] height) = Num h \<and> parseInt quantity = Num q"
  then have hc: "handleCalculate engine data width height Magnet quantity = Inr st" and r: "r \<in> set (results st)"
    and p: "parseFloat (replaceFirst [44] [46] width) = Num w"
       "parseFloat (replaceFirst [44] [46] height) = Num h" "parseInt quantity = Num q"
    by simp_all
  from handleCalculate_magnet_item [OF hc r] obtain res where
    m: "kategori (matchItem r) = Magnet" "kod (matchItem r) = MGN"
    and res: "calculatePriceForItem (matchItem r) (Num w) (Num h) (Num q) = Some res"
       "calculatedPrice r = price res" "res_needsCut r = needsCut res" "res_strategy r = strategy res"
    unfolding p by blast
  from res(1) m have "price res = Num (w * h * 0.21 * (q / 1000)) \<and> needsCut res \<and> strategy res = Formula"
    by (auto simp: calculatePriceForItem_def)
  with res(2,3,4) show "calculatedPrice r = Num (w * h * 0.21 * (q / 1000))" "res_needsCut r"
    "res_strategy r = Formula"
    by simp_all
qed

theorem magnet_formula_price_witness:
  "calculatePriceForItem exampleMagnet (Num 100) (Num 150) (Num 2000) =
     Some \<lparr>price = Num 6300, strategy = Formula, needsCut = True,
           details = SizeDetails (Num 100) (Num 150), baseDims = None\<rparr>
   \<and> handleCalculate keepOrder [exampleMagnet] (str ''100'') (str ''150'') Magnet (str ''2000'') =
       Inr \<lparr>results = [resultMagnet], error = None\<rparr>
   \<and> calculatedPrice resultMagnet = Num 6300 \<and> res_needsCut resultMagnet"
proof -
  have m: "kategori exampleMagnet = Magnet \<and> kod exampleMagnet = MGN"
    by (simp add: magnet_fields)
  have r: "resultMagnet \<in> set (results \<lparr>results = [resultMagnet], error = None\<rparr>)" by simp
  have i: "parseFloat (replaceFirst [44] [46] (str ''100'')) = Num 100"
    "parseFloat (replaceFirst [44] [46] (str ''150'')) = Num 150" "parseInt (str ''2000'') = Num 2000"
    by (simp_all add: ev)
  from magnet_formula_price [of exampleMagnet 100 150 2000 keepOrder "[exampleMagnet]" "str ''100''" "str ''150''"
      "str ''2000''" "\<lparr>results = [resultMagnet], error = None\<rparr>" resultMagnet]
  have "calculatedPrice resultMagnet = Num 6300 \<and> res_needsCut resultMagnet"
    using m runF r i by simp
  then show ?thesis
    by (simp add: magnet_calc_pos runF)
qed

text \<open>
  C3, as amended. For positive piece size, base size and piece count \<open>k\<close>, the layout
  optimizer returns at most the sheets of one piece, in either orientation of the base,
  times the ceiling of \<open>k\<close>. With \<open>k\<close> itself in place of its ceiling the bound
  fails: half a piece count still costs the sheets of a whole piece.
\<close>

theorem layout_optimizer_bound:
  assumes "0 < w" "0 < h" "0 < bw" "0 < bh" "0 < k"
  shows "\<exists>m. bestMolds (Num w) (Num h) (Num bw) (Num bh) (Num k) = Num m \<and>
     m \<le> of_int (\<lceil>w / bw\<rceil> * \<lceil>h / bh\<rceil>) * of_int \<lceil>k\<rceil> \<and>
     m \<le> of_int (\<lceil>w / bh\<rceil> * \<lceil>h / bw\<rceil>) * of_int \<lceil>k\<rceil>"
proof -
  define n where "n = \<lceil>k\<rceil>"
  have n1: "1 \<le> n" using assms(5) unfolding n_def by simp
  have nz: "bw \<noteq> 0" "bh \<noteq> 0" using assms(3,4) by simp_all
  define b1 where "b1 = min (min (min (min MAX_VALUE
      (of_int \<lceil>w * of_int n / bw\<rceil> * of_int \<lceil>h * of_int 1 / bh\<rceil>))
      (of_int \<lceil>w * of_int n / bh\<rceil> * of_int \<lceil>h * of_int 1 / bw\<rceil>))
      (of_int \<lceil>w * of_int 1 / bw\<rceil> * of_int \<lceil>h * of_int n / bh\<rceil>))
      (of_int \<lceil>w * of_int 1 / bh\<rceil> * of_int \<lceil>h * of_int n / bw\<rceil>)"
  have step: "layoutStep (Num w) (Num h) (Num bw) (Num bh) (Num MAX_VALUE) (Num (of_int 1), Num (of_int n)) = Num b1"
    unfolding b1_def by (rule layoutStep_Num [OF nz])
  obtain m where m: "foldl (layoutStep (Num w) (Num h) (Num bw) (Num bh)) (Num b1)
            (map (\<lambda>(r, c). (Num (of_int r), Num (of_int c))) (layoutsFrom n 2)) = Num m" "m \<le> b1"
    using foldl_layoutStep_le [OF nz] by blast
  have best: "bestMolds (Num w) (Num h) (Num bw) (Num bh) (Num k) = Num m"
    unfolding bestMolds_def layouts_ceil n_def [symmetric] layoutsFrom_first [OF n1]
    using m(1) step by simp
  have "1 \<le> real_of_int \<lceil>h / bh\<rceil>" "1 \<le> real_of_int \<lceil>h / bw\<rceil>"
    using assms(2,3,4) by (simp_all only: ceiling_pos_ge1 divide_pos_pos)
  then have hb: "0 \<le> real_of_int \<lceil>h / bh\<rceil>" "0 \<le> real_of_int \<lceil>h / bw\<rceil>"
    by linarith+
  have "b1 \<le> of_int \<lceil>w * of_int n / bw\<rceil> * of_int \<lceil>h / bh\<rceil>"
    unfolding b1_def by (simp add: min.coboundedI1 min.coboundedI2)
  also have "\<dots> \<le> (of_int \<lceil>w / bw\<rceil> * of_int n) * of_int \<lceil>h / bh\<rceil>"
    by (intro mult_right_mono ceiling_scale_le n1 hb)
  finally have u1: "b1 \<le> of_int (\<lceil>w / bw\<rceil> * \<lceil>h / bh\<rceil>) * of_int n"
    by (simp add: mult_ac)
  have "b1 \<le> of_int \<lceil>w * of_int n / bh\<rceil> * of_int \<lceil>h / bw\<rceil>"
    unfolding b1_def by (simp add: min.coboundedI1 min.coboundedI2)
  also have "\<dots> \<le> (of_int \<lceil>w / bh\<rceil> * of_int n) * of_int \<lceil>h / bw\<rceil>"
    by (intro mult_right_mono ceiling_scale_le n1 hb)
  finally have u2: "b1 \<le> of_int (\<lceil>w / bh\<rceil> * \<lceil>h / bw\<rceil>) * of_int n"
    by (simp add: mult_ac)
  from best m(2) u1 u2 show ?thesis
    unfolding n_def by auto
qed

theorem layout_optimizer_bound_witness:
  "\<exists>m. bestMolds (Num 90) (Num 54) (Num 86) (Num 54) (Num (1 / 2)) = Num m \<and> m \<le> 2"
proof -
  have c: "\<lceil>1 / 2 :: real\<rceil> = 1"
    by (rule ceiling_unique) simp_all
  from layout_optimizer_bound [of 90 54 86 54 "1 / 2"] show ?thesis
    by (simp add: c)
qed

theorem layout_optimizer_counterexample:
  "bestMolds (Num 90) (Num 54) (Num 86) (Num 54) (Num (1 / 2)) = Num 2
   \<and> \<not> (2 \<le> real_of_int (\<lceil>90 / 86 :: real\<rceil> * \<lceil>54 / 54 :: real\<rceil>) * (1 / 2))
   \<and> \<not> (2 \<le> real_of_int (\<lceil>90 / 54 :: real\<rceil> * \<lceil>54 / 86 :: real\<rceil>) * (1 / 2))
   \<and> calculatePriceForItem exampleCard2000 (Num 90) (Num 54) (Num 1000) =
       Some \<lparr>price = Num 1800, strategy = Multiplier, needsCut = True,
             details = MultiplierDetails (Num 2) (Num (1 / 2)), baseDims = Some (Num 86, Num 54)\<rparr>"
proof -
  have c: "\<lceil>1 / 2 :: real\<rceil> = 1"
    by (rule ceiling_unique) simp_all
  have l: "layoutsFrom 1 1 = [(1, 1)]"
    by (simp add: layoutsFrom.simps [of 1 1] layoutsFrom.simps [of 1 2])
  have b: "bestMolds (Num 90) (Num 54) (Num 86) (Num 54) (Num (1 / 2)) = Num 2"
    by (simp add: bestMolds_def layouts_def c l layoutStep_def MAX_VALUE_def)
  have s: "standardImposition (Num 90) (Num 54) (Num 86) (Num 54) = (False, Num 0)"
    by (simp add: standardImposition_def fits)
  have e: "calculatePriceForItem exampleCard2000 (Num 90) (Num 54) (Num 1000) =
       Some \<lparr>price = Num 1800, strategy = Multiplier, needsCut = True,
             details = MultiplierDetails (Num 2) (Num (1 / 2)), baseDims = Some (Num 86, Num 54)\<rparr>"
    by (simp add: multiplier_branch [OF card2000_facts(1,2,3)] card2000_facts(4,5) s b)
  from b e show ?thesis by simp
qed

text \<open>
  C4. A result of the handler that carries a size suggestion: the suggestion's price is
  below the result's price, or it equals the result's price, the result needs a cut and
  an entry of the catalog evaluated at the suggested size gives that price without a
  cut; and the savings percentage is 0 unless the suggestion is strictly cheaper.
\<close>

theorem size_suggestion_better:
  assumes "handleCalculate engine data width height category quantity = Inr st"
      and "r \<in> set (results st)"
      and "sizeSuggestion r = Some s"
  shows "(jlt (sug_price s) (calculatedPrice r) \<or>
          (jeq (sug_price s) (calculatedPrice r) \<and> res_needsCut r \<and>
           (\<exists>item \<in> set data. \<exists>res.
              calculatePriceForItem item (sug_w_mm s) (sug_h_mm s) (parseInt quantity) = Some res \<and>
              price res = sug_price s \<and> \<not> needsCut res)))
         \<and> (\<not> jlt (sug_price s) (calculatedPrice r) \<longrightarrow> savingPercent s = Num 0)"
proof -
  define w where "w = parseFloat (replaceFirst [44] [46] width)"
  define h where "h = parseFloat (replaceFirst [44] [46] height)"
  define q where "q = parseInt quantity"
  from handleCalculate_result [OF assms(1,2)] obtain g where
    g: "set (snd g) \<subseteq> {i \<in> set data. kategori i = category}"
       "groupResult category w h q g = Some r"
    unfolding w_def h_def q_def by blast
  from groupResult_fields [OF g(2)] obtain res where
    res: "calculatedPrice r = price res" "res_needsCut r = needsCut res"
         "sizeSuggestion r = sizeSuggestionFor category (snd g) w h q res"
    by blast
  from assms(3) res(3) have "sizeSuggestionFor category (snd g) w h q res = Some s" by simp
  then have "acceptable (set (snd g)) q (price res) (needsCut res) s"
    by (rule sizeSuggestionFor_acceptable)
  with g(1) show ?thesis
    unfolding acceptable_def res(1,2) q_def by blast
qed

theorem size_suggestion_better_witness:
  "handleCalculate keepOrder [exampleCard] (str ''90'') (str ''54'') Kartvizit (str ''2000'') =
     Inr \<lparr>results = [resultA], error = None\<rparr>
   \<and> sizeSuggestion resultA = Some suggestionA
   \<and> jlt (sug_price suggestionA) (calculatedPrice resultA)"
proof -
  have r: "resultA \<in> set (results \<lparr>results = [resultA], error = None\<rparr>)" by simp
  have s: "sizeSuggestion resultA = Some suggestionA" by (simp add: resultA_def)
  from size_suggestion_better [OF runA r s] runA s show ?thesis
    by (simp add: resultA_def suggestionA_def)
qed

text \<open>
  C5. A size label whose first number is a lone dot breaks the claim. The label
  \<open>.x5\<close> matches the pattern of \<open>parseSize\<close>, the dot parses to \<open>NaN\<close>, and the
  test of the base size against 0 lets \<open>NaN\<close> through. For a request of 100 by 100
  mm at quantity 1000 the entry, whose price parses to 100 and whose quantity to 1000,
  is not skipped: the handler returns one result, a multiplier result whose price is
  \<open>NaN\<close> and whose multiplier is \<open>NaN\<close>, whatever the engine.
\<close>

theorem nan_base_size_priced:
  "parseFloat (replaceFirst [44] [46] (str ''100'')) = Num 100
   \<and> parseInt (str ''1000'') = Num 1000
   \<and> parsePrice (fiyat exampleBadSize) = Num 100
   \<and> miktarQty exampleBadSize = Num 1000
   \<and> baseSize exampleBadSize = (NaN, Num 5)
   \<and> handleCalculate engine [exampleBadSize] (str ''100'') (str ''100'') Brosur (str ''1000'') =
       Inr \<lparr>results = [resultBad], error = None\<rparr>
   \<and> calculatedPrice resultBad = NaN
   \<and> \<not> jge (calculatedPrice resultBad) (Num 0)
   \<and> res_strategy resultBad = Multiplier
   \<and> res_details resultBad = MultiplierDetails NaN (Num 1)"
  by (simp add: bro_input bad_facts runD) (simp add: resultBad_def)

theorem nan_base_size_priced_witness:
  "handleCalculate keepOrder [exampleBadSize] (str ''100'') (str ''100'') Brosur (str ''1000'') =
     Inr \<lparr>results = [resultBad], error = None\<rparr>
   \<and> calculatedPrice resultBad = NaN"
  using nan_base_size_priced [of keepOrder] by simp

text \<open>
  C6. The handler reports invalid input exactly when the parsed width, height or
  quantity is 0 or \<open>NaN\<close> (lemma \<open>invalid_input_iff\<close>). A negative width is neither:
  for the width \<open>-100\<close> the handler computes, and returns a result with the price -3150.
\<close>

theorem negative_width_accepted:
  "parseFloat (replaceFirst [44] [46] (str ''-100'')) = Num (- 100)
   \<and> handleCalculate engine [exampleMagnet] (str ''-100'') (str ''150'') Magnet (str ''1000'') =
       Inr \<lparr>results = [resultNeg], error = None\<rparr>
   \<and> calculatedPrice resultNeg = Num (- 3150)"
  by (simp add: neg_input runE) (simp add: resultNeg_def)

theorem negative_width_accepted_witness:
  "handleCalculate keepOrder [exampleMagnet] (str ''-100'') (str ''150'') Magnet (str ''1000'') \<noteq>
     Inr \<lparr>results = [], error = Some InvalidInput\<rparr>"
  using negative_width_accepted [of keepOrder] by simp

text \<open>
  C7. Quantity 2000: 4000 is in the tier list, and a next-quantity suggestion of any
  result proposes 4000, not 3000.
\<close>

theorem next_tier_after_2000:
  assumes "handleCalculate engine data width height category quantity = Inr st"
      and "parseInt quantity = Num 2000"
      and "r \<in> set (results st)"
      and "nextQty r = Some n"
  shows "4000 \<in> set QUANTITY_OPTIONS \<and> qty n = Num 4000 \<and> qty n \<noteq> Num 3000"
proof -
  from handleCalculate_result [OF assms(1,3)] obtain g where
    g: "groupResult category (parseFloat (replaceFirst [44] [46] width))
          (parseFloat (replaceFirst [44] [46] height)) (Num 2000) g = Some r"
    unfolding assms(2) by blast
  from groupResult_fields [OF g] assms(4)
  have "nextQtyFor (snd g) (parseFloat (replaceFirst [44] [46] width))
          (parseFloat (replaceFirst [44] [46] height)) (Num 2000) = Some n"
    by auto
  then have "qty n = Num 4000" by (rule nextQtyFor_2000)
  then show ?thesis by (simp add: QUANTITY_OPTIONS_def)
qed

theorem next_tier_after_2000_witness:
  "handleCalculate keepOrder [exampleCard] (str ''90'') (str ''54'') Kartvizit (str ''2000'') =
     Inr \<lparr>results = [resultA], error = None\<rparr>
   \<and> nextQty resultA = Some \<lparr>qty = Num 4000, qty_price = Num 2750\<rparr>
   \<and> qty \<lparr>qty = Num 4000, qty_price = Num 2750\<rparr> = Num 4000"
proof -
  have r: "resultA \<in> set (results \<lparr>results = [resultA], error = None\<rparr>)" by simp
  have n: "nextQty resultA = Some \<lparr>qty = Num 4000, qty_price = Num 2750\<rparr>"
    by (simp add: resultA_def)
  from next_tier_after_2000 [OF runA card_input(3) r n] runA n show ?thesis
    by simp
qed

text \<open>
  C8. A result whose price is \<open>NaN\<close> breaks the order. The catalog holds the size
  label \<open>.x5\<close> between two brochures of 700 and 500; for 100 by 200 mm at quantity
  1000 three results are pushed, with the prices 700, \<open>NaN\<close> and 500, none of them
  prioritized. The comparator returns \<open>NaN\<close> for every pair with the second one and
  is not consistent, so the engine decides the order. Whatever the engine, the handler
  returns the three results, and the list is not in the claimed order: no arrangement of
  them is, since no price is at most \<open>NaN\<close> and \<open>NaN\<close> is at most no price. An
  engine that leaves such an array as it is returns 700 before 500.
\<close>

theorem nan_price_not_ranked:
  "(\<exists>st. handleCalculate engine [exampleBro90, exampleBadSize100, exampleBro80]
            (str ''100'') (str ''200'') Brosur (str ''1000'') = Inr st \<and>
         error st = None \<and>
         mset (results st) = {#result90, resultBad100, result80#} \<and>
         \<not> sorted_wrt precedes (results st))
   \<and> handleCalculate keepOrder [exampleBro90, exampleBadSize100, exampleBro80]
         (str ''100'') (str ''200'') Brosur (str ''1000'') =
       Inr \<lparr>results = [result90, resultBad100, result80], error = None\<rparr>
   \<and> calculatedPrice result90 = Num 700 \<and> calculatedPrice resultBad100 = NaN
   \<and> calculatedPrice result80 = Num 500
   \<and> \<not> isPrio result90 \<and> \<not> isPrio resultBad100 \<and> \<not> isPrio result80
   \<and> \<not> consistentOn [result90, resultBad100, result80]"
proof -
  let ?rs = "sortResults engine [result90, resultBad100, result80]"
  have m: "mset ?rs = {#result90, resultBad100, result80#}"
    by (simp add: mset_sortResults)
  have mem: "result90 \<in> set ?rs" "resultBad100 \<in> set ?rs"
    by (simp_all add: set_sortResults)
  have ne: "result90 \<noteq> resultBad100"
    using runG_prices(1,2) by auto
  have "\<not> sorted_wrt precedes ?rs"
  proof
    assume "sorted_wrt precedes ?rs"
    from sorted_wrt_either [OF this mem ne]
    show False
      by (simp add: precedes_def runG_prices)
  qed
  with m have "\<exists>st. handleCalculate engine [exampleBro90, exampleBadSize100, exampleBro80]
            (str ''100'') (str ''200'') Brosur (str ''1000'') = Inr st \<and>
         error st = None \<and>
         mset (results st) = {#result90, resultBad100, result80#} \<and>
         \<not> sorted_wrt precedes (results st)"
    by (simp add: runG)
  then show ?thesis
    by (simp add: runG [of keepOrder] runG_keepOrder runG_prices runG_inconsistent)
qed

theorem nan_price_not_ranked_witness:
  "handleCalculate keepOrder [exampleBro90, exampleBadSize100, exampleBro80]
       (str ''100'') (str ''200'') Brosur (str ''1000'') =
     Inr \<lparr>results = [result90, resultBad100, result80], error = None\<rparr>
   \<and> \<not> jle (calculatedPrice result90) (calculatedPrice result80)"
  using nan_price_not_ranked [of keepOrder] by simp

text \<open>
  C9, as amended. An entry of a multiplier category whose base size is determined:
  swapping width and height gives the same verdict. A request that passes the fit test
  in both orientations takes the product of rounded ratios of the orientation tried
  first, \<open>p1\<close>, and the swapped request that of the other one, \<open>p2\<close>. Unless both
  orientations pass with different products, the imposed multiplier is the same and,
  when the fit is standard, so is the outcome. The two products agree on a square base,
  and when both sides are whole multiples of both base dimensions.
\<close>

theorem swap_orientation:
  assumes "kategori item \<in> set MULTIPLIER_CATEGORIES"
      and "\<not> (kategori item = Magnet \<and> kod item = MGN)"
      and "fst (baseSize item) \<noteq> Num 0" and "snd (baseSize item) \<noteq> Num 0"
  shows "\<exists>r r'. calculatePriceForItem item w h q = Some r \<and>
           calculatePriceForItem item h w q = Some r' \<and>
           needsCut r = needsCut r' \<and>
           (let bw = jmul (fst (baseSize item)) (Num 10);
                bh = jmul (snd (baseSize item)) (Num 10);
                both = (checkFit w bw \<and> checkFit h bh \<and> checkFit w bh \<and> checkFit h bw);
                p1 = jmul (jmax (Num 1) (jround (jdiv w bw))) (jmax (Num 1) (jround (jdiv h bh)));
                p2 = jmul (jmax (Num 1) (jround (jdiv w bh))) (jmax (Num 1) (jround (jdiv h bw)))
            in (both \<longrightarrow> snd (standardImposition w h bw bh) = p1 \<and>
                        snd (standardImposition h w bw bh) = p2) \<and>
               (\<not> (both \<and> p1 \<noteq> p2) \<longrightarrow>
                  snd (standardImposition w h bw bh) = snd (standardImposition h w bw bh) \<and>
                  (\<not> needsCut r \<longrightarrow> r = r')) \<and>
               (bw = bh \<longrightarrow> p1 = p2) \<and>
               (\<forall>x y a b. \<forall>i j k l :: int.
                  w = Num x \<and> h = Num y \<and> bw = Num a \<and> bh = Num b \<and> 0 < a \<and> 0 < b \<and>
                  1 \<le> i \<and> 1 \<le> j \<and> 1 \<le> k \<and> 1 \<le> l \<and>
                  x = of_int i * a \<and> y = of_int j * b \<and> x = of_int k * b \<and> y = of_int l * a \<longrightarrow>
                  p1 = p2))"
proof -
  obtain BW BH where b: "baseSize item = (BW, BH)" by (cases "baseSize item")
  with assms(3,4) have nz: "BW \<noteq> Num 0" "BH \<noteq> Num 0" by simp_all
  define bw where "bw = jmul BW (Num 10)"
  define bh where "bh = jmul BH (Num 10)"
  define both where "both = (checkFit w bw \<and> checkFit h bh \<and> checkFit w bh \<and> checkFit h bw)"
  define p1 where "p1 = jmul (jmax (Num 1) (jround (jdiv w bw))) (jmax (Num 1) (jround (jdiv h bh)))"
  define p2 where "p2 = jmul (jmax (Num 1) (jround (jdiv w bh))) (jmax (Num 1) (jround (jdiv h bw)))"
  have p2': "p2 = jmul (jmax (Num 1) (jround (jdiv h bw))) (jmax (Num 1) (jround (jdiv w bh)))"
    unfolding p2_def by (rule jmul_commute)
  have fst_eq: "fst (standardImposition w h bw bh) = fst (standardImposition h w bw bh)"
    by (auto simp: standardImposition_def Let_def)
  have bothp: "snd (standardImposition w h bw bh) = p1 \<and> snd (standardImposition h w bw bh) = p2"
    if both
    using that unfolding both_def p1_def p2'
    by (simp add: standardImposition_def Let_def)
  have snd_eq: "snd (standardImposition w h bw bh) = snd (standardImposition h w bw bh)"
    if "\<not> (both \<and> p1 \<noteq> p2)"
  proof (cases both)
    case True
    with that have "p1 = p2" by simp
    with bothp [OF True] show ?thesis by simp
  next
    case False
    then show ?thesis
      unfolding both_def by (auto simp: standardImposition_def Let_def jmul_commute)
  qed
  have square: "p1 = p2" if "bw = bh"
    using that by (simp add: p1_def p2_def)
  have multiples: "p1 = p2"
    if m: "w = Num x" "h = Num y" "bw = Num a" "bh = Num b" "0 < a" "0 < b"
          "1 \<le> i" "1 \<le> j" "1 \<le> k" "1 \<le> l"
          "x = of_int i * a" "y = of_int j * b" "x = of_int k * b" "y = of_int l * a"
    for x y a b and i j k l :: int
  proof -
    have q: "x / a = of_int i" "y / b = of_int j" "x / b = of_int k" "y / a = of_int l"
      using m(5,6,11-14) by (simp_all add: field_simps)
    have fl: "\<lfloor>real_of_int n + 1 / 2\<rfloor> = n" for n :: int
      by (rule floor_unique) simp_all
    have ge: "max 1 (real_of_int n) = of_int n" if "1 \<le> n" for n :: int
      using that by (simp add: max_def)
    have "(of_int i * of_int j) * (a * b) = x * y"
      using m(11,12) by (simp add: algebra_simps)
    also have "\<dots> = (of_int k * of_int l) * (a * b)"
      using m(13,14) by (simp add: algebra_simps)
    finally have "real_of_int i * of_int j = of_int k * of_int l"
      using m(5,6) by simp
    then show ?thesis
      unfolding p1_def p2_def m(1-4) using m(5,6)
      by (simp add: q fl ge m(7-10))
  qed
  have calc: "\<exists>r r'. calculatePriceForItem item w h q = Some r \<and>
           calculatePriceForItem item h w q = Some r' \<and>
           needsCut r = needsCut r' \<and>
           (\<not> (both \<and> p1 \<noteq> p2) \<longrightarrow> (\<not> needsCut r \<longrightarrow> r = r'))"
    unfolding multiplier_branch [OF assms(1,2) b nz] Let_def
      bw_def [symmetric] bh_def [symmetric]
    using fst_eq snd_eq by auto
  then obtain r r' where r: "calculatePriceForItem item w h q = Some r"
      "calculatePriceForItem item h w q = Some r'" "needsCut r = needsCut r'"
      "\<not> (both \<and> p1 \<noteq> p2) \<longrightarrow> (\<not> needsCut r \<longrightarrow> r = r')"
    by blast
  show ?thesis
    unfolding b fst_conv snd_conv Let_def
      bw_def [symmetric] bh_def [symmetric] both_def [symmetric] p1_def [symmetric] p2_def [symmetric]
    using r bothp snd_eq square multiples
    by (intro exI [of _ r] exI [of _ r'] conjI impI allI) blast+
qed

theorem swap_orientation_witness:
  "\<exists>r r'. calculatePriceForItem exampleBro90 (Num 200) (Num 400) (Num 1000) = Some r \<and>
       calculatePriceForItem exampleBro90 (Num 400) (Num 200) (Num 1000) = Some r' \<and>
       \<not> needsCut r \<and> r = r' \<and> details r = MultiplierDetails (Num 4) (Num 1)"
proof -
  have nz: "fst (baseSize exampleBro90) \<noteq> Num 0" "snd (baseSize exampleBro90) \<noteq> Num 0"
    by (simp_all add: bro_facts(3))
  have rd: "\<lfloor>5 / 2 :: real\<rfloor> = 2" "\<lfloor>9 / 2 :: real\<rfloor> = 4" "\<lfloor>3 / 2 :: real\<rfloor> = 1"
    by (rule floor_unique, simp, simp)+
  from swap_orientation [OF bro_facts(1,2) nz, of "Num 200" "Num 400" "Num 1000"]
  obtain r r' where
    r: "calculatePriceForItem exampleBro90 (Num 200) (Num 400) (Num 1000) = Some r"
       "calculatePriceForItem exampleBro90 (Num 400) (Num 200) (Num 1000) = Some r'"
       "needsCut r = needsCut r'"
       "\<not> needsCut r \<longrightarrow> r = r'"
    by (auto simp: Let_def bro_facts(3) fits rd)
  have s: "standardImposition (Num 200) (Num 400) (Num 100) (Num 200) = (True, Num 4)"
    by (simp add: standardImposition_def fits rd)
  have "calculatePriceForItem exampleBro90 (Num 200) (Num 400) (Num 1000) =
     Some \<lparr>price = Num 2800, strategy = Multiplier, needsCut = False,
           details = MultiplierDetails (Num 4) (Num 1), baseDims = Some (Num 100, Num 200)\<rparr>"
    by (simp add: multiplier_branch [OF bro_facts(1,2,3)] s bro_facts(4,5))
  then have "r = \<lparr>price = Num 2800, strategy = Multiplier, needsCut = False,
           details = MultiplierDetails (Num 4) (Num 1), baseDims = Some (Num 100, Num 200)\<rparr>"
    using r(1) by simp
  then have "\<not> needsCut r" "details r = MultiplierDetails (Num 4) (Num 1)" by simp_all
  with r show ?thesis by simp
qed

theorem swap_orientation_counterexample:
  "calculatePriceForItem exampleCard (Num (1 / 4)) (Num 2322) (Num 1000) =
     Some \<lparr>price = Num 23650, strategy = Multiplier, needsCut = False,
           details = MultiplierDetails (Num 43) (Num 1), baseDims = Some (Num 86, Num 54)\<rparr>
   \<and> calculatePriceForItem exampleCard (Num 2322) (Num (1 / 4)) (Num 1000) =
     Some \<lparr>price = Num 14850, strategy = Multiplier, needsCut = False,
           details = MultiplierDetails (Num 27) (Num 1), baseDims = Some (Num 86, Num 54)\<rparr>
   \<and> snd (standardImposition (Num (1 / 4)) (Num 2322) (Num 86) (Num 54)) = Num 43
   \<and> snd (standardImposition (Num 2322) (Num (1 / 4)) (Num 86) (Num 54)) = Num 27"
proof -
  have c: "checkFit (Num (1 / 4)) (Num 86)" "checkFit (Num 2322) (Num 54)"
          "checkFit (Num 2322) (Num 86)" "checkFit (Num (1 / 4)) (Num 54)"
    by (simp_all add: fits)
  have s: "standardImposition (Num (1 / 4)) (Num 2322) (Num 86) (Num 54) = (True, Num 43)"
          "standardImposition (Num 2322) (Num (1 / 4)) (Num 86) (Num 54) = (True, Num 27)"
    using c by (simp_all add: standardImposition_def)
  show ?thesis
    by (simp add: multiplier_branch [OF exampleCard_facts(1,2,3)] s exampleCard_facts(4,5))
qed

text \<open>
  C10. A request with a width and a height that are neither 0 nor \<open>NaN\<close> and a quantity
  that is not 0 and not one of the ten tiers: the handler does not report invalid input,
  no result has a previous-quantity suggestion, and a next-quantity suggestion proposes
  1000, the first tier.
\<close>

theorem off_tier_quantity:
  assumes "truthy (parseFloat (replaceFirst [44] [46] width))"
      and "truthy (parseFloat (replaceFirst [44] [46] height))"
      and "parseInt quantity = Num q" and "q \<noteq> 0"
      and "q \<notin> set QUANTITY_OPTIONS"
  shows "handleCalculate engine data width height category quantity \<noteq> Inr \<lparr>results = [], error = Some InvalidInput\<rparr>
       \<and> (\<forall>st. handleCalculate engine data width height category quantity = Inr st \<longrightarrow>
            error st \<noteq> Some InvalidInput \<and>
            (\<forall>r \<in> set (results st). prevQty r = None \<and>
               (\<forall>n. nextQty r = Some n \<longrightarrow> qty n = Num 1000)))"
proof -
  have noerr: "error st \<noteq> Some InvalidInput"
    if "handleCalculate engine data width height category quantity = Inr st" for st
    using that assms(1-4) unfolding handleCalculate_def Let_def
    by (auto split: sum.splits if_splits)
  have sug: "prevQty r = None \<and> (\<forall>n. nextQty r = Some n \<longrightarrow> qty n = Num 1000)"
    if st: "handleCalculate engine data width height category quantity = Inr st" and r: "r \<in> set (results st)"
    for st r
  proof -
    from handleCalculate_result [OF st r] obtain g where
      g: "groupResult category (parseFloat (replaceFirst [44] [46] width))
            (parseFloat (replaceFirst [44] [46] height)) (Num q) g = Some r"
      unfolding assms(3) by blast
    from groupResult_fields [OF g] show ?thesis
      using prevQtyFor_off_tier [OF assms(5)] nextQtyFor_off_tier [OF assms(5)] by auto
  qed
  from noerr sug show ?thesis by fastforce
qed

theorem off_tier_quantity_witness:
  "handleCalculate keepOrder [exampleCard] (str ''90'') (str ''54'') Kartvizit (str ''1500'') =
     Inr \<lparr>results = [resultB], error = None\<rparr>
   \<and> prevQty resultB = None
   \<and> nextQty resultB = Some \<lparr>qty = Num 1000, qty_price = Num 1100\<rparr>"
proof -
  have t: "truthy (parseFloat (replaceFirst [44] [46] (str ''90'')))"
          "truthy (parseFloat (replaceFirst [44] [46] (str ''54'')))"
    by (simp_all add: card_input)
  have q: "(1500::real) \<noteq> 0" by simp
  from off_tier_quantity [OF t card_input(4) q off_tier_1500, of keepOrder "[exampleCard]" Kartvizit] runB
  show ?thesis
    by (simp add: resultB_def)
qed

end
